(* ===== verification/Prelude.thy ===== *)
theory Prelude
  imports Main "HOL-Library.Word" "HOL-Library.Monad_Syntax"
begin

text \<open>
  What the components share: the widths of the code's integers, the ways a C++ run can end
  without a value (\<open>fault\<close>), the sequencing of computations that may end that way, the byte
  orders of the two wire formats (big endian for the transport header, little endian for the
  packed structures), bounded reads and writes of arrays, and the interface \<open>stream_codec\<close> that the
  byte and text encodings of the program satisfy.
\<close>

unbundle bit_operations_syntax

named_theorems fault_simps \<open>evaluation of computations that may fault\<close>
named_theorems bytes_simps \<open>lengths and round trips of byte encodings\<close>

subsection \<open>Machine integers\<close>

type_synonym byte = "8 word"
type_synonym u16 = "16 word"
type_synonym u32 = "32 word"
type_synonym u64 = "64 word"

lemma unat_byte: "unat (b :: byte) < 256"
  using unsigned_less [of b] by simp

subsection \<open>Runs that do not return\<close>

text \<open>
  \<open>Out_of_bounds\<close>: an array, vector or string is read or written outside its bounds, or a null
  pointer is followed, which is undefined behaviour. \<open>Int_overflow\<close>: signed overflow, likewise. \<open>Exit_failure\<close>:
  \<open>FatalError\<close> prints its message and calls \<open>exit(1)\<close>. \<open>Waiting\<close>: a loop is still
  waiting for its environment when the part of the environment's behaviour that the model was
  given is used up.
\<close>

datatype fault = Out_of_bounds | Int_overflow | Exit_failure string | Waiting

definition bind_res :: "fault + 'a \<Rightarrow> ('a \<Rightarrow> fault + 'b) \<Rightarrow> fault + 'b" where
  "bind_res r f = (case r of Inl e \<Rightarrow> Inl e | Inr x \<Rightarrow> f x)"

lemma bind_res_simps [simp, fault_simps]:
  "bind_res (Inl e) f = Inl e"
  "bind_res (Inr x) f = f x"
  by (simp_all add: bind_res_def)

lemma bind_res_Inr_iff:
  "bind_res r f = Inr y \<longleftrightarrow> (\<exists>x. r = Inr x \<and> f x = Inr y)"
  by (cases r) auto

lemma bind_res_Inl_iff:
  "bind_res r f = Inl e \<longleftrightarrow> r = Inl e \<or> (\<exists>x. r = Inr x \<and> f x = Inl e)"
  by (cases r) auto

lemma bind_res_assoc: "bind_res (bind_res r f) g = bind_res r (\<lambda>x. bind_res (f x) g)"
  by (cases r) auto

text \<open>The computation returns normally.\<close>

definition returns :: "fault + 'a \<Rightarrow> bool" where
  "returns r \<longleftrightarrow> (\<exists>x. r = Inr x)"

lemma returns_simps [simp, fault_simps]:
  "returns (Inr x)"
  "\<not> returns (Inl e)"
  by (simp_all add: returns_def)

lemma returns_bind:
  "returns r \<Longrightarrow> (\<And>x. r = Inr x \<Longrightarrow> returns (f x)) \<Longrightarrow> returns (bind_res r f)"
  by (auto simp: returns_def)

text \<open>The computation stays within its arrays, and a value it returns satisfies \<open>P\<close>.\<close>

definition safe :: "('a \<Rightarrow> bool) \<Rightarrow> fault + 'a \<Rightarrow> bool" where
  "safe P r \<longleftrightarrow> (case r of Inl e \<Rightarrow> e \<noteq> Out_of_bounds | Inr x \<Rightarrow> P x)"

lemma safe_simps [simp, fault_simps]:
  "safe P (Inr x) \<longleftrightarrow> P x"
  "safe P (Inl e) \<longleftrightarrow> e \<noteq> Out_of_bounds"
  by (simp_all add: safe_def)

lemma safe_bind:
  "safe Q r \<Longrightarrow> (\<And>x. Q x \<Longrightarrow> safe P (f x)) \<Longrightarrow> safe P (bind_res r f)"
  by (cases r) auto

lemma safe_mono: "safe Q r \<Longrightarrow> (\<And>x. Q x \<Longrightarrow> P x) \<Longrightarrow> safe P r"
  by (cases r) auto

lemma safe_Inr: "safe P r \<Longrightarrow> r = Inr x \<Longrightarrow> P x"
  by simp

subsection \<open>Bounded writes into an array\<close>

text \<open>\<open>std::copy\<close> and \<open>memcpy\<close> of \<open>src\<close> into an array from index \<open>off\<close> on.\<close>

definition write_at :: "nat \<Rightarrow> 'a list \<Rightarrow> 'a list \<Rightarrow> fault + 'a list" where
  "write_at off src dst =
     (if off + length src \<le> length dst
      then Inr (take off dst @ src @ drop (off + length src) dst)
      else Inl Out_of_bounds)"

lemma write_at_ok [fault_simps]:
  "off + length src \<le> length dst \<Longrightarrow>
   write_at off src dst = Inr (take off dst @ src @ drop (off + length src) dst)"
  by (simp add: write_at_def)

lemma write_at_past_end [fault_simps]:
  "length dst < off + length src \<Longrightarrow> write_at off src dst = Inl Out_of_bounds"
  by (simp add: write_at_def)

lemma write_at_length: "write_at off src dst = Inr dst' \<Longrightarrow> length dst' = length dst"
  by (auto simp: write_at_def split: if_splits)

text \<open>A read of the first \<open>n\<close> bytes of a buffer (\<open>memcpy\<close> out of it).\<close>

definition read_prefix :: "nat \<Rightarrow> 'a list \<Rightarrow> fault + 'a list" where
  "read_prefix n src = (if n \<le> length src then Inr (take n src) else Inl Out_of_bounds)"

lemma read_prefix_simps [fault_simps]:
  "n \<le> length src \<Longrightarrow> read_prefix n src = Inr (take n src)"
  "length src < n \<Longrightarrow> read_prefix n src = Inl Out_of_bounds"
  by (simp_all add: read_prefix_def)

text \<open>Reading one element, and copying the elements from one index to another.\<close>

definition read_at :: "nat \<Rightarrow> 'a list \<Rightarrow> fault + 'a" where
  "read_at i src = (if i < length src then Inr (src ! i) else Inl Out_of_bounds)"

definition read_between :: "nat \<Rightarrow> nat \<Rightarrow> 'a list \<Rightarrow> fault + 'a list" where
  "read_between i j src =
     (if i \<le> j \<and> j \<le> length src then Inr (drop i (take j src)) else Inl Out_of_bounds)"

lemma read_at_simps [fault_simps]:
  "i < length src \<Longrightarrow> read_at i src = Inr (src ! i)"
  "length src \<le> i \<Longrightarrow> read_at i src = Inl Out_of_bounds"
  by (simp_all add: read_at_def)

lemma read_between_simps [fault_simps]:
  "i \<le> j \<Longrightarrow> j \<le> length src \<Longrightarrow> read_between i j src = Inr (drop i (take j src))"
  "j < i \<Longrightarrow> read_between i j src = Inl Out_of_bounds"
  "length src < j \<Longrightarrow> read_between i j src = Inl Out_of_bounds"
  by (simp_all add: read_between_def)

abbreviation zeros :: "nat \<Rightarrow> byte list" where "zeros n \<equiv> replicate n 0"

text \<open>\<open>n\<close> bytes of a buffer from offset \<open>off\<close> on.\<close>

definition slice :: "nat \<Rightarrow> nat \<Rightarrow> byte list \<Rightarrow> byte list" where
  "slice off n bs = take n (drop off bs)"

lemma slice_append [simp]:
  "length pre = off \<Longrightarrow> length mid = n \<Longrightarrow> slice off n (pre @ mid @ rest) = mid"
  "length pre = off \<Longrightarrow> length mid = n \<Longrightarrow> slice off n (pre @ mid) = mid"
  by (simp_all add: slice_def)

lemma slice_slice: "off + n \<le> m \<Longrightarrow> slice off n (slice base m bs) = slice (base + off) n bs"
  by (simp add: slice_def take_drop min_def add.commute add.left_commute)

subsection \<open>Encodings that decode from the front of a stream\<close>

text \<open>
  The contract of an encoding of values into a stream of symbols: the encoding of a well-formed
  value can be read back from the front of any stream, with the rest untouched. Encodings with
  this law are injective, can be concatenated, and can be repeated.
\<close>

fun dec_times :: "nat \<Rightarrow> ('b list \<Rightarrow> ('a \<times> 'b list) option) \<Rightarrow> 'b list \<Rightarrow> ('a list \<times> 'b list) option" where
  "dec_times 0 dec bs = Some ([], bs)"
| "dec_times (Suc n) dec bs =
     do { (x, bs) \<leftarrow> dec bs; (xs, bs) \<leftarrow> dec_times n dec bs; Some (x # xs, bs) }"

text \<open>Decoding until the stream is used up; \<open>fuel\<close> bounds the number of values.\<close>

fun dec_until :: "nat \<Rightarrow> ('b list \<Rightarrow> ('a \<times> 'b list) option) \<Rightarrow> 'b list \<Rightarrow> 'a list option" where
  "dec_until fuel dec [] = Some []"
| "dec_until 0 dec (b # bs) = None"
| "dec_until (Suc fuel) dec (b # bs) =
     do { (x, rest) \<leftarrow> dec (b # bs); xs \<leftarrow> dec_until fuel dec rest; Some (x # xs) }"

locale stream_codec =
  fixes enc :: "'a \<Rightarrow> 'b list"
    and dec :: "'b list \<Rightarrow> ('a \<times> 'b list) option"
    and ok :: "'a \<Rightarrow> bool"
  assumes dec_enc: "ok a \<Longrightarrow> dec (enc a @ rest) = Some (a, rest)"
begin

lemma dec_enc_all: "ok a \<Longrightarrow> dec (enc a) = Some (a, [])"
  using dec_enc [of a "[]"] by simp

lemma enc_prefix_free:
  assumes "ok a" "ok b" "enc a @ r = enc b @ s"
  shows "a = b \<and> r = s"
proof -
  have "Some (a, r) = dec (enc a @ r)" by (rule dec_enc [OF assms(1), symmetric])
  also have "\<dots> = dec (enc b @ s)" by (simp only: assms(3))
  also have "\<dots> = Some (b, s)" by (rule dec_enc [OF assms(2)])
  finally show ?thesis by simp
qed

lemma enc_inj: "ok a \<Longrightarrow> ok b \<Longrightarrow> enc a = enc b \<Longrightarrow> a = b"
  using enc_prefix_free [of a b "[]" "[]"] by simp

lemma dec_times_concat:
  "list_all ok xs \<Longrightarrow> length xs = n \<Longrightarrow>
   dec_times n dec (concat (map enc xs) @ rest) = Some (xs, rest)"
  by (induction xs arbitrary: n) (auto simp: dec_enc)

end

text \<open>When no value has an empty encoding, a whole stream determines the values in it.\<close>

locale text_codec = stream_codec +
  assumes enc_nonempty: "ok a \<Longrightarrow> enc a \<noteq> []"
begin

lemma dec_until_concat:
  "list_all ok xs \<Longrightarrow> length xs \<le> fuel \<Longrightarrow>
   dec_until fuel dec (concat (map enc xs)) = Some xs"
proof (induction xs arbitrary: fuel)
  case Nil
  then show ?case by (cases fuel) auto
next
  case (Cons x xs)
  then obtain m where fuel: "fuel = Suc m" by (cases fuel) auto
  from Cons.prems have x: "ok x" by simp
  obtain b bs where stream: "concat (map enc (x # xs)) = b # bs"
    using enc_nonempty [OF x] by (cases "enc x") auto
  have "dec (b # bs) = Some (x, concat (map enc xs))"
    using dec_enc [OF x, of "concat (map enc xs)"] stream by simp
  with Cons fuel stream show ?case by simp
qed

lemma concat_enc_inj:
  assumes "list_all ok xs" "list_all ok ys" "concat (map enc xs) = concat (map enc ys)"
  shows "xs = ys"
proof -
  let ?n = "max (length xs) (length ys)"
  have "Some xs = dec_until ?n dec (concat (map enc xs))"
    by (rule dec_until_concat [OF assms(1), symmetric]) simp
  also have "\<dots> = dec_until ?n dec (concat (map enc ys))" by (simp only: assms(3))
  also have "\<dots> = Some ys" by (rule dec_until_concat [OF assms(2)]) simp
  finally show ?thesis by simp
qed

end

subsection \<open>Little endian\<close>

fun le_enc :: "nat \<Rightarrow> 'a::len word \<Rightarrow> byte list" where
  "le_enc 0 w = []"
| "le_enc (Suc n) w = ucast w # le_enc n (drop_bit 8 w)"

fun le_dec :: "byte list \<Rightarrow> 'a::len word" where
  "le_dec [] = 0"
| "le_dec (b # bs) = ucast b OR push_bit 8 (le_dec bs)"

lemma length_le_enc [simp, bytes_simps]: "length (le_enc n w) = n"
  by (induction n arbitrary: w) auto

lemma le_dec_enc: "le_dec (le_enc n w) = take_bit (8 * n) w"
proof (induction n arbitrary: w)
  case 0
  show ?case by simp
next
  case (Suc n)
  have "le_dec (le_enc (Suc n) w) = ucast (ucast w :: byte) OR push_bit 8 (take_bit (8 * n) (drop_bit 8 w))"
    by (simp add: Suc)
  also have "\<dots> = take_bit (8 * Suc n) w"
    by (rule bit_word_eqI) (auto simp: bit_simps)
  finally show ?case .
qed

lemma le_dec_enc_full:
  "LENGTH('a) \<le> 8 * n \<Longrightarrow> le_dec (le_enc n w) = (w :: 'a::len word)"
  by (simp add: le_dec_enc take_bit_word_eq_self)

lemma bit_le_dec: "bit (le_dec bs :: 'a::len word) i \<Longrightarrow> i < 8 * length bs"
proof (induction bs arbitrary: i)
  case Nil
  then show ?case by simp
next
  case (Cons b bs)
  then show ?case
    by (auto simp: bit_simps dest!: Cons.IH bit_imp_le_length [of b])
qed

lemma le_enc_dec:
  "8 * length bs \<le> LENGTH('a) \<Longrightarrow> le_enc (length bs) (le_dec bs :: 'a::len word) = bs"
proof (induction bs)
  case Nil
  then show ?case by simp
next
  case (Cons b bs)
  let ?w = "ucast b OR push_bit 8 (le_dec bs) :: 'a word"
  have "ucast ?w = b"
    using Cons.prems by (intro bit_word_eqI) (auto simp: bit_simps)
  moreover have "drop_bit 8 ?w = le_dec bs"
    using Cons.prems by (intro bit_word_eqI) (auto simp: bit_simps dest: bit_le_dec bit_imp_le_length)
  ultimately show ?case using Cons by simp
qed

lemma le_dec_eq_iff:
  assumes "8 * length bs = LENGTH('a)"
  shows "le_dec bs = (w :: 'a::len word) \<longleftrightarrow> bs = le_enc (length bs) w"
  using assms le_enc_dec [of bs, where 'a = 'a] le_dec_enc_full [where 'a = 'a and n = "length bs" and w = w]
  by auto

text \<open>Reading an \<open>n\<close>-byte little-endian word from the front of a byte stream.\<close>

definition le_read :: "nat \<Rightarrow> byte list \<Rightarrow> ('a::len word \<times> byte list) option" where
  "le_read n bs = (if n \<le> length bs then Some (le_dec (take n bs), drop n bs) else None)"

abbreviation le32 :: "u32 \<Rightarrow> byte list" where
  "le32 \<equiv> le_enc 4"

abbreviation le64 :: "u64 \<Rightarrow> byte list" where
  "le64 \<equiv> le_enc 8"

lemma le32_unfold:
  "le32 w = [ucast w, ucast (drop_bit 8 w), ucast (drop_bit 16 w), ucast (drop_bit 24 w)]"
  by (simp add: numeral_eq_Suc)

interpretation le32: text_codec le32 "le_read 4" "\<lambda>_. True"
proof
  show "le_read 4 (le32 a @ rest) = Some (a, rest)" for a rest
    by (simp add: le_read_def le_dec_enc_full)
  show "le32 a \<noteq> []" for a
    by (simp add: numeral_eq_Suc)
qed

interpretation le64: text_codec le64 "le_read 8" "\<lambda>_. True"
proof
  show "le_read 8 (le64 a @ rest) = Some (a, rest)" for a rest
    by (simp add: le_read_def le_dec_enc_full)
  show "le64 a \<noteq> []" for a
    by (simp add: numeral_eq_Suc)
qed

subsection \<open>Big-endian 16-bit words\<close>

definition be16 :: "u16 \<Rightarrow> byte list" where
  "be16 w = [ucast (drop_bit 8 w), ucast w]"

definition be16_of :: "byte \<Rightarrow> byte \<Rightarrow> u16" where
  "be16_of hi lo = push_bit 8 (ucast hi) OR ucast lo"

lemma be16_of_be16 [simp, bytes_simps]: "be16_of (ucast (drop_bit 8 w)) (ucast w) = w"
  unfolding be16_of_def
  by (rule bit_word_eqI) (auto simp: bit_simps)

lemma length_be16 [simp, bytes_simps]: "length (be16 w) = 2"
  by (simp add: be16_def)

fun be16_read :: "byte list \<Rightarrow> (u16 \<times> byte list) option" where
  "be16_read (hi # lo # bs) = Some (be16_of hi lo, bs)"
| "be16_read _ = None"

interpretation be16: text_codec be16 be16_read "\<lambda>_. True"
  by unfold_locales (auto simp: be16_def)

end
