(* ===== verification/Console.thy ===== *)
theory Console
  imports Prelude
begin

text \<open>
  The text the harness writes: \<open>print_bin\<close>, the transmission logs built from it, string
  streams with their put position, the names of the error codes and the verbosity levels
  (\<open>src/util.cc\<close>, \<open>src/util.h\<close>). The decoders here are specifications only: they show
  that what is printed determines the bytes.
\<close>

subsection \<open>Characters\<close>

abbreviation NL :: char where
  "NL \<equiv> CHR 0x0A"

abbreviation backslash :: char where
  "backslash \<equiv> CHR 0x5C"

definition chr :: "byte \<Rightarrow> char" where
  "chr b = char_of (unat b)"

definition ord :: "char \<Rightarrow> byte" where
  "ord c = of_nat (of_char c)"

lemma unat_byte_less [simp]: "unat (b :: byte) < 256"
  using unsigned_less [of b] by simp

lemma of_char_less: "of_char c < (256 :: nat)"
proof -
  have "of_char c mod 256 < (256 :: nat)" by simp
  then show ?thesis by (simp only: of_char_mod_256)
qed

lemma of_char_chr [simp]: "of_char (chr b) = unat b"
  by (simp add: chr_def)

lemma ord_chr [simp]: "ord (chr b) = b"
  by (simp add: ord_def)

lemma chr_inject [simp]: "chr a = chr b \<longleftrightarrow> a = b"
  by (metis ord_chr)

lemma chr_ord [simp]: "chr (ord c) = c"
proof -
  have "unat (of_nat (of_char c) :: byte) = (of_char c :: nat)"
    using of_char_less [of c] by (simp add: unat_of_nat)
  then show ?thesis by (simp add: chr_def ord_def)
qed

text \<open>The bytes of a string, as the code's \<open>char\<close> arrays hold them.\<close>

definition bytes_of :: "string \<Rightarrow> byte list" where
  "bytes_of s = map ord s"

lemma bytes_of_append: "bytes_of (s @ t) = bytes_of s @ bytes_of t"
  by (simp add: bytes_of_def)

definition string_of :: "byte list \<Rightarrow> string" where
  "string_of bs = map chr bs"

lemma string_of_bytes_of [simp]: "string_of (bytes_of s) = s"
  by (simp add: string_of_def bytes_of_def comp_def)

lemma bytes_of_string_of [simp]: "bytes_of (string_of bs) = bs"
  by (simp add: string_of_def bytes_of_def comp_def)

text \<open>\<open>isprint\<close> of the C locale.\<close>

definition isprint :: "byte \<Rightarrow> bool" where
  "isprint c \<longleftrightarrow> 32 \<le> c \<and> c < 127"

text \<open>\<open>toupper\<close> of the C locale.\<close>

definition toupper :: "char \<Rightarrow> char" where
  "toupper c = (let n = of_char c :: nat in
     if 97 \<le> n \<and> n \<le> 122 then char_of (n - 32) else c)"

lemma toupper_toupper [simp]: "toupper (toupper c) = toupper c"
proof -
  have "n - 32 < 256" if "n < 256" for n :: nat using that by simp
  then show ?thesis using of_char_less [of c]
    by (auto simp: toupper_def Let_def)
qed

subsection \<open>Hexadecimal output\<close>

definition hexdigit :: "nat \<Rightarrow> char" where
  "hexdigit n = (if n < 10 then char_of (48 + n) else char_of (87 + n))"

text \<open>\<open>out << std::hex << n\<close> for an unsigned \<open>n\<close>: lower case, no padding.\<close>

fun hex_str :: "nat \<Rightarrow> string" where
  "hex_str n = (if n < 16 then [hexdigit n] else hex_str (n div 16) @ [hexdigit (n mod 16)])"

declare hex_str.simps [simp del]

text \<open>\<open>out << std::dec << n\<close> and the conversion \<open>%llu\<close> of an unsigned \<open>n\<close>, and
  \<open>out << n\<close> of a signed one.\<close>

fun dec_str :: "nat \<Rightarrow> string" where
  "dec_str n = (if n < 10 then [hexdigit n] else dec_str (n div 10) @ [hexdigit (n mod 10)])"

declare dec_str.simps [simp del]

definition int_str :: "int \<Rightarrow> string" where
  "int_str n = (if n < 0 then ''-'' @ dec_str (nat (- n)) else dec_str (nat n))"

lemma hex_str_digit: "n < 16 \<Longrightarrow> hex_str n = [hexdigit n]"
  by (simp add: hex_str.simps)

lemma hex_str_two:
  assumes "16 \<le> n" "n < 256"
  shows "hex_str n = [hexdigit (n div 16), hexdigit (n mod 16)]"
proof -
  have "n div 16 < 16" using assms(2) by simp
  with assms(1) show ?thesis by (simp add: hex_str.simps [of n] hex_str_digit)
qed

definition unhexdigit :: "char \<Rightarrow> nat option" where
  "unhexdigit c = (let n = of_char c in
     if 48 \<le> n \<and> n < 58 then Some (n - 48)
     else if 97 \<le> n \<and> n < 103 then Some (n - 87) else None)"

lemma unhexdigit_hexdigit [simp]: "n < 16 \<Longrightarrow> unhexdigit (hexdigit n) = Some n"
  by (simp add: unhexdigit_def hexdigit_def Let_def)

subsection \<open>\<open>print_bin\<close>\<close>

definition print_bin :: "byte \<Rightarrow> string" where
  "print_bin c =
     (if c = 92 then [backslash, backslash]
      else if isprint c then [chr c]
      else if c < 16 then [backslash, CHR ''x'', CHR ''0''] @ hex_str (unat c)
      else [backslash, CHR ''x''] @ hex_str (unat c))"

text \<open>Reading one printed byte back.\<close>

fun print_bin_read :: "string \<Rightarrow> (byte \<times> string) option" where
  "print_bin_read [] = None"
| "print_bin_read (c # cs) =
     (if c \<noteq> backslash then Some (ord c, cs)
      else (case cs of
        [] \<Rightarrow> None
      | d # ds \<Rightarrow>
          if d = backslash then Some (92, ds)
          else (case ds of
            h # l # rest \<Rightarrow>
              do { hi \<leftarrow> unhexdigit h; lo \<leftarrow> unhexdigit l; Some (of_nat (16 * hi + lo), rest) }
          | _ \<Rightarrow> None)))"

lemma byte_of_nibbles: "of_nat (16 * (unat c div 16) + unat c mod 16) = (c :: byte)"
  by simp

lemma print_bin_hex:
  assumes "c \<noteq> 92" "\<not> isprint c"
  shows "print_bin c = [backslash, CHR ''x'', hexdigit (unat c div 16), hexdigit (unat c mod 16)]"
proof (cases "c < 16")
  case True
  then have "unat c < 16" by (simp add: word_less_nat_alt)
  moreover have "hexdigit 0 = CHR ''0''" by (simp add: hexdigit_def char_of_eq_iff)
  ultimately show ?thesis using True assms by (simp add: print_bin_def hex_str_digit)
next
  case False
  then have "16 \<le> unat c" by (simp add: word_less_nat_alt)
  with False assms show ?thesis by (simp add: print_bin_def hex_str_two)
qed

lemma chr_92: "chr 92 = backslash"
  by (simp add: chr_def char_of_eq_iff)

lemma chr_backslash_iff: "chr c = backslash \<longleftrightarrow> c = 92"
  using chr_inject [of c 92] by (simp only: chr_92)

lemma print_bin_read_print_bin: "print_bin_read (print_bin c @ rest) = Some (c, rest)"
proof -
  consider "c = 92" | "c \<noteq> 92" "isprint c" | "c \<noteq> 92" "\<not> isprint c" by blast
  then show ?thesis
  proof cases
    case 1
    then show ?thesis by (simp add: print_bin_def)
  next
    case 2
    then show ?thesis by (simp add: print_bin_def chr_backslash_iff)
  next
    case 3
    have "unat c div 16 < 16" by (simp add: less_mult_imp_div_less)
    with 3 show ?thesis 
      by (simp add: print_bin_hex byte_of_nibbles del: of_nat_add of_nat_mult)
  qed
qed

interpretation printed: text_codec print_bin print_bin_read "\<lambda>_. True"
proof
  show "print_bin_read (print_bin a @ rest) = Some (a, rest)" for a rest
    by (rule print_bin_read_print_bin)
  show "print_bin a \<noteq> []" for a by (simp add: print_bin_def)
qed

subsection \<open>Transmission logs\<close>

text \<open>
  The loops that log a buffer (\<open>SPI_TX\<close>, \<open>SPI_RX\<close>, \<open>TX\<close>): a newline byte starts a new
  log line with the prefix, any other byte goes through \<open>print_bin\<close>; the log ends the line.
\<close>

definition log_byte :: "string \<Rightarrow> byte \<Rightarrow> string" where
  "log_byte prefix c = (if c = 10 then NL # prefix else print_bin c)"

definition log_buffer :: "string \<Rightarrow> byte list \<Rightarrow> string" where
  "log_buffer prefix bs = prefix @ concat (map (log_byte prefix) bs) @ [NL]"

fun log_read :: "string \<Rightarrow> string \<Rightarrow> (byte \<times> string) option" where
  "log_read prefix [] = None"
| "log_read prefix (c # cs) =
     (if c = NL then (if take (length prefix) cs = prefix then Some (10, drop (length prefix) cs) else None)
      else print_bin_read (c # cs))"

lemma chr_NL_iff: "chr c = NL \<longleftrightarrow> c = 10"
proof -
  have "chr 10 = NL" by (simp add: chr_def char_of_eq_iff)
  then show ?thesis using chr_inject [of c 10] by metis
qed

lemma print_bin_no_newline: "NL \<notin> set (print_bin c)"
proof (cases "c = 92 \<or> isprint c")
  case True
  moreover have "\<not> isprint 10" by (simp add: isprint_def)
  ultimately show ?thesis by (auto simp: print_bin_def chr_NL_iff dest: sym)
next
  case False
  have "hexdigit n \<noteq> NL" if "n < 16" for n
  proof
    assume "hexdigit n = NL"
    then have "unhexdigit NL = Some n" using unhexdigit_hexdigit [OF that] by simp
    then show False by (simp add: unhexdigit_def)
  qed
  moreover have "unat c div 16 < 16" by (simp add: less_mult_imp_div_less)
  ultimately show ?thesis using False by (auto simp: print_bin_hex dest: sym)
qed

interpretation logged: text_codec "log_byte prefix" "log_read prefix" "\<lambda>_. True"
proof
  fix a rest
  show "log_read prefix (log_byte prefix a @ rest) = Some (a, rest)"
  proof (cases "a = 10")
    case True
    then show ?thesis by (simp add: log_byte_def)
  next
    case False
    obtain c cs where pb: "print_bin a = c # cs" by (cases "print_bin a") (auto simp: print_bin_def split: if_splits)
    have "c \<noteq> NL" using print_bin_no_newline [of a] pb by auto
    with False pb show ?thesis using print_bin_read_print_bin [of a rest] by (simp add: log_byte_def)
  qed
  show "log_byte prefix a \<noteq> []"
    using printed.enc_nonempty by (simp add: log_byte_def)
qed

text \<open>The log of a transmission determines the transmitted bytes: reading back the
  text between the prefix and the final newline gives exactly the buffer that was logged,
  whatever bytes it holds (newlines, backslashes and unprintable bytes included).\<close>

theorem log_buffer_readable:
  "dec_until (length bs) (log_read prefix)
     (butlast (drop (length prefix) (log_buffer prefix bs))) = Some bs"
proof -
  have "butlast (drop (length prefix) (log_buffer prefix bs)) = concat (map (log_byte prefix) bs)"
    by (simp add: log_buffer_def butlast_append)
  then show ?thesis by (simp add: logged.dec_until_concat list_all_iff)
qed

subsection \<open>String streams\<close>

text \<open>
  A \<open>std::stringstream\<close> is its buffer and its put position. Constructing one from a string
  (default mode \<open>in | out\<close>) leaves the put position at the beginning; so does \<open>str(s)\<close>.
  Output overwrites from the put position on.
\<close>

record sstream =
  sbuf :: string
  sput :: nat

definition ss_new :: "string \<Rightarrow> sstream" where
  "ss_new s = \<lparr>sbuf = s, sput = 0\<rparr>"

definition ss_write :: "string \<Rightarrow> sstream \<Rightarrow> sstream" where
  "ss_write s ss = \<lparr>sbuf = take (sput ss) (sbuf ss) @ s @ drop (sput ss + length s) (sbuf ss),
                    sput = sput ss + length s\<rparr>"

definition ss_str :: "sstream \<Rightarrow> string" where
  "ss_str ss = sbuf ss"

definition ss_tellp :: "sstream \<Rightarrow> nat" where
  "ss_tellp ss = sput ss"

text \<open>The put position is at the end of the buffer: output appends.\<close>

definition ss_at_end :: "sstream \<Rightarrow> bool" where
  "ss_at_end ss \<longleftrightarrow> sput ss = length (sbuf ss)"

lemma ss_at_end_new [simp]: "ss_at_end (ss_new s) \<longleftrightarrow> s = []"
  by (auto simp: ss_at_end_def ss_new_def)

lemma ss_write_at_end:
  "ss_at_end ss \<Longrightarrow> ss_at_end (ss_write s ss) \<and> ss_str (ss_write s ss) = ss_str ss @ s"
  by (simp add: ss_at_end_def ss_write_def ss_str_def)

lemma ss_write_fresh:
  "ss_str (ss_write s (ss_new t)) = s @ drop (length s) t"
  by (simp add: ss_write_def ss_new_def ss_str_def)

lemma ss_write_write: "ss_write t (ss_write s ss) = ss_write (s @ t) ss"
  if "sput ss \<le> length (sbuf ss)"
  using that by (auto simp: ss_write_def ac_simps)

subsection \<open>Error codes\<close>

text \<open>\<open>enum error_codes : int\<close>; the functions of the harness return them as \<open>int\<close>.\<close>

abbreviation NO_ERROR :: int where "NO_ERROR \<equiv> 0"
abbreviation GENERIC_ERROR :: int where "GENERIC_ERROR \<equiv> 1"
abbreviation TIMEOUT :: int where "TIMEOUT \<equiv> 2"
abbreviation TRANSPORT_ERROR :: int where "TRANSPORT_ERROR \<equiv> 3"
abbreviation OVERFLOW_ERROR :: int where "OVERFLOW_ERROR \<equiv> 4"
abbreviation SERIALIZE_ERROR :: int where "SERIALIZE_ERROR \<equiv> 5"

definition error_codes_name :: "int \<Rightarrow> string" where
  "error_codes_name code =
     (if code = NO_ERROR then ''NO_ERROR''
      else if code = GENERIC_ERROR then ''GENERIC_ERROR''
      else if code = TIMEOUT then ''TIMEOUT''
      else if code = TRANSPORT_ERROR then ''TRANSPORT_ERROR''
      else if code = OVERFLOW_ERROR then ''OVERFLOW_ERROR''
      else if code = SERIALIZE_ERROR then ''SERIALIZE_ERROR''
      else ''unknown'')"

lemma error_codes_name_known: "error_codes_name code = ''unknown'' \<longleftrightarrow> code \<notin> {0..5}"
  by (auto simp: error_codes_name_def)

lemma error_codes_name_inj: "inj_on error_codes_name {0..5}"
  by (rule inj_onI) (simp add: error_codes_name_def split: if_splits)

subsection \<open>Verbosity\<close>

abbreviation SILENT :: int where "SILENT \<equiv> 0"
abbreviation CRITICAL :: int where "CRITICAL \<equiv> 10"
abbreviation ERROR :: int where "ERROR \<equiv> 20"
abbreviation WARNING :: int where "WARNING \<equiv> 30"
abbreviation INFO :: int where "INFO \<equiv> 40"

text \<open>\<open>android\<close> is the build configuration, \<open>flag\<close> the value of \<open>--util_verbosity\<close>.\<close>

definition GetVerbosityFromFlag :: "bool \<Rightarrow> string \<Rightarrow> int" where
  "GetVerbosityFromFlag android flag =
     (if android then ERROR
      else (let upper_case_flag = map toupper flag in
        if upper_case_flag = ''SILENT'' then SILENT
        else if upper_case_flag = ''CRITICAL'' then CRITICAL
        else if upper_case_flag = ''WARNING'' then WARNING
        else if upper_case_flag = ''INFO'' then INFO
        else ERROR))"

lemma GetVerbosityFromFlag_range:
  "GetVerbosityFromFlag android flag \<in> {SILENT, CRITICAL, ERROR, WARNING, INFO}"
  by (simp add: GetVerbosityFromFlag_def Let_def)

lemma GetVerbosityFromFlag_case:
  "GetVerbosityFromFlag android (map toupper flag) = GetVerbosityFromFlag android flag"
  by (simp add: GetVerbosityFromFlag_def comp_def)

end
