(* ===== verification/NuggetTools.thy ===== *)
theory NuggetTools
  imports Console "HOL-Library.Signed_Division"
begin

text \<open>
  The device client and \<open>tools/nugget_tools.cc\<close>: serial number lookup, client creation, the
  cycle counter, and the three procedures that reboot the chip, wait for deep sleep and wipe user
  data, each judged by comparing two snapshots of the low-power statistics.

  The client library (\<open>nos::NuggetClientInterface\<close>), the clock and the sleep are outside the
  repository: they are the fields of the record \<open>nos\<close>, over a world type that the model passes
  along. So are the size and the layout of \<open>struct nugget_app_low_power_stats\<close> and the value
  of \<open>ERASE_CONFIRMATION\<close>, which a header of the firmware defines.
\<close>

subsection \<open>Vectors with a capacity\<close>

text \<open>
  \<open>std::vector<uint8_t>\<close>: its elements and its capacity, which the client library and
  \<open>SendSpi\<close> observe. \<open>resize\<close> zero-fills and never shrinks the capacity.
\<close>

record vec =
  vdata :: "byte list"
  vcap :: nat

definition vec_empty :: vec where
  "vec_empty = \<lparr>vdata = [], vcap = 0\<rparr>"

definition vec_reserve :: "nat \<Rightarrow> vec \<Rightarrow> vec" where
  "vec_reserve n v = v\<lparr>vcap := max (vcap v) n\<rparr>"

definition vec_resize :: "nat \<Rightarrow> vec \<Rightarrow> vec" where
  "vec_resize n v =
     \<lparr>vdata = take n (vdata v) @ replicate (n - length (vdata v)) 0, vcap = max (vcap v) n\<rparr>"

definition vec_wf :: "vec \<Rightarrow> bool" where
  "vec_wf v \<longleftrightarrow> length (vdata v) \<le> vcap v"

lemma vec_sel_simps [simp]:
  "vdata vec_empty = []" "vcap vec_empty = 0"
  "vdata (vec_reserve n v) = vdata v" "vcap (vec_reserve n v) = max (vcap v) n"
  "length (vdata (vec_resize n v)) = n" "vcap (vec_resize n v) = max (vcap v) n"
  by (auto simp: vec_empty_def vec_reserve_def vec_resize_def)

lemma vec_wf_ops [simp, intro]:
  "vec_wf vec_empty" "vec_wf v \<Longrightarrow> vec_wf (vec_reserve n v)" "vec_wf (vec_resize n v)"
  by (auto simp: vec_wf_def)

subsection \<open>The client interface\<close>

text \<open>The applications and parameters the sources name; the protobuf application is called with
  a message type as its parameter.\<close>

datatype app_id = APP_ID_NUGGET | APP_ID_PROTOBUF | APP_ID_AVB_TEST

datatype app_param =
    NUGGET_PARAM_CYCLES_SINCE_BOOT
  | NUGGET_PARAM_GET_LOW_POWER_STATS
  | NUGGET_PARAM_REBOOT
  | NUGGET_PARAM_NUKE_FROM_ORBIT
  | NUGGET_PARAM_VERSION
  | NUGGET_PARAM_DEVICE_ID
  | NUGGET_PARAM_AP_UART_PASSTHRU
  | Param u16

abbreviation APP_SUCCESS :: int where "APP_SUCCESS \<equiv> 0"

datatype client = NuggetClient string | CitadeldProxyClient

record low_power_stats =
  hard_reset_count :: u64
  time_since_hard_reset :: u64
  wake_count :: u64
  time_at_last_wake :: u64
  time_spent_awake :: u64
  deep_sleep_count :: u64
  time_at_last_deep_sleep :: u64
  time_spent_in_deep_sleep :: u64

text \<open>
  \<open>call_app\<close> takes the client, the application, the parameter, the request and the response
  vector (\<open>None\<close> for \<open>nullptr\<close>), and returns the status and the response vector.
  \<open>now_ns\<close> is \<open>high_resolution_clock::now()\<close> in its nanosecond ticks. The last three are the
  output: \<open>LOG(ERROR)\<close> at a line of the file, \<open>perror\<close> and \<open>printf\<close>.
\<close>

record 'w nos =
  client_open :: "client \<Rightarrow> 'w \<Rightarrow> 'w"
  client_close :: "client \<Rightarrow> 'w \<Rightarrow> 'w"
  client_is_open :: "client \<Rightarrow> 'w \<Rightarrow> bool"
  call_app :: "client \<Rightarrow> app_id \<Rightarrow> app_param \<Rightarrow> byte list \<Rightarrow> vec option \<Rightarrow> 'w \<Rightarrow> int \<times> vec \<times> 'w"
  now_ns :: "'w \<Rightarrow> int \<times> 'w"
  sleep_us :: "int \<Rightarrow> 'w \<Rightarrow> 'w"
  stats_size :: nat
  stats_of :: "byte list \<Rightarrow> low_power_stats"
  erase_confirmation :: u32
  log_error :: "nat \<Rightarrow> string \<Rightarrow> 'w \<Rightarrow> 'w"
  report_errno :: "string \<Rightarrow> 'w \<Rightarrow> 'w"
  print_out :: "string \<Rightarrow> 'w \<Rightarrow> 'w"

subsection \<open>Serial number and client creation\<close>

text \<open>
  \<open>device\<close> is the environment variable \<open>CITADEL_DEVICE\<close>, \<open>serial\<close> the flag
  \<open>nos_core_serial\<close>, which the function may assign; the result pairs the returned string with
  the flag's new value.
\<close>

definition GetCitadelUSBSerialNo :: "bool \<Rightarrow> string option \<Rightarrow> string \<Rightarrow> string \<times> string" where
  "GetCitadelUSBSerialNo android device serial =
     (if android then ('''', serial)
      else (let serial' =
          (if serial = '''' then
             (case device of Some env_default \<Rightarrow> if env_default \<noteq> '''' then env_default else serial
              | None \<Rightarrow> serial)
           else serial)
        in (serial', serial')))"

lemma GetCitadelUSBSerialNo_flag_wins:
  "serial \<noteq> '''' \<Longrightarrow> GetCitadelUSBSerialNo False device serial = (serial, serial)"
  by (simp add: GetCitadelUSBSerialNo_def)

lemma GetCitadelUSBSerialNo_stable:
  "GetCitadelUSBSerialNo False device serial = (r, serial') \<Longrightarrow>
   GetCitadelUSBSerialNo False device serial' = (r, serial')"
  by (auto simp: GetCitadelUSBSerialNo_def Let_def split: option.splits if_splits)

text \<open>
  On Android the direct client is opened at once and replaced by the proxy when that fails;
  elsewhere the client is returned unopened.
\<close>

definition MakeNuggetClient ::
  "'w nos \<Rightarrow> bool \<Rightarrow> string option \<Rightarrow> string \<Rightarrow> 'w \<Rightarrow> client \<times> string \<times> 'w" where
  "MakeNuggetClient env android device serial w =
     (if android then
        (let client = NuggetClient ''''; w = client_open env client w in
         if \<not> client_is_open env client w then (CitadeldProxyClient, serial, w)
         else (client, serial, w))
      else (let (s, serial') = GetCitadelUSBSerialNo android device serial
            in (NuggetClient s, serial', w)))"

subsection \<open>The cycle counter\<close>

text \<open>\<open>None\<close> in the first component is the return value \<open>false\<close>, with \<open>*cycles\<close> unset.\<close>

definition CyclesSinceBoot :: "'w nos \<Rightarrow> client \<Rightarrow> 'w \<Rightarrow> u32 option \<times> 'w" where
  "CyclesSinceBoot env client w =
     (let buffer = vec_reserve 4 vec_empty;
          (st, buffer, w) = call_app env client APP_ID_NUGGET NUGGET_PARAM_CYCLES_SINCE_BOOT
                              (vdata buffer) (Some buffer) w
      in if st \<noteq> APP_SUCCESS
         then (None, log_error env 71 (''CallApp(..., NUGGET_PARAM_CYCLES_SINCE_BOOT, ...) failed!'' @ [NL])
                       (report_errno env ''test'' w))
         else if length (vdata buffer) \<noteq> 4
         then (None, log_error env 75 (''Unexpected size of cycle count!'' @ [NL]) w)
         else (Some (le_dec (vdata buffer)), w))"

subsection \<open>Snapshots of the statistics\<close>

text \<open>The lines that \<open>ShowStats\<close> prints, one call of \<open>printf\<close> each.\<close>

definition stats_lines :: "low_power_stats \<Rightarrow> string list" where
  "stats_lines stats =
     [''  hard_reset_count         '' @ dec_str (unat (hard_reset_count stats)) @ [NL],
      ''  time_since_hard_reset    '' @ dec_str (unat (time_since_hard_reset stats)) @ [NL],
      ''  wake_count               '' @ dec_str (unat (wake_count stats)) @ [NL],
      ''  time_at_last_wake        '' @ dec_str (unat (time_at_last_wake stats)) @ [NL],
      ''  time_spent_awake         '' @ dec_str (unat (time_spent_awake stats)) @ [NL],
      ''  deep_sleep_count         '' @ dec_str (unat (deep_sleep_count stats)) @ [NL],
      ''  time_at_last_deep_sleep  '' @ dec_str (unat (time_at_last_deep_sleep stats)) @ [NL],
      ''  time_spent_in_deep_sleep '' @ dec_str (unat (time_spent_in_deep_sleep stats)) @ [NL]]"

definition ShowStats :: "'w nos \<Rightarrow> string \<Rightarrow> low_power_stats \<Rightarrow> 'w \<Rightarrow> 'w" where
  "ShowStats env msg stats w = fold (print_out env) ((msg @ [NL]) # stats_lines stats) w"

text \<open>
  The block that each procedure repeats: call the application with \<open>buffer\<close> as the request and
  as the response, give up on an error status with a message from the given line, and copy
  \<open>sizeof(stats)\<close> bytes out of it. The code does not check that the reply is that long.
\<close>

definition GrabStats ::
  "'w nos \<Rightarrow> nat \<Rightarrow> client \<Rightarrow> vec \<Rightarrow> 'w \<Rightarrow> fault + (low_power_stats option \<times> vec \<times> 'w)" where
  "GrabStats env line client buffer w =
     (let (st, buffer, w) = call_app env client APP_ID_NUGGET NUGGET_PARAM_GET_LOW_POWER_STATS
                              (vdata buffer) (Some buffer) w
      in if st \<noteq> APP_SUCCESS
         then Inr (None, buffer,
                log_error env line (''CallApp(..., NUGGET_PARAM_GET_LOW_POWER_STATS, ...) failed!'' @ [NL]) w)
         else bind_res (read_prefix (stats_size env) (vdata buffer))
                (\<lambda>bs. Inr (Some (stats_of env bs), buffer, w)))"

subsection \<open>\<open>RebootNugget\<close>\<close>

text \<open>
  The verdict on two snapshots. \<open>hard_reset_count + 1\<close> wraps at 64 bits, and the unsigned
  \<open>time_since_hard_reset\<close> becomes the signed count of a \<open>std::chrono::microseconds\<close>.
\<close>

definition rebooted :: "low_power_stats \<Rightarrow> low_power_stats \<Rightarrow> int \<Rightarrow> bool" where
  "rebooted stats0 stats1 max_usecs \<longleftrightarrow>
     hard_reset_count stats1 = hard_reset_count stats0 + 1 \<and>
     time_at_last_wake stats1 = 0 \<and>
     deep_sleep_count stats1 = 0 \<and>
     sint (time_since_hard_reset stats1) < max_usecs"

text \<open>\<open>duration_cast<microseconds>(now - start) * 105 / 100\<close>\<close>

definition max_usecs_of :: "int \<Rightarrow> int \<Rightarrow> int" where
  "max_usecs_of start stop = ((stop - start) sdiv 1000 * 105) sdiv 100"

text \<open>
  \<open>buffer.empty()\<close> before the second snapshot is the test for emptiness, whose result is
  discarded: the vector keeps its contents.
\<close>

definition RebootNugget :: "'w nos \<Rightarrow> client \<Rightarrow> 'w \<Rightarrow> fault + (bool \<times> 'w)" where
  "RebootNugget env client w =
     (let buffer = vec_reserve (stats_size env) vec_empty in
      bind_res (GrabStats env 107 client buffer w) (\<lambda>(s0, buffer, w).
        case s0 of
          None \<Rightarrow> Inr (False, w)
        | Some stats0 \<Rightarrow>
            (let (start, w) = now_ns env w;
                 (st, _, w) = call_app env client APP_ID_NUGGET NUGGET_PARAM_REBOOT [] None w
             in if st \<noteq> APP_SUCCESS
                then Inr (False, log_error env 119 (''CallApp(..., NUGGET_PARAM_REBOOT, ...) failed!'' @ [NL]) w)
                else (let buffer = vec_reserve (stats_size env) buffer in
                  bind_res (GrabStats env 128 client buffer w) (\<lambda>(s1, buffer, w).
                    case s1 of
                      None \<Rightarrow> Inr (False, w)
                    | Some stats1 \<Rightarrow>
                        (let (stop, w) = now_ns env w;
                             max_usecs = max_usecs_of start stop
                         in if rebooted stats0 stats1 max_usecs then Inr (True, w)
                            else (let w = log_error env 146 (''Citadel didn't reboot within '' @
                                            int_str max_usecs @ '' microseconds'' @ [NL]) w;
                                      w = ShowStats env ''stats before waiting'' stats0 w;
                                      w = ShowStats env ''stats after waiting'' stats1 w
                                  in Inr (False, w))))))))"

subsection \<open>\<open>WaitForSleep\<close>\<close>

definition slept :: "low_power_stats \<Rightarrow> low_power_stats \<Rightarrow> bool" where
  "slept stats0 stats1 \<longleftrightarrow>
     hard_reset_count stats1 = hard_reset_count stats0 \<and>
     deep_sleep_count stats1 = deep_sleep_count stats0 + 1 \<and>
     wake_count stats1 = wake_count stats0 + 1 \<and>
     time_spent_in_deep_sleep stats1 > time_spent_in_deep_sleep stats0"

definition wait_seconds :: u32 where
  "wait_seconds = 4"

text \<open>\<open>waited\<close> is \<open>*seconds_waited\<close>, \<open>None\<close> when the caller passes a null pointer.\<close>

definition WaitForSleep ::
  "'w nos \<Rightarrow> client \<Rightarrow> u32 option \<Rightarrow> 'w \<Rightarrow> fault + (bool \<times> u32 option \<times> 'w)" where
  "WaitForSleep env client waited w =
     (let buffer = vec_reserve (stats_size env) vec_empty in
      bind_res (GrabStats env 163 client buffer w) (\<lambda>(s0, buffer, w).
        case s0 of
          None \<Rightarrow> Inr (False, waited, w)
        | Some stats0 \<Rightarrow>
            (let w = sleep_us env (uint wait_seconds * 1000000) w;
                 buffer = vec_reserve (stats_size env) buffer in
             bind_res (GrabStats env 177 client buffer w) (\<lambda>(s1, buffer, w).
               case s1 of
                 None \<Rightarrow> Inr (False, waited, w)
               | Some stats1 \<Rightarrow>
                   if slept stats0 stats1
                   then Inr (True, map_option (\<lambda>_. wait_seconds) waited, w)
                   else (let w = log_error env 194 (''Citadel didn't sleep'' @ [NL]) w;
                             w = ShowStats env ''stats before waiting'' stats0 w;
                             w = ShowStats env ''stats after waiting'' stats1 w
                         in Inr (False, waited, w))))))"

subsection \<open>\<open>WipeUserData\<close>\<close>

definition WipeUserData :: "'w nos \<Rightarrow> client \<Rightarrow> 'w \<Rightarrow> fault + (bool \<times> 'w)" where
  "WipeUserData env client w =
     (let buffer = vec_reserve (stats_size env) vec_empty in
      bind_res (GrabStats env 210 client buffer w) (\<lambda>(s0, buffer, w).
        case s0 of
          None \<Rightarrow> Inr (False, w)
        | Some stats0 \<Rightarrow>
            (let buffer = (vec_resize 4 buffer)\<lparr>vdata := le32 (erase_confirmation env)\<rparr>;
                 (st, _, w) = call_app env client APP_ID_NUGGET NUGGET_PARAM_NUKE_FROM_ORBIT
                                (vdata buffer) None w
             in if st \<noteq> APP_SUCCESS then Inr (False, w)
                else (let buffer = vec_reserve (stats_size env) buffer in
                  bind_res (GrabStats env 228 client buffer w) (\<lambda>(s1, buffer, w).
                    case s1 of
                      None \<Rightarrow> Inr (False, w)
                    | Some stats1 \<Rightarrow>
                        (let ret = (hard_reset_count stats1 = hard_reset_count stats0)
                         in Inr (ret, if \<not> ret
                              then log_error env 236 (''Citadel reset while wiping user data'' @ [NL]) w
                              else w)))))))"

subsection \<open>Traces\<close>

text \<open>
  To state what a procedure asks of the device and on what evidence it answers, an environment is
  wrapped so that its world also records every call, clock reading and sleep.
\<close>

datatype event =
    Call app_id app_param "byte list" int "byte list"
  | Clock int
  | Slept int
  | Logged nat string
  | Perror string
  | Printed string

definition traced :: "'w nos \<Rightarrow> ('w \<times> event list) nos" where
  "traced env = \<lparr>
     client_open = (\<lambda>c (w, l). (client_open env c w, l)),
     client_close = (\<lambda>c (w, l). (client_close env c w, l)),
     client_is_open = (\<lambda>c (w, l). client_is_open env c w),
     call_app = (\<lambda>c app param req resp (w, l).
        let (st, v, w') = call_app env c app param req resp w
        in (st, v, w', l @ [Call app param req st (case resp of None \<Rightarrow> [] | Some _ \<Rightarrow> vdata v)])),
     now_ns = (\<lambda>(w, l). let (t, w') = now_ns env w in (t, w', l @ [Clock t])),
     sleep_us = (\<lambda>us (w, l). (sleep_us env us w, l @ [Slept us])),
     stats_size = stats_size env,
     stats_of = stats_of env,
     erase_confirmation = erase_confirmation env,
     log_error = (\<lambda>line text (w, l). (log_error env line text w, l @ [Logged line text])),
     report_errno = (\<lambda>text (w, l). (report_errno env text w, l @ [Perror text])),
     print_out = (\<lambda>text (w, l). (print_out env text w, l @ [Printed text]))\<rparr>"

lemma traced_sel [simp]:
  "stats_size (traced env) = stats_size env"
  "stats_of (traced env) = stats_of env"
  "erase_confirmation (traced env) = erase_confirmation env"
  by (simp_all add: traced_def)

lemma traced_ops:
  "call_app (traced env) c app param req resp (w, l) =
     (let (st, v, w') = call_app env c app param req resp w
      in (st, v, w', l @ [Call app param req st (case resp of None \<Rightarrow> [] | Some _ \<Rightarrow> vdata v)]))"
  "now_ns (traced env) (w, l) = (let (t, w') = now_ns env w in (t, w', l @ [Clock t]))"
  "sleep_us (traced env) us (w, l) = (sleep_us env us w, l @ [Slept us])"
  "log_error (traced env) line text (w, l) = (log_error env line text w, l @ [Logged line text])"
  "print_out (traced env) text (w, l) = (print_out env text w, l @ [Printed text])"
  by (simp_all add: traced_def)

text \<open>What grabbing a snapshot does to a trace, on its three outcomes.\<close>

abbreviation stats_failed :: string where
  "stats_failed \<equiv> ''CallApp(..., NUGGET_PARAM_GET_LOW_POWER_STATS, ...) failed!'' @ [NL]"

lemma GrabStats_cases:
  "GrabStats env line c buffer w =
     (let (st, v, w') = call_app env c APP_ID_NUGGET NUGGET_PARAM_GET_LOW_POWER_STATS
                          (vdata buffer) (Some buffer) w
      in if st \<noteq> APP_SUCCESS then Inr (None, v, log_error env line stats_failed w')
         else if stats_size env \<le> length (vdata v)
         then Inr (Some (stats_of env (take (stats_size env) (vdata v))), v, w')
         else Inl Out_of_bounds)"
  by (auto simp: GrabStats_def Let_def read_prefix_def split: prod.splits)

lemma GrabStats_traced:
  "GrabStats (traced env) line c buffer (w, l) =
     (let (st, v, w') = call_app env c APP_ID_NUGGET NUGGET_PARAM_GET_LOW_POWER_STATS
                          (vdata buffer) (Some buffer) w;
          l' = l @ [Call APP_ID_NUGGET NUGGET_PARAM_GET_LOW_POWER_STATS (vdata buffer) st (vdata v)]
      in if st \<noteq> APP_SUCCESS
         then Inr (None, v, log_error env line stats_failed w', l' @ [Logged line stats_failed])
         else if stats_size env \<le> length (vdata v)
         then Inr (Some (stats_of env (take (stats_size env) (vdata v))), v, w', l')
         else Inl Out_of_bounds)"
  by (auto simp: GrabStats_cases traced_ops Let_def split: prod.splits)

text \<open>What \<open>ShowStats\<close> adds to a trace.\<close>

abbreviation shown :: "string \<Rightarrow> low_power_stats \<Rightarrow> event list" where
  "shown msg stats \<equiv> map Printed ((msg @ [NL]) # stats_lines stats)"

lemma print_traced:
  "fold (print_out (traced env)) ss (w, l) = (fold (print_out env) ss w, l @ map Printed ss)"
  by (induction ss arbitrary: w l) (simp_all add: traced_ops)

lemma ShowStats_traced:
  "ShowStats (traced env) msg stats (w, l) = (ShowStats env msg stats w, l @ shown msg stats)"
  unfolding ShowStats_def print_traced ..

abbreviation get_stats :: "byte list \<Rightarrow> byte list \<Rightarrow> event" where
  "get_stats req reply \<equiv> Call APP_ID_NUGGET NUGGET_PARAM_GET_LOW_POWER_STATS req APP_SUCCESS reply"

text \<open>The snapshot that a reply holds.\<close>

definition snapshot :: "'w nos \<Rightarrow> byte list \<Rightarrow> low_power_stats" where
  "snapshot env reply = stats_of env (take (stats_size env) reply)"

text \<open>C11: when \<open>RebootNugget\<close> answers true, it has asked for statistics, read the clock, asked
  for the reboot, asked for statistics again and read the clock, in that order and with nothing
  else in between; both replies were long enough; and the snapshots differ by exactly one hard
  reset, with no wake, no deep sleep, and a time since reset below 105% of the elapsed time.
  The second statistics request carries the first reply, because \<open>buffer.empty()\<close> does not
  clear the buffer.\<close>

theorem RebootNugget_evidence:
  assumes "RebootNugget (traced env) c (w, []) = Inr (True, w', l)"
  shows "\<exists>r0 t0 r1 t1.
    l = [get_stats [] r0, Clock t0, Call APP_ID_NUGGET NUGGET_PARAM_REBOOT [] APP_SUCCESS [],
         get_stats r0 r1, Clock t1] \<and>
    stats_size env \<le> length r0 \<and> stats_size env \<le> length r1 \<and>
    hard_reset_count (snapshot env r1) = hard_reset_count (snapshot env r0) + 1 \<and>
    time_at_last_wake (snapshot env r1) = 0 \<and> deep_sleep_count (snapshot env r1) = 0 \<and>
    sint (time_since_hard_reset (snapshot env r1)) < ((t1 - t0) sdiv 1000 * 105) sdiv 100"
  using assms
  by (auto simp: RebootNugget_def GrabStats_traced traced_ops ShowStats_traced Let_def rebooted_def snapshot_def
      max_usecs_of_def split: prod.splits if_splits)

text \<open>C12: when \<open>WaitForSleep\<close> answers true, it has slept once, for four seconds, between the two
  snapshots; the snapshots show one more deep sleep and wake, more time in deep sleep and no hard
  reset; and the caller's \<open>*seconds_waited\<close> is the time slept. On every other return the
  caller's variable is untouched.\<close>

theorem WaitForSleep_evidence:
  assumes "WaitForSleep (traced env) c waited (w, []) = Inr (ok, waited', w', l)"
  shows "(if ok then
    \<exists>r0 r1. l = [get_stats [] r0, Slept 4000000, get_stats r0 r1] \<and>
      stats_size env \<le> length r0 \<and> stats_size env \<le> length r1 \<and>
      hard_reset_count (snapshot env r1) = hard_reset_count (snapshot env r0) \<and>
      deep_sleep_count (snapshot env r1) = deep_sleep_count (snapshot env r0) + 1 \<and>
      wake_count (snapshot env r1) = wake_count (snapshot env r0) + 1 \<and>
      time_spent_in_deep_sleep (snapshot env r0) < time_spent_in_deep_sleep (snapshot env r1) \<and>
      waited' = map_option (\<lambda>_. 4) waited
    else waited' = waited)"
  using assms
  by (auto simp: WaitForSleep_def GrabStats_traced traced_ops ShowStats_traced Let_def slept_def snapshot_def
      wait_seconds_def split: prod.splits if_splits)

text \<open>C13: when \<open>WipeUserData\<close> answers true, the erase command carried the little-endian erase
  confirmation and was issued once, between two snapshots with the same hard reset count. The
  second statistics request carries the erase confirmation again.\<close>

theorem WipeUserData_evidence:
  assumes "WipeUserData (traced env) c (w, []) = Inr (True, w', l)"
  shows "\<exists>r0 r1.
    l = [get_stats [] r0,
         Call APP_ID_NUGGET NUGGET_PARAM_NUKE_FROM_ORBIT (le32 (erase_confirmation env)) APP_SUCCESS [],
         get_stats (le32 (erase_confirmation env)) r1] \<and>
    stats_size env \<le> length r0 \<and> stats_size env \<le> length r1 \<and>
    hard_reset_count (snapshot env r1) = hard_reset_count (snapshot env r0)"
  using assms
  by (auto simp: WipeUserData_def GrabStats_traced traced_ops Let_def snapshot_def
      split: prod.splits if_splits)

text \<open>The failures of each procedure, with everything it did and told.\<close>

abbreviation stats_refused :: "byte list \<Rightarrow> int \<Rightarrow> byte list \<Rightarrow> event" where
  "stats_refused req st reply \<equiv> Call APP_ID_NUGGET NUGGET_PARAM_GET_LOW_POWER_STATS req st reply"

lemma RebootNugget_failures:
  assumes "RebootNugget (traced env) c (w, []) = Inr (False, w', l)"
  shows "\<exists>st r0 t0 r1 t1.
    st \<noteq> APP_SUCCESS \<and> l = [stats_refused [] st r0, Logged 107 stats_failed] \<or>
    st \<noteq> APP_SUCCESS \<and> l = [get_stats [] r0, Clock t0, Call APP_ID_NUGGET NUGGET_PARAM_REBOOT [] st [],
       Logged 119 (''CallApp(..., NUGGET_PARAM_REBOOT, ...) failed!'' @ [NL])] \<or>
    st \<noteq> APP_SUCCESS \<and> l = [get_stats [] r0, Clock t0, Call APP_ID_NUGGET NUGGET_PARAM_REBOOT [] APP_SUCCESS [],
       stats_refused r0 st r1, Logged 128 stats_failed] \<or>
    \<not> rebooted (snapshot env r0) (snapshot env r1) (max_usecs_of t0 t1) \<and>
      l = [get_stats [] r0, Clock t0, Call APP_ID_NUGGET NUGGET_PARAM_REBOOT [] APP_SUCCESS [],
         get_stats r0 r1, Clock t1,
         Logged 146 (''Citadel didn't reboot within '' @ int_str (max_usecs_of t0 t1) @ '' microseconds'' @ [NL])] @
        shown ''stats before waiting'' (snapshot env r0) @ shown ''stats after waiting'' (snapshot env r1)"
  using assms
  by (auto simp: RebootNugget_def GrabStats_traced traced_ops ShowStats_traced Let_def snapshot_def
      split: prod.splits if_splits)

lemma WaitForSleep_failures:
  assumes "WaitForSleep (traced env) c waited (w, []) = Inr (False, waited', w', l)"
  shows "\<exists>st r0 r1.
    st \<noteq> APP_SUCCESS \<and> l = [stats_refused [] st r0, Logged 163 stats_failed] \<or>
    st \<noteq> APP_SUCCESS \<and> l = [get_stats [] r0, Slept 4000000, stats_refused r0 st r1, Logged 177 stats_failed] \<or>
    \<not> slept (snapshot env r0) (snapshot env r1) \<and>
      l = [get_stats [] r0, Slept 4000000, get_stats r0 r1, Logged 194 (''Citadel didn't sleep'' @ [NL])] @
        shown ''stats before waiting'' (snapshot env r0) @ shown ''stats after waiting'' (snapshot env r1)"
  using assms
  by (auto simp: WaitForSleep_def GrabStats_traced traced_ops ShowStats_traced Let_def snapshot_def wait_seconds_def
      split: prod.splits if_splits)

lemma WipeUserData_failures:
  assumes "WipeUserData (traced env) c (w, []) = Inr (False, w', l)"
  shows "\<exists>st r0 r1. let confirm = le32 (erase_confirmation env) in
    st \<noteq> APP_SUCCESS \<and> l = [stats_refused [] st r0, Logged 210 stats_failed] \<or>
    st \<noteq> APP_SUCCESS \<and> l = [get_stats [] r0, Call APP_ID_NUGGET NUGGET_PARAM_NUKE_FROM_ORBIT confirm st []] \<or>
    st \<noteq> APP_SUCCESS \<and> l = [get_stats [] r0, Call APP_ID_NUGGET NUGGET_PARAM_NUKE_FROM_ORBIT confirm APP_SUCCESS [],
       stats_refused confirm st r1, Logged 228 stats_failed] \<or>
    hard_reset_count (snapshot env r1) \<noteq> hard_reset_count (snapshot env r0) \<and>
      l = [get_stats [] r0, Call APP_ID_NUGGET NUGGET_PARAM_NUKE_FROM_ORBIT confirm APP_SUCCESS [],
         get_stats confirm r1, Logged 236 (''Citadel reset while wiping user data'' @ [NL])]"
  using assms
  by (auto simp: WipeUserData_def GrabStats_traced traced_ops Let_def snapshot_def split: prod.splits if_splits)

text \<open>C14: a failure, with all that the procedure did and told before it returned. Whatever step
  fails, the trace ends with it and with the one error, if any, that is logged for that step: the
  first statistics (lines 107, 163, 210), the command to reboot (119), the second statistics (128,
  177, 228), or the comparison of the two snapshots (146, 194, 236), which has failed indeed and
  after which \<open>RebootNugget\<close> and \<open>WaitForSleep\<close>, but not \<open>WipeUserData\<close>, print both snapshots,
  the earlier first. Only when the chip refuses the command to wipe is nothing told.\<close>

theorem failures_reported:
  assumes "RebootNugget (traced env) c (w, []) = Inr (False, w1, l1)"
    and "WaitForSleep (traced env') c waited (w', []) = Inr (False, waited', w2, l2)"
    and "WipeUserData (traced env'') c (w'', []) = Inr (False, w3, l3)"
  shows "(\<exists>st r0 t0 r1 t1.
      st \<noteq> APP_SUCCESS \<and> l1 = [stats_refused [] st r0, Logged 107 stats_failed] \<or>
      st \<noteq> APP_SUCCESS \<and> l1 = [get_stats [] r0, Clock t0, Call APP_ID_NUGGET NUGGET_PARAM_REBOOT [] st [],
         Logged 119 (''CallApp(..., NUGGET_PARAM_REBOOT, ...) failed!'' @ [NL])] \<or>
      st \<noteq> APP_SUCCESS \<and> l1 = [get_stats [] r0, Clock t0, Call APP_ID_NUGGET NUGGET_PARAM_REBOOT [] APP_SUCCESS [],
         stats_refused r0 st r1, Logged 128 stats_failed] \<or>
      \<not> rebooted (snapshot env r0) (snapshot env r1) (max_usecs_of t0 t1) \<and>
        l1 = [get_stats [] r0, Clock t0, Call APP_ID_NUGGET NUGGET_PARAM_REBOOT [] APP_SUCCESS [],
           get_stats r0 r1, Clock t1,
           Logged 146 (''Citadel didn't reboot within '' @ int_str (max_usecs_of t0 t1) @ '' microseconds'' @ [NL])] @
          shown ''stats before waiting'' (snapshot env r0) @ shown ''stats after waiting'' (snapshot env r1)) \<and>
    (\<exists>st r0 r1.
      st \<noteq> APP_SUCCESS \<and> l2 = [stats_refused [] st r0, Logged 163 stats_failed] \<or>
      st \<noteq> APP_SUCCESS \<and> l2 = [get_stats [] r0, Slept 4000000, stats_refused r0 st r1, Logged 177 stats_failed] \<or>
      \<not> slept (snapshot env' r0) (snapshot env' r1) \<and>
        l2 = [get_stats [] r0, Slept 4000000, get_stats r0 r1, Logged 194 (''Citadel didn't sleep'' @ [NL])] @
          shown ''stats before waiting'' (snapshot env' r0) @ shown ''stats after waiting'' (snapshot env' r1)) \<and>
    (\<exists>st r0 r1. let confirm = le32 (erase_confirmation env'') in
      st \<noteq> APP_SUCCESS \<and> l3 = [stats_refused [] st r0, Logged 210 stats_failed] \<or>
      st \<noteq> APP_SUCCESS \<and> l3 = [get_stats [] r0, Call APP_ID_NUGGET NUGGET_PARAM_NUKE_FROM_ORBIT confirm st []] \<or>
      st \<noteq> APP_SUCCESS \<and> l3 = [get_stats [] r0, Call APP_ID_NUGGET NUGGET_PARAM_NUKE_FROM_ORBIT confirm APP_SUCCESS [],
         stats_refused confirm st r1, Logged 228 stats_failed] \<or>
      hard_reset_count (snapshot env'' r1) \<noteq> hard_reset_count (snapshot env'' r0) \<and>
        l3 = [get_stats [] r0, Call APP_ID_NUGGET NUGGET_PARAM_NUKE_FROM_ORBIT confirm APP_SUCCESS [],
           get_stats confirm r1, Logged 236 (''Citadel reset while wiping user data'' @ [NL])])"
  by (intro conjI RebootNugget_failures [OF assms(1)] WaitForSleep_failures [OF assms(2)]
      WipeUserData_failures [OF assms(3)])

text \<open>Recording does not change what a procedure does.\<close>

definition untrace :: "fault + ('r \<times> 'w \<times> event list) \<Rightarrow> fault + ('r \<times> 'w)" where
  "untrace r = map_sum id (\<lambda>(x, w, l). (x, w)) r"

lemma untrace_simps [simp]:
  "untrace (Inl e) = Inl e" "untrace (Inr (x, w, l)) = Inr (x, w)"
  by (simp_all add: untrace_def)

lemma untrace_bind_GrabStats:
  assumes "\<And>s v w' l'. untrace (f (s, v, w', l')) = g (s, v, w')"
  shows "untrace (bind_res (GrabStats (traced env) line c buffer (w, l)) f) =
         bind_res (GrabStats env line c buffer w) g"
  by (cases "call_app env c APP_ID_NUGGET NUGGET_PARAM_GET_LOW_POWER_STATS (vdata buffer) (Some buffer) w")
    (simp add: GrabStats_def traced_ops read_prefix_def assms)

lemma RebootNugget_untrace:
  "untrace (RebootNugget (traced env) c (w, l)) = RebootNugget env c w"
  unfolding RebootNugget_def traced_sel Let_def
  by (rule untrace_bind_GrabStats, simp add: traced_ops ShowStats_traced Let_def split: option.split prod.split)
    (intro allI impI, rule untrace_bind_GrabStats,
     simp add: traced_ops ShowStats_traced Let_def split: option.split prod.split)

lemma WipeUserData_untrace:
  "untrace (WipeUserData (traced env) c (w, l)) = WipeUserData env c w"
  unfolding WipeUserData_def traced_sel Let_def
  by (rule untrace_bind_GrabStats, simp add: traced_ops ShowStats_traced Let_def split: option.split prod.split)
    (intro allI impI, rule untrace_bind_GrabStats,
     simp add: traced_ops ShowStats_traced Let_def split: option.split prod.split)

subsection \<open>Replies that are too short\<close>

text \<open>The contract of the statistics command: a successful reply holds the structure.\<close>

definition stats_replies_full :: "'w nos \<Rightarrow> bool" where
  "stats_replies_full env \<longleftrightarrow>
     (\<forall>c req resp w st v w'.
        call_app env c APP_ID_NUGGET NUGGET_PARAM_GET_LOW_POWER_STATS req (Some resp) w = (st, v, w') \<longrightarrow>
        st = APP_SUCCESS \<longrightarrow> stats_size env \<le> length (vdata v))"

lemma stats_replies_fullD:
  "stats_replies_full env \<Longrightarrow>
   call_app env c APP_ID_NUGGET NUGGET_PARAM_GET_LOW_POWER_STATS req (Some resp) w = (APP_SUCCESS, v, w') \<Longrightarrow>
   stats_size env \<le> length (vdata v)"
  unfolding stats_replies_full_def by blast

lemma GrabStats_bind_returns:
  assumes "stats_replies_full env" and "\<And>s v w. returns (f (s, v, w))"
  shows "returns (bind_res (GrabStats env line c buffer w) f)"
  using assms(2)
  by (cases "call_app env c APP_ID_NUGGET NUGGET_PARAM_GET_LOW_POWER_STATS (vdata buffer) (Some buffer) w")
    (auto simp: GrabStats_cases dest: stats_replies_fullD [OF assms(1)])

lemma returning_procedures:
  assumes "stats_replies_full env"
  shows "returns (RebootNugget env c w)" "returns (WaitForSleep env c waited w)" "returns (WipeUserData env c w)"
  unfolding RebootNugget_def WaitForSleep_def WipeUserData_def Let_def
  by (auto intro!: GrabStats_bind_returns assms split: option.split prod.split)

text \<open>On a device whose successful statistics replies are complete, all three procedures
  return an answer, without reading past a buffer.\<close>

theorem procedures_return:
  assumes "stats_replies_full env"
  shows "returns (RebootNugget env c w) \<and> returns (WaitForSleep env c waited w) \<and>
         returns (WipeUserData env c w)"
  by (intro conjI returning_procedures [OF assms])

text \<open>C15: the procedures trust the reply: when the first statistics reply reports success but is
  shorter than the structure, \<open>memcpy\<close> reads past the end of the vector in all three.\<close>

theorem short_stats_reply_overreads:
  assumes "call_app env c APP_ID_NUGGET NUGGET_PARAM_GET_LOW_POWER_STATS []
             (Some (vec_reserve (stats_size env) vec_empty)) w = (APP_SUCCESS, v, w')"
    and "length (vdata v) < stats_size env"
  shows "RebootNugget env c w = Inl Out_of_bounds \<and> WaitForSleep env c waited w = Inl Out_of_bounds \<and>
         WipeUserData env c w = Inl Out_of_bounds"
  using assms by (simp add: RebootNugget_def WaitForSleep_def WipeUserData_def GrabStats_cases)

text \<open>\<open>CyclesSinceBoot\<close> does check: only a successful four-byte reply is decoded.\<close>

lemma CyclesSinceBoot_reply:
  assumes "call_app env c APP_ID_NUGGET NUGGET_PARAM_CYCLES_SINCE_BOOT []
             (Some (vec_reserve 4 vec_empty)) w = (st, v, w')"
  shows "CyclesSinceBoot env c w = (Some n, w') \<longleftrightarrow> st = APP_SUCCESS \<and> vdata v = le32 n"
  using assms le_dec_eq_iff [of "vdata v" n] by (auto simp: CyclesSinceBoot_def)

subsection \<open>Concrete devices\<close>

text \<open>
  Devices on which the procedures run to completion, to show that the hypotheses above can hold.
  The world is the number of statistics replies given so far, which is also the reply;
  \<open>decode\<close> says what such a reply means. Every clock reading after the first reply is 10
  microseconds later.
\<close>

definition counting_device :: "(byte \<Rightarrow> low_power_stats) \<Rightarrow> byte nos" where
  "counting_device decode = \<lparr>
     client_open = (\<lambda>c w. w), client_close = (\<lambda>c w. w), client_is_open = (\<lambda>c w. True),
     call_app = (\<lambda>c app param req resp w.
        if param = NUGGET_PARAM_GET_LOW_POWER_STATS
        then (APP_SUCCESS, \<lparr>vdata = [w], vcap = 1\<rparr>, w + 1)
        else (APP_SUCCESS, vec_empty, w)),
     now_ns = (\<lambda>w. (if w = 1 then 0 else 10000, w)), sleep_us = (\<lambda>us w. w),
     stats_size = 1,
     stats_of = (\<lambda>bs. case bs of [] \<Rightarrow> decode 0 | b # _ \<Rightarrow> decode b),
     erase_confirmation = 0xF5E5E5A5,
     log_error = (\<lambda>line text w. w), report_errno = (\<lambda>text w. w), print_out = (\<lambda>text w. w)\<rparr>"

definition no_stats :: low_power_stats where
  "no_stats = \<lparr>hard_reset_count = 0, time_since_hard_reset = 0, wake_count = 0,
     time_at_last_wake = 0, time_spent_awake = 0, deep_sleep_count = 0,
     time_at_last_deep_sleep = 0, time_spent_in_deep_sleep = 0\<rparr>"

abbreviation rebooting_device :: "byte nos" where
  "rebooting_device \<equiv> counting_device (\<lambda>b. no_stats\<lparr>hard_reset_count := ucast b\<rparr>)"

abbreviation sleeping_device :: "byte nos" where
  "sleeping_device \<equiv> counting_device (\<lambda>b. no_stats\<lparr>deep_sleep_count := ucast b,
     wake_count := ucast b, time_spent_in_deep_sleep := ucast b\<rparr>)"

lemma counting_device_sel [simp]:
  "stats_size (counting_device d) = 1"
  "stats_of (counting_device d) [b] = d b"
  "now_ns (counting_device d) w = (if w = 1 then 0 else 10000, w)"
  "sleep_us (counting_device d) us w = w"
  "erase_confirmation (counting_device d) = 0xF5E5E5A5"
  "call_app (counting_device d) c app param req resp w =
     (if param = NUGGET_PARAM_GET_LOW_POWER_STATS then (APP_SUCCESS, \<lparr>vdata = [w], vcap = 1\<rparr>, w + 1)
      else (APP_SUCCESS, vec_empty, w))"
  by (simp_all add: counting_device_def)

theorem RebootNugget_evidence_witness:
  "\<exists>r0 t0 r1 t1.
    RebootNugget (traced rebooting_device) CitadeldProxyClient (0, []) =
      Inr (True, 2, [get_stats [] r0, Clock t0, Call APP_ID_NUGGET NUGGET_PARAM_REBOOT [] APP_SUCCESS [],
         get_stats r0 r1, Clock t1])"
proof -
  have run: "RebootNugget (traced rebooting_device) CitadeldProxyClient (0, []) =
      Inr (True, 2, [get_stats [] [0], Clock 0, Call APP_ID_NUGGET NUGGET_PARAM_REBOOT [] APP_SUCCESS [],
         get_stats [0] [1], Clock 10000])"
    by (simp add: RebootNugget_def GrabStats_traced traced_ops rebooted_def max_usecs_of_def no_stats_def
        signed_divide_int_def)
  from RebootNugget_evidence [OF run] run show ?thesis by auto
qed

theorem WaitForSleep_evidence_witness:
  "\<exists>r0 r1. WaitForSleep (traced sleeping_device) CitadeldProxyClient (Some 0) (0, []) =
      Inr (True, Some 4, 2, [get_stats [] r0, Slept 4000000, get_stats r0 r1])"
proof -
  have run: "WaitForSleep (traced sleeping_device) CitadeldProxyClient (Some 0) (0, []) =
      Inr (True, Some 4, 2, [get_stats [] [0], Slept 4000000, get_stats [0] [1]])"
    by (simp add: WaitForSleep_def GrabStats_traced traced_ops slept_def no_stats_def wait_seconds_def)
  from WaitForSleep_evidence [OF run] run show ?thesis by auto
qed

theorem WipeUserData_evidence_witness:
  "\<exists>r0 r1. WipeUserData (traced (counting_device (\<lambda>b. no_stats))) CitadeldProxyClient (0, []) =
      Inr (True, 2, [get_stats [] r0,
         Call APP_ID_NUGGET NUGGET_PARAM_NUKE_FROM_ORBIT [0xA5, 0xE5, 0xE5, 0xF5] APP_SUCCESS [],
         get_stats [0xA5, 0xE5, 0xE5, 0xF5] r1])"
proof -
  have le: "le32 0xF5E5E5A5 = [0xA5, 0xE5, 0xE5, 0xF5]" by (simp add: le32_unfold)
  have run: "WipeUserData (traced (counting_device (\<lambda>b. no_stats))) CitadeldProxyClient (0, []) =
      Inr (True, 2, [get_stats [] [0],
         Call APP_ID_NUGGET NUGGET_PARAM_NUKE_FROM_ORBIT [0xA5, 0xE5, 0xE5, 0xF5] APP_SUCCESS [],
         get_stats [0xA5, 0xE5, 0xE5, 0xF5] [1]])"
    by (simp add: WipeUserData_def GrabStats_traced traced_ops le)
  from WipeUserData_evidence [OF run] run show ?thesis by (auto simp: le)
qed

theorem procedures_return_witness:
  "returns (RebootNugget rebooting_device CitadeldProxyClient 0) \<and>
   returns (WaitForSleep rebooting_device CitadeldProxyClient None 0) \<and>
   returns (WipeUserData rebooting_device CitadeldProxyClient 0)"
proof -
  have "stats_replies_full rebooting_device" by (simp add: stats_replies_full_def)
  from procedures_return [OF this] show ?thesis by simp
qed

theorem short_stats_reply_overreads_witness:
  "RebootNugget (rebooting_device\<lparr>stats_size := 64\<rparr>) CitadeldProxyClient 0 = Inl Out_of_bounds"
proof -
  let ?env = "rebooting_device\<lparr>stats_size := 64\<rparr>"
  have "call_app ?env CitadeldProxyClient APP_ID_NUGGET NUGGET_PARAM_GET_LOW_POWER_STATS []
          (Some (vec_reserve (stats_size ?env) vec_empty)) 0 = (APP_SUCCESS, \<lparr>vdata = [0], vcap = 1\<rparr>, 1)"
    by simp
  from short_stats_reply_overreads [OF this] show ?thesis by simp
qed

text \<open>On a device whose statistics never change, a reboot and a sleep are reported as failed; on one
  that counts a reset with every reply, a wipe.\<close>

theorem failures_reported_witness:
  "\<exists>w1 l1 w2 l2 w3 l3.
     RebootNugget (traced (counting_device (\<lambda>b. no_stats))) CitadeldProxyClient (0, []) = Inr (False, w1, l1) \<and>
     WaitForSleep (traced (counting_device (\<lambda>b. no_stats))) CitadeldProxyClient None (0, []) = Inr (False, None, w2, l2) \<and>
     WipeUserData (traced rebooting_device) CitadeldProxyClient (0, []) = Inr (False, w3, l3) \<and>
     length l1 = 24 \<and>
     (\<exists>r0 r1. l2 = [get_stats [] r0, Slept 4000000, get_stats r0 r1, Logged 194 (''Citadel didn't sleep'' @ [NL])] @
        shown ''stats before waiting'' (snapshot (counting_device (\<lambda>b. no_stats)) r0) @
        shown ''stats after waiting'' (snapshot (counting_device (\<lambda>b. no_stats)) r1))"
proof -
  let ?env = "traced (counting_device (\<lambda>b. no_stats))" and ?c = CitadeldProxyClient
  obtain w1 l1 where r: "RebootNugget ?env ?c (0, []) = Inr (False, w1, l1)" "length l1 = 24"
    by (simp add: RebootNugget_def GrabStats_traced traced_ops ShowStats_traced rebooted_def no_stats_def stats_lines_def)
  obtain w2 l2 where s: "WaitForSleep ?env ?c None (0, []) = Inr (False, None, w2, l2)" "length l2 = 22"
    by (simp add: WaitForSleep_def GrabStats_traced traced_ops ShowStats_traced slept_def no_stats_def stats_lines_def)
  obtain w3 l3 where u: "WipeUserData (traced rebooting_device) ?c (0, []) = Inr (False, w3, l3)"
    by (simp add: WipeUserData_def GrabStats_traced traced_ops no_stats_def)
  note all = failures_reported [OF r(1) s(1) u]
  from all [THEN conjunct2, THEN conjunct1] s(2) have "\<exists>r0 r1.
      l2 = [get_stats [] r0, Slept 4000000, get_stats r0 r1, Logged 194 (''Citadel didn't sleep'' @ [NL])] @
        shown ''stats before waiting'' (snapshot (counting_device (\<lambda>b. no_stats)) r0) @
        shown ''stats after waiting'' (snapshot (counting_device (\<lambda>b. no_stats)) r1)"
    by (elim exE disjE conjE) (simp, simp, (rule exI)+, assumption)
  with r s u show ?thesis by blast
qed

end
