(* ===== verification/Tty.thy ===== *)
theory Tty
  imports Console NuggetTools
begin

text \<open>
  The state of \<open>TestHarness\<close> (\<open>src/util.h\<close>) and its byte-level operations on the serial line
  (\<open>src/util.cc\<close>): \<open>BlockingWrite\<close>, \<open>ReadLineUntilBlock\<close>, \<open>ReadUntil\<close>,
  \<open>flushConsole\<close> and \<open>PrintUntilClosed\<close>.

  What the system calls and the clock do is given as scripts: the outcomes of the successive
  \<open>read(tty_fd, _, 1)\<close> calls, of the successive \<open>write\<close> calls, and the successive clock
  readings. An operation consumes what it uses; when a script ends first, the outcome is
  \<open>Waiting\<close>.
\<close>

subsection \<open>The serial line\<close>

text \<open>\<open>read\<close> gives one byte, or nothing with an \<open>errno\<close> (0 at end of input);
  \<open>write\<close> takes some bytes, or fails with an \<open>errno\<close>.\<close>

datatype tty_read = Got byte | Nothing int
datatype tty_write = Wrote nat | Failed int

record tty =
  rx :: "tty_read list"
  wr :: "tty_write list"
  clk :: "int list"
  tx :: "byte list"

text \<open>Linux error numbers that the code compares with; \<open>EWOULDBLOCK\<close> is \<open>EAGAIN\<close>.\<close>

abbreviation EBADF :: int where "EBADF \<equiv> 9"
abbreviation EAGAIN :: int where "EAGAIN \<equiv> 11"
abbreviation EWOULDBLOCK :: int where "EWOULDBLOCK \<equiv> 11"

text \<open>\<open>microseconds(10000 / 1152)\<close> and \<open>microseconds(80000 / 1152)\<close>.\<close>

definition BIT_TIME :: int where "BIT_TIME = 10000 div 1152"
definition BYTE_TIME :: int where "BYTE_TIME = 80000 div 1152"

text \<open>\<open>duration_cast<microseconds>(later - earlier)\<close> of two clock readings in nanoseconds.\<close>

definition elapsed_us :: "int \<Rightarrow> int \<Rightarrow> int" where
  "elapsed_us earlier later = (later - earlier) sdiv 1000"

subsection \<open>Messages and the harness\<close>

definition PROTO_BUFFER_MAX_LEN :: nat where
  "PROTO_BUFFER_MAX_LEN = 512"

text \<open>\<open>struct raw_message\<close>: \<open>mdata\<close> is the whole array, of \<open>PROTO_BUFFER_MAX_LEN - 2\<close>
  bytes, of which the first \<open>data_len\<close> are the payload.\<close>

record raw_message =
  mtype :: u16
  data_len :: u16
  mdata :: "byte list"

definition message_wf :: "raw_message \<Rightarrow> bool" where
  "message_wf m \<longleftrightarrow> length (mdata m) = PROTO_BUFFER_MAX_LEN - 2"

definition payload :: "raw_message \<Rightarrow> byte list" where
  "payload m = take (unat (data_len m)) (mdata m)"

text \<open>
  The build configuration and the command-line flags. Android builds define
  \<open>CONFIG_NO_UART\<close> and fix the two UART flags to false.
\<close>

record config =
  android :: bool
  no_uart :: bool
  use_ahdlc :: bool
  print_uart :: bool
  verbosity_flag :: string
  citadel_device :: "string option"

text \<open>\<open>struct termios\<close>, as far as \<open>Init\<close> touches it; \<open>speeds\<close> are the input and the output
  speed.\<close>

record termios =
  c_iflag :: u32
  c_oflag :: u32
  c_cflag :: u32
  c_lflag :: u32
  c_cc :: "byte list"
  speeds :: "u32 \<times> u32"

text \<open>
  \<open>TestHarness\<close>, with the standard output it writes, the world its client acts on, the flag
  \<open>nos_core_serial\<close> and the states of the aHDLC encoder and decoder (types of a library that is
  not in the repository). \<open>hclient\<close> is the \<open>unique_ptr\<close>, \<open>None\<close> when it is null;
  \<open>print_uart_worker\<close> tells whether the thread exists.
\<close>

record ('w, 'e, 'd) harness =
  verbosity :: int
  output_buffer :: vec
  input_buffer :: "byte list"
  tty_fd :: int
  tty_state :: termios
  print_uart_worker :: bool
  hclient :: "client option"
  encoder :: 'e
  decoder :: 'd
  tty :: tty
  cout :: string
  serial_flag :: string
  world :: 'w

definition ttyState :: "('w, 'e, 'd) harness \<Rightarrow> bool" where
  "ttyState h \<longleftrightarrow> tty_fd h \<noteq> -1"

definition getVerbosity :: "('w, 'e, 'd) harness \<Rightarrow> int" where
  "getVerbosity h = verbosity h"

definition setVerbosity :: "int \<Rightarrow> ('w, 'e, 'd) harness \<Rightarrow> int \<times> ('w, 'e, 'd) harness" where
  "setVerbosity v h = (verbosity h, h\<lparr>verbosity := v\<rparr>)"

text \<open>Text printed when the verbosity is at least \<open>level\<close>.\<close>

definition print_at :: "int \<Rightarrow> string \<Rightarrow> ('w, 'e, 'd) harness \<Rightarrow> ('w, 'e, 'd) harness" where
  "print_at level s h = (if level \<le> verbosity h then h\<lparr>cout := cout h @ s\<rparr> else h)"

lemma print_at_sel [simp]:
  "verbosity (print_at l s h) = verbosity h" "output_buffer (print_at l s h) = output_buffer h"
  "input_buffer (print_at l s h) = input_buffer h" "tty_fd (print_at l s h) = tty_fd h"
  "tty_state (print_at l s h) = tty_state h" "print_uart_worker (print_at l s h) = print_uart_worker h"
  "hclient (print_at l s h) = hclient h" "encoder (print_at l s h) = encoder h"
  "decoder (print_at l s h) = decoder h" "tty (print_at l s h) = tty h"
  "serial_flag (print_at l s h) = serial_flag h" "world (print_at l s h) = world h"
  by (simp_all add: print_at_def)

subsection \<open>\<open>BlockingWrite\<close>\<close>

text \<open>The loop, on the data from \<open>loc\<close> on: a short write advances, \<open>EAGAIN\<close> retries after a
  byte time, any other error is fatal.\<close>

fun write_loop :: "byte list \<Rightarrow> tty_write list \<Rightarrow> byte list \<Rightarrow> fault + (tty_write list \<times> byte list)" where
  "write_loop [] ws sent = Inr (ws, sent)"
| "write_loop (b # bs) [] sent = Inl Waiting"
| "write_loop (b # bs) (Failed e # ws) sent =
     (if e \<noteq> EWOULDBLOCK \<and> e \<noteq> EAGAIN then Inl (Exit_failure ''write(tty_fd,...)'')
      else write_loop (b # bs) ws sent)"
| "write_loop (b # bs) (Wrote n # ws) sent =
     write_loop (drop n (b # bs)) ws (sent @ take n (b # bs))"

definition BlockingWrite ::
  "byte list \<Rightarrow> nat \<Rightarrow> ('w, 'e, 'd) harness \<Rightarrow> fault + ('w, 'e, 'd) harness" where
  "BlockingWrite data len h =
     bind_res (read_prefix len data) (\<lambda>bs.
       let h = print_at INFO (log_buffer ''TX: '' bs) h; t = tty h in
       bind_res (write_loop bs (wr t) (tx t))
         (\<lambda>(ws, sent). Inr (h\<lparr>tty := t\<lparr>wr := ws, tx := sent\<rparr>\<rparr>)))"

text \<open>How many bytes a script of writes accepts, and whether it has a fatal error.\<close>

fun accepted :: "tty_write list \<Rightarrow> nat" where
  "accepted [] = 0"
| "accepted (Wrote n # ws) = n + accepted ws"
| "accepted (Failed e # ws) = accepted ws"

definition write_retries :: "tty_write list \<Rightarrow> bool" where
  "write_retries ws \<longleftrightarrow> (\<forall>e. Failed e \<in> set ws \<longrightarrow> e = EAGAIN)"

text \<open>A harness in a given state of its line, to evaluate operations on.\<close>

definition sample_harness :: "'e \<Rightarrow> 'd \<Rightarrow> tty \<Rightarrow> (unit, 'e, 'd) harness" where
  "sample_harness e d t =
     \<lparr>verbosity = SILENT, output_buffer = vec_empty, input_buffer = [], tty_fd = 3,
      tty_state = \<lparr>c_iflag = 0, c_oflag = 0, c_cflag = 0, c_lflag = 0, c_cc = [], speeds = (0, 0)\<rparr>,
      print_uart_worker = False, hclient = None, encoder = e, decoder = d, tty = t, cout = '''', serial_flag = '''', world = ()\<rparr>"

definition uart_config :: config where
  "uart_config = \<lparr>android = False, no_uart = False, use_ahdlc = True, print_uart = False,
     verbosity_flag = '''', citadel_device = None\<rparr>"

lemma write_loop_sent: "write_loop bs ws sent = Inr (ws', sent') \<Longrightarrow> sent' = sent @ bs"
  by (induction bs ws sent rule: write_loop.induct) (auto split: if_splits)

lemma write_loop_returns:
  "write_retries ws \<Longrightarrow> length bs \<le> accepted ws \<Longrightarrow> \<exists>ws'. write_loop bs ws sent = Inr (ws', sent @ bs)"
proof (induction bs ws sent rule: write_loop.induct)
  case (4 b bs n ws sent)
  have "write_retries ws" "length (drop n (b # bs)) \<le> accepted ws"
    using "4.prems" by (auto simp: write_retries_def)
  from "4.IH" [OF this] show ?case by auto
qed (auto simp: write_retries_def)

text \<open>C20: \<open>BlockingWrite\<close> puts exactly the given bytes on the line, once and in order, however
  the kernel splits the writes: whenever it returns, and it returns as soon as the kernel has
  accepted that many bytes and failed with \<open>EAGAIN\<close> at most.\<close>

theorem BlockingWrite_exact:
  assumes "write_retries (wr (tty h))" "length data \<le> accepted (wr (tty h))"
  shows "\<exists>h'. BlockingWrite data (length data) h = Inr h' \<and> tx (tty h') = tx (tty h) @ data \<and>
              rx (tty h') = rx (tty h)"
  using write_loop_returns [OF assms, of "tx (tty h)"]
  by (auto simp: BlockingWrite_def fault_simps Let_def)

theorem BlockingWrite_exact_witness:
  "\<exists>h'. BlockingWrite [1, 2, 3] 3
      (sample_harness () () \<lparr>rx = [], wr = [Wrote 1, Failed 11, Wrote 2], clk = [], tx = [9]\<rparr>) = Inr h' \<and>
     tx (tty h') = [9, 1, 2, 3] \<and> rx (tty h') = []"
proof -
  let ?h = "sample_harness () () \<lparr>rx = [], wr = [Wrote 1, Failed 11, Wrote 2], clk = [], tx = [9]\<rparr>"
  have "write_retries (wr (tty ?h))" "length [1, 2, 3 :: byte] \<le> accepted (wr (tty ?h))"
    by (simp_all add: write_retries_def sample_harness_def)
  from BlockingWrite_exact [OF this] show ?thesis by (simp add: numeral_eq_Suc sample_harness_def)
qed

lemma BlockingWrite_sent:
  "BlockingWrite data len h = Inr h' \<Longrightarrow>
   tx (tty h') = tx (tty h) @ take len data \<and> rx (tty h') = rx (tty h) \<and> clk (tty h') = clk (tty h) \<and>
   verbosity h' = verbosity h \<and> tty_fd h' = tty_fd h"
  by (auto simp: BlockingWrite_def Let_def read_prefix_def bind_res_Inr_iff split: if_splits
      dest: write_loop_sent)

subsection \<open>What a reader consumes\<close>

text \<open>The bytes among some read outcomes.\<close>

definition got :: "tty_read list \<Rightarrow> byte list" where
  "got rs = concat (map (\<lambda>r. case r of Got b \<Rightarrow> [b] | Nothing e \<Rightarrow> []) rs)"

lemma got_simps [simp]:
  "got [] = []" "got (Got b # rs) = b # got rs" "got (Nothing e # rs) = got rs"
  "got (rs @ ss) = got rs @ got ss" "got (map Got bs) = bs"
  by (auto simp: got_def comp_def)

text \<open>From the outcomes \<open>rs\<close> a reader used some prefix, which held the bytes \<open>bs\<close>, and left
  \<open>rs'\<close>.\<close>

definition consumes :: "tty_read list \<Rightarrow> byte list \<Rightarrow> tty_read list \<Rightarrow> bool" where
  "consumes rs bs rs' \<longleftrightarrow> (\<exists>used. rs = used @ rs' \<and> got used = bs)"

lemma consumes_refl [intro]: "consumes rs [] rs"
  by (auto simp: consumes_def)

lemma consumes_Got [intro]: "consumes rs bs rs' \<Longrightarrow> consumes (Got b # rs) (b # bs) rs'"
  unfolding consumes_def by (metis append_Cons got_simps(2))

lemma consumes_Nothing [intro]: "consumes rs bs rs' \<Longrightarrow> consumes (Nothing e # rs) bs rs'"
  unfolding consumes_def by (metis append_Cons got_simps(3))

lemma consumes_trans: "consumes rs bs rs' \<Longrightarrow> consumes rs' bs' rs'' \<Longrightarrow> consumes rs (bs @ bs') rs''"
  by (auto simp: consumes_def)

lemma consumes_got: "consumes rs bs rs' \<Longrightarrow> got rs = bs @ got rs'"
  by (auto simp: consumes_def)

lemma consumes_length: "consumes rs bs rs' \<Longrightarrow> length bs + length rs' \<le> length rs"
proof -
  have "length (got used) \<le> length used" for used
    by (induction used) (auto simp: got_def split: tty_read.splits)
  then show "consumes rs bs rs' \<Longrightarrow> length bs + length rs' \<le> length rs"
    by (auto simp: consumes_def)
qed

subsection \<open>\<open>ReadLineUntilBlock\<close> and \<open>flushConsole\<close>\<close>

text \<open>
  \<open>prev\<close> is the clock reading of \<open>last_success\<close>. A byte that is read is followed by a clock
  reading and ends the line when it is a newline; when nothing could be read, an empty line is
  returned at once, and any other line when more than four byte times have passed since the last
  byte (the clock is read for that test only).
\<close>

fun line_loop ::
  "int \<Rightarrow> byte list \<Rightarrow> tty_read list \<Rightarrow> int list \<Rightarrow> fault + (byte list \<times> tty_read list \<times> int list)" where
  "line_loop prev line [] ts = Inl Waiting"
| "line_loop prev line (Got b # rs) [] = Inl Waiting"
| "line_loop prev line (Got b # rs) (t # ts) =
     (if b = 10 then Inr (line @ [b], rs, ts) else line_loop t (line @ [b]) rs ts)"
| "line_loop prev line (Nothing e # rs) ts =
     (if line = [] then Inr (line, rs, ts)
      else (case ts of
        [] \<Rightarrow> Inl Waiting
      | t # ts' \<Rightarrow>
          if elapsed_us prev t > 4 * BYTE_TIME then Inr (line, rs, ts')
          else line_loop prev line rs ts'))"

definition ReadLineUntilBlock ::
  "('w, 'e, 'd) harness \<Rightarrow> fault + (byte list \<times> ('w, 'e, 'd) harness)" where
  "ReadLineUntilBlock h =
     (if \<not> ttyState h then Inr ([], h)
      else (let t = tty h in
        case clk t of
          [] \<Rightarrow> Inl Waiting
        | now # ts \<Rightarrow>
            bind_res (line_loop now [] (rx t) ts) (\<lambda>(line, rs, ts).
              let h = h\<lparr>tty := t\<lparr>rx := rs, clk := ts\<rparr>\<rparr> in
              Inr (line, if line \<noteq> [] then print_at INFO (''RX: '' @ concat (map print_bin line) @ [NL]) h
                         else h))))"

lemma line_loop_consumes:
  "line_loop prev line rs ts = Inr (line', rs', ts') \<Longrightarrow> \<exists>bs. line' = line @ bs \<and> consumes rs bs rs'"
  by (induction prev line rs ts rule: line_loop.induct)
    (fastforce split: if_splits list.splits)+

lemma line_loop_newline:
  "line_loop prev line rs ts = Inr (line', rs', ts') \<Longrightarrow> 10 \<notin> set line \<Longrightarrow> 10 \<notin> set (butlast line')"
  by (induction prev line rs ts rule: line_loop.induct)
    (auto split: if_splits list.splits dest: in_set_butlastD)

lemma line_loop_whole_line:
  "10 \<notin> set xs \<Longrightarrow> length xs < length ts \<Longrightarrow>
   line_loop prev line (map Got (xs @ [10]) @ rs) ts = Inr (line @ xs @ [10], rs, drop (Suc (length xs)) ts)"
proof (induction xs arbitrary: prev line ts)
  case Nil
  then show ?case by (cases ts) auto
next
  case (Cons x xs)
  then show ?case by (cases ts) auto
qed

text \<open>A complete line is returned at once and whole: when the wire holds the bytes of a line
  and its newline, \<open>ReadLineUntilBlock\<close> returns them, leaves everything after the newline
  unread, and writes nothing.\<close>

theorem ReadLineUntilBlock_line:
  assumes "ttyState h" "rx (tty h) = map Got (xs @ [10]) @ rs" "10 \<notin> set xs"
    and "length xs + 2 \<le> length (clk (tty h))"
  shows "\<exists>h'. ReadLineUntilBlock h = Inr (xs @ [10], h') \<and> rx (tty h') = rs \<and> tx (tty h') = tx (tty h)"
proof -
  obtain now ts where clk: "clk (tty h) = now # ts" using assms(4) by (cases "clk (tty h)") auto
  with assms(4) have "length xs < length ts" by simp
  note line = line_loop_whole_line [OF assms(3) this, of now "[]" rs]
  show ?thesis using assms(1,2) clk line by (simp add: ReadLineUntilBlock_def Let_def)
qed

theorem ReadLineUntilBlock_line_witness:
  "\<exists>h'. ReadLineUntilBlock
      (sample_harness () () \<lparr>rx = map Got [62, 10] @ [Got 65], wr = [], clk = [0, 5, 9], tx = []\<rparr>) =
      Inr ([62, 10], h') \<and> rx (tty h') = [Got 65] \<and> tx (tty h') = []"
  using ReadLineUntilBlock_line [of
      "sample_harness () () \<lparr>rx = map Got [62, 10] @ [Got 65], wr = [], clk = [0, 5, 9], tx = []\<rparr>"
      "[62]" "[Got 65]"]
  by (simp add: sample_harness_def ttyState_def)

lemma ReadLineUntilBlock_reads:
  assumes "ReadLineUntilBlock h = Inr (line, h')"
  shows "consumes (rx (tty h)) line (rx (tty h')) \<and> 10 \<notin> set (butlast line) \<and> tx (tty h') = tx (tty h)"
  using assms
  by (auto simp: ReadLineUntilBlock_def Let_def bind_res_Inr_iff split: if_splits list.splits
      dest: line_loop_consumes line_loop_newline)

lemma ReadLineUntilBlock_frame:
  "ReadLineUntilBlock h = Inr (line, h') \<Longrightarrow>
   verbosity h' = verbosity h \<and> tty_fd h' = tty_fd h \<and> wr (tty h') = wr (tty h) \<and>
   tx (tty h') = tx (tty h)"
  by (auto simp: ReadLineUntilBlock_def Let_def bind_res_Inr_iff split: if_splits list.splits)

lemma ReadLineUntilBlock_shrinks:
  "ReadLineUntilBlock h = Inr (line, h') \<Longrightarrow> line \<noteq> [] \<Longrightarrow> length (rx (tty h')) < length (rx (tty h))"
  using ReadLineUntilBlock_reads [of h line h'] consumes_length [of "rx (tty h)" line "rx (tty h')"]
  by (cases line) auto

function flush_loop :: "('w, 'e, 'd) harness \<Rightarrow> fault + ('w, 'e, 'd) harness" where
  "flush_loop h =
     (case ReadLineUntilBlock h of
        Inl e \<Rightarrow> Inl e
      | Inr (line, h') \<Rightarrow> if line = [] then Inr h' else flush_loop h')"
  by pat_completeness auto
termination
  by (relation "measure (\<lambda>h. length (rx (tty h)))") (auto dest: ReadLineUntilBlock_shrinks)

declare flush_loop.simps [simp del]

definition flushConsole :: "config \<Rightarrow> ('w, 'e, 'd) harness \<Rightarrow> fault + ('w, 'e, 'd) harness" where
  "flushConsole cfg h = (if no_uart cfg then Inr h else flush_loop h)"

text \<open>Flushing consumes input only, and stops where a read finds nothing.\<close>

lemma flush_loop_consumes:
  "flush_loop h = Inr h' \<Longrightarrow>
   (\<exists>bs. consumes (rx (tty h)) bs (rx (tty h'))) \<and> tx (tty h') = tx (tty h) \<and> tty_fd h' = tty_fd h"
proof (induction h rule: flush_loop.induct)
  case (1 h)
  from "1.prems" obtain line h1 where
    line: "ReadLineUntilBlock h = Inr (line, h1)" and
    rest: "(if line = [] then Inr h1 else flush_loop h1) = Inr h'"
    by (auto simp: flush_loop.simps [of h] split: sum.splits)
  from ReadLineUntilBlock_reads [OF line] ReadLineUntilBlock_frame [OF line]
  have first: "consumes (rx (tty h)) line (rx (tty h1))" "tx (tty h1) = tx (tty h)" "tty_fd h1 = tty_fd h"
    by auto
  show ?case
  proof (cases "line = []")
    case True
    with rest first show ?thesis by auto
  next
    case False
    with rest "1.IH" [OF line refl] first show ?thesis by (auto intro: consumes_trans)
  qed
qed

subsection \<open>\<open>ReadUntil\<close>\<close>

text \<open>The inner loop: read until nothing is there, with the \<open>errno\<close> of the last attempt.\<close>

fun drain :: "tty_read list \<Rightarrow> (byte list \<times> int \<times> tty_read list) option" where
  "drain [] = None"
| "drain (Got b # rs) = map_option (\<lambda>(bs, e, rs'). (b # bs, e, rs')) (drain rs)"
| "drain (Nothing e # rs) = Some ([], e, rs)"

lemma drain_consumes: "drain rs = Some (bs, e, rs') \<Longrightarrow> consumes rs bs rs'"
  by (induction rs arbitrary: bs rule: drain.induct) (auto simp: consumes_refl)

lemma drain_Got: "drain (map Got bs @ Nothing e # rs) = Some (bs, e, rs)"
  by (induction bs) auto

fun until_loop ::
  "int \<Rightarrow> int \<Rightarrow> byte list \<Rightarrow> tty_read list \<Rightarrow> int list \<Rightarrow>
   fault + (byte list \<times> tty_read list \<times> int list)" where
  "until_loop limit start acc rs [] = Inl Waiting"
| "until_loop limit start acc rs (t # ts) =
     (if elapsed_us start t < limit
      then (case drain rs of
          None \<Rightarrow> Inl Waiting
        | Some (bs, e, rs') \<Rightarrow> until_loop limit start (acc @ bs) rs' ts)
      else Inr (acc, rs, ts))"

text \<open>What is printed: the first byte follows \<open>RX: \<close> whatever it is, a later newline starts a
  line of its own.\<close>

definition read_until_log :: "byte list \<Rightarrow> string" where
  "read_until_log bs = (case bs of
     [] \<Rightarrow> []
   | b # bs \<Rightarrow> ''RX: '' @ print_bin b @ concat (map (log_byte ''RX: '') bs) @ [NL])"

definition ReadUntil ::
  "config \<Rightarrow> int \<Rightarrow> ('w, 'e, 'd) harness \<Rightarrow> fault + (byte list \<times> ('w, 'e, 'd) harness)" where
  "ReadUntil cfg limit h =
     (if no_uart cfg \<or> \<not> ttyState h then Inr ([], h)
      else (let t = tty h in
        case clk t of
          [] \<Rightarrow> Inl Waiting
        | start # ts \<Rightarrow>
            bind_res (until_loop limit start [] (rx t) ts) (\<lambda>(bs, rs, ts).
              Inr (bs, print_at INFO (read_until_log bs) (h\<lparr>tty := t\<lparr>rx := rs, clk := ts\<rparr>\<rparr>)))))"

lemma until_loop_step:
  assumes "until_loop limit start acc rs (t # ts) = Inr r" "elapsed_us start t < limit"
  obtains bs e rs' where "drain rs = Some (bs, e, rs')" "until_loop limit start (acc @ bs) rs' ts = Inr r"
  using assms by (auto split: option.splits)

lemma until_loop_consumes:
  "until_loop limit start acc rs ts = Inr (acc', rs', ts') \<Longrightarrow> \<exists>bs. acc' = acc @ bs \<and> consumes rs bs rs'"
proof (induction ts arbitrary: acc rs)
  case (Cons t ts)
  show ?case
  proof (cases "elapsed_us start t < limit")
    case True
    from until_loop_step [OF Cons.prems True] obtain bs e rs1 where
      d: "drain rs = Some (bs, e, rs1)" and r: "until_loop limit start (acc @ bs) rs1 ts = Inr (acc', rs', ts')" .
    from Cons.IH [OF r] obtain bs' where "acc' = (acc @ bs) @ bs'" "consumes rs1 bs' rs'" by blast
    with drain_consumes [OF d] show ?thesis by (auto intro: consumes_trans)
  next
    case False
    with Cons.prems show ?thesis by auto
  qed
qed simp

lemma until_loop_clock:
  "until_loop limit start acc rs ts = Inr (acc', rs', ts') \<Longrightarrow>
   \<exists>early t. ts = early @ t # ts' \<and> limit \<le> elapsed_us start t \<and> (\<forall>t \<in> set early. elapsed_us start t < limit)"
proof (induction ts arbitrary: acc rs)
  case (Cons t ts)
  show ?case
  proof (cases "elapsed_us start t < limit")
    case True
    from until_loop_step [OF Cons.prems True] obtain bs e rs1 where
      r: "until_loop limit start (acc @ bs) rs1 ts = Inr (acc', rs', ts')" .
    from Cons.IH [OF r] obtain early t' where
      "ts = early @ t' # ts'" "limit \<le> elapsed_us start t'" "\<forall>t \<in> set early. elapsed_us start t < limit"
      by blast
    with True have "t # ts = (t # early) @ t' # ts' \<and> limit \<le> elapsed_us start t' \<and>
        (\<forall>t \<in> set (t # early). elapsed_us start t < limit)" by simp
    then show ?thesis by blast
  next
    case False
    with Cons.prems have "t # ts = [] @ t # ts' \<and> limit \<le> elapsed_us start t \<and>
        (\<forall>t \<in> set []. elapsed_us start t < limit)" by simp
    then show ?thesis by blast
  qed
qed simp

lemma ReadUntil_frame:
  "ReadUntil cfg limit h = Inr (bs, h') \<Longrightarrow>
   (\<exists>bs'. consumes (rx (tty h)) bs' (rx (tty h'))) \<and> tx (tty h') = tx (tty h) \<and> wr (tty h') = wr (tty h) \<and>
   tty_fd h' = tty_fd h \<and> verbosity h' = verbosity h"
  by (auto simp: ReadUntil_def Let_def bind_res_Inr_iff split: if_splits list.splits
      dest!: until_loop_consumes)

text \<open>On an open line \<open>ReadUntil\<close> returns every byte it consumed, in order and untouched, and it
  returns at the first check of the clock at which the given time has passed.\<close>

theorem ReadUntil_complete:
  assumes "\<not> no_uart cfg" "ttyState h" "ReadUntil cfg limit h = Inr (bs, h')"
  shows "consumes (rx (tty h)) bs (rx (tty h')) \<and>
    (\<exists>start early t. clk (tty h) = start # early @ t # clk (tty h') \<and>
       limit \<le> elapsed_us start t \<and> (\<forall>u \<in> set early. elapsed_us start u < limit))"
proof -
  from assms obtain start ts where clk: "clk (tty h) = start # ts"
    and loop: "until_loop limit start [] (rx (tty h)) ts = Inr (bs, rx (tty h'), clk (tty h'))"
    by (auto simp: ReadUntil_def Let_def bind_res_Inr_iff split: list.splits)
  from until_loop_consumes [OF loop] until_loop_clock [OF loop] clk show ?thesis by auto
qed

theorem ReadUntil_complete_witness:
  "consumes [Got 65, Nothing 11, Got 66, Nothing 11] [65, 66] [] \<and>
   (\<exists>start early t. [0, 1000, 2000, 70000] = start # early @ t # [] \<and> BYTE_TIME \<le> elapsed_us start t)"
proof -
  let ?t = "\<lparr>rx = [Got 65, Nothing 11, Got 66, Nothing 11], wr = [], clk = [0, 1000, 2000, 70000], tx = []\<rparr>"
  let ?cfg = uart_config
  let ?h = "sample_harness () () ?t"
  have "ReadUntil ?cfg BYTE_TIME ?h = Inr ([65, 66], sample_harness () () (?t\<lparr>rx := [], clk := []\<rparr>))"
    by (simp add: ReadUntil_def uart_config_def ttyState_def sample_harness_def print_at_def elapsed_us_def BYTE_TIME_def
        signed_divide_int_def)
  from ReadUntil_complete [OF _ _ this] show ?thesis by (auto simp: sample_harness_def ttyState_def uart_config_def)
qed

subsection \<open>\<open>PrintUntilClosed\<close> and its worker thread\<close>

text \<open>
  The worker runs while the destructor, on another thread, may close the line at any moment:
  \<open>alive\<close> is the script of the successive values of \<open>ttyState()\<close>. A carriage return is
  dropped, a newline prints the line so far and starts the next one with its prefix, any other
  byte goes through \<open>print_bin\<close>. The state is the string stream and the text printed.
\<close>

definition uart_byte :: "byte \<Rightarrow> sstream \<times> string \<Rightarrow> sstream \<times> string" where
  "uart_byte b s = (case s of (ss, out) \<Rightarrow>
     if b = 13 then (ss, out)
     else if b = 10 then
       (let ss = ss_write [NL] ss in (ss_write ''UART: '' (ss_new []), out @ ss_str ss))
     else (ss_write (print_bin b) ss, out))"

fun uart_loop ::
  "int \<Rightarrow> bool list \<Rightarrow> tty_read list \<Rightarrow> bool \<Rightarrow> sstream \<times> string \<Rightarrow>
   fault + (bool \<times> (sstream \<times> string) \<times> bool list \<times> tty_read list)" where
  "uart_loop v [] rs first s = Inl Waiting"
| "uart_loop v (False # alive) rs first s = Inr (first, s, alive, rs)"
| "uart_loop v (True # alive) rs first s =
     (case drain rs of
        None \<Rightarrow> Inl Waiting
      | Some (bs, e, rs') \<Rightarrow>
          (let s = fold uart_byte bs s; first = (first \<and> bs = []) in
           if CRITICAL \<le> v \<and> e \<noteq> 0 \<and> e \<noteq> EAGAIN then Inr (first, s, alive, rs')
           else uart_loop v alive rs' first s))"

definition PrintUntilClosed ::
  "int \<Rightarrow> bool list \<Rightarrow> tty_read list \<Rightarrow> fault + (string \<times> bool list \<times> tty_read list)" where
  "PrintUntilClosed v alive rs =
     (case alive of
        [] \<Rightarrow> Inl Waiting
      | False # alive \<Rightarrow> Inr ([], alive, rs)
      | True # alive \<Rightarrow>
          bind_res (uart_loop v alive rs True (ss_new ''UART: '', [])) (\<lambda>(first, (ss, out), alive, rs).
            Inr (if first then out else out @ ss_str (ss_write [NL] ss), alive, rs)))"

lemma uart_loop_alive:
  "uart_loop v alive rs first s = Inr (first', s', alive', rs') \<Longrightarrow> length alive' < length alive"
proof (induction v alive rs first s rule: uart_loop.induct)
  case (3 v alive rs first s)
  then show ?case by (fastforce split: option.splits if_splits simp: Let_def)
qed auto

lemma PrintUntilClosed_alive:
  "PrintUntilClosed v alive rs = Inr (out, alive', rs') \<Longrightarrow> length alive' < length alive"
  by (auto simp: PrintUntilClosed_def bind_res_Inr_iff split: list.splits bool.splits
      dest!: uart_loop_alive)

text \<open>The body of the worker thread that \<open>Init\<close> starts.\<close>

function uart_worker ::
  "int \<Rightarrow> bool list \<Rightarrow> tty_read list \<Rightarrow> string \<Rightarrow> fault + (string \<times> bool list \<times> tty_read list)" where
  "uart_worker v alive rs out =
     (case alive of
        [] \<Rightarrow> Inl Waiting
      | False # alive \<Rightarrow>
          Inr (out @ (if INFO \<le> v then ''Citadel UART printing disabled!'' @ [NL] else []), alive, rs)
      | True # alive \<Rightarrow>
          (case PrintUntilClosed v alive rs of
             Inl e \<Rightarrow> Inl e
           | Inr (s, alive, rs) \<Rightarrow> uart_worker v alive rs (out @ s)))"
  by pat_completeness auto
termination
  by (relation "measure (\<lambda>(v, alive, rs, out). length alive)") (auto dest!: PrintUntilClosed_alive)

declare uart_worker.simps [simp del]

text \<open>The text of a line: its bytes other than carriage returns, printed.\<close>

definition uart_text :: "byte list \<Rightarrow> string" where
  "uart_text bs = concat (map print_bin (filter (\<lambda>b. b \<noteq> 13) bs))"

lemma uart_text_simps [simp]:
  "uart_text [] = []"
  "uart_text (b # bs) = (if b = 13 then uart_text bs else print_bin b @ uart_text bs)"
  by (simp_all add: uart_text_def)

lemma uart_line:
  assumes "sput ss \<le> length (sbuf ss)" "10 \<notin> set bs"
  shows "fold uart_byte bs (ss, out) = (if uart_text bs = [] then (ss, out) else (ss_write (uart_text bs) ss, out))"
  using assms
proof (induction bs arbitrary: ss)
  case Nil
  then show ?case by simp
next
  case (Cons b bs)
  have sp: "sput (ss_write s ss) \<le> length (sbuf (ss_write s ss))" for s
    using Cons.prems(1) by (simp add: ss_write_def)
  have ne: "print_bin b \<noteq> []" by (rule printed.enc_nonempty) simp
  show ?case
    using Cons.prems Cons.IH [of ss] Cons.IH [of "ss_write (print_bin b) ss", OF sp] ne
    by (auto simp: uart_byte_def ss_write_write)
qed

lemma uart_ended_line:
  assumes "sput ss \<le> length (sbuf ss)" "10 \<notin> set bs"
  shows "fold uart_byte (bs @ [10]) (ss, out) =
    (ss_write ''UART: '' (ss_new []), out @ ss_str (ss_write (uart_text bs @ [NL]) ss))"
  using uart_line [OF assms, of out] assms
  by (auto simp: uart_byte_def ss_write_write)

lemma uart_prefixed_line:
  assumes "10 \<notin> set bs"
  shows "fold uart_byte (bs @ [10]) (ss_write ''UART: '' (ss_new []), out) =
    (ss_write ''UART: '' (ss_new []), out @ ''UART: '' @ uart_text bs @ [NL])"
  using uart_ended_line [of "ss_write ''UART: '' (ss_new [])" bs out] assms
  by (simp add: ss_write_def ss_new_def ss_str_def)

lemma uart_prefixed_lines:
  assumes "\<forall>l \<in> set ls. 10 \<notin> set l"
  shows "fold uart_byte (concat (map (\<lambda>l. l @ [10]) ls)) (ss_write ''UART: '' (ss_new []), out) =
    (ss_write ''UART: '' (ss_new []), out @ concat (map (\<lambda>l. ''UART: '' @ uart_text l @ [NL]) ls))"
  using assms
proof (induction ls arbitrary: out)
  case (Cons l ls)
  then have "10 \<notin> set l" by simp
  note line = uart_prefixed_line [OF this, of out]
  have "fold uart_byte (concat (map (\<lambda>l. l @ [10]) (l # ls))) (ss_write ''UART: '' (ss_new []), out) =
    fold uart_byte (concat (map (\<lambda>l. l @ [10]) ls))
      (fold uart_byte (l @ [10]) (ss_write ''UART: '' (ss_new []), out))" by simp
  also have "\<dots> = fold uart_byte (concat (map (\<lambda>l. l @ [10]) ls))
      (ss_write ''UART: '' (ss_new []), out @ ''UART: '' @ uart_text l @ [NL])" by (simp only: line)
  finally show ?case using Cons by simp
qed simp

text \<open>C21: the printer puts the prefix in front of every line but the first: the stream is
  constructed from the prefix with its put position at the beginning, so the first line overwrites
  it, and what is left of the prefix follows the first line instead of preceding it.\<close>

theorem PrintUntilClosed_first_line:
  assumes "10 \<notin> set l0" "\<forall>l \<in> set ls. 10 \<notin> set l"
  shows "PrintUntilClosed v [True, True, False]
      (map Got (concat (map (\<lambda>l. l @ [10]) (l0 # ls))) @ [Nothing EAGAIN]) =
    Inr (uart_text l0 @ [NL] @ drop (Suc (length (uart_text l0))) ''UART: '' @
         concat (map (\<lambda>l. ''UART: '' @ uart_text l @ [NL]) ls) @ ''UART: '' @ [NL], [], [])"
proof -
  let ?bs = "concat (map (\<lambda>l. l @ [10]) (l0 # ls))"
  have "fold uart_byte ?bs (ss_new ''UART: '', []) =
    fold uart_byte (concat (map (\<lambda>l. l @ [10]) ls)) (fold uart_byte (l0 @ [10]) (ss_new ''UART: '', []))"
    by simp
  also have "fold uart_byte (l0 @ [10]) (ss_new ''UART: '', []) =
    (ss_write ''UART: '' (ss_new []), uart_text l0 @ [NL] @ drop (Suc (length (uart_text l0))) ''UART: '')"
    using uart_ended_line [of "ss_new ''UART: ''" l0 "[]"] assms(1)
    by (simp add: ss_new_def) (simp add: ss_write_def ss_str_def)
  also note uart_prefixed_lines [OF assms(2)]
  finally have bytes: "fold uart_byte ?bs (ss_new ''UART: '', []) =
    (ss_write ''UART: '' (ss_new []), (uart_text l0 @ [NL] @ drop (Suc (length (uart_text l0))) ''UART: '') @
     concat (map (\<lambda>l. ''UART: '' @ uart_text l @ [NL]) ls))" .
  have "drain (map Got ?bs @ [Nothing EAGAIN]) = Some (?bs, EAGAIN, [])"
    using drain_Got [of ?bs EAGAIN "[]"] by simp
  then have "uart_loop v [True, False] (map Got ?bs @ [Nothing EAGAIN]) True (ss_new ''UART: '', []) =
    Inr (False, fold uart_byte ?bs (ss_new ''UART: '', []), [], [])"
    by (simp add: Let_def del: map_append concat.simps list.map)
  with bytes show ?thesis
    by (simp add: PrintUntilClosed_def ss_write_def ss_new_def ss_str_def
        del: concat.simps list.map map_append)
qed

theorem PrintUntilClosed_first_line_witness:
  "PrintUntilClosed 0 [True, True, False]
      (map Got (concat (map (\<lambda>l. l @ [10]) [bytes_of ''hi'', bytes_of ''ok'']) ) @ [Nothing EAGAIN]) =
    Inr (''hi'' @ [NL] @ ''T: '' @ ''UART: ok'' @ [NL] @ ''UART: '' @ [NL], [], [])"
proof -
  have nl: "10 \<notin> set (bytes_of ''hi'')" "\<forall>l \<in> set [bytes_of ''ok'']. 10 \<notin> set l"
    by (simp_all add: bytes_of_def ord_def)
  have "uart_text (bytes_of ''hi'') = ''hi''" "uart_text (bytes_of ''ok'') = ''ok''"
    by (simp_all add: bytes_of_def ord_def print_bin_def isprint_def chr_def char_of_eq_iff)
  with PrintUntilClosed_first_line [OF nl, of 0] show ?thesis by simp
qed

end
