(* ===== verification/Transport.thy ===== *)
theory Transport
  imports Tty
begin

text \<open>
  The interface of a message transport: an operation that sends a \<open>raw_message\<close> and one that
  fills a \<open>raw_message\<close> with what was received. The tests are written against it alone
  (\<open>SendData\<close> and \<open>GetData\<close> of \<open>src/util.h\<close>), and it has two implementations, SPI and aHDLC.
\<close>

text \<open>A message whose length field stays within its array: sending any other one reads past the
  array's end.\<close>

definition sendable :: "raw_message \<Rightarrow> bool" where
  "sendable m \<longleftrightarrow> message_wf m \<and> unat (data_len m) \<le> PROTO_BUFFER_MAX_LEN - 2"

lemma sendable_wf: "sendable m \<Longrightarrow> message_wf m"
  by (simp add: sendable_def)

lemma length_payload: "sendable m \<Longrightarrow> length (payload m) = unat (data_len m)"
  by (simp add: sendable_def message_wf_def payload_def)

text \<open>The message with a given type and payload, its array zero-filled.\<close>

definition message_of :: "u16 \<Rightarrow> byte list \<Rightarrow> raw_message" where
  "message_of t bs =
     \<lparr>mtype = t, data_len = of_nat (length bs), mdata = bs @ replicate (PROTO_BUFFER_MAX_LEN - 2 - length bs) 0\<rparr>"

lemma unat_of_nat_u16: "n \<le> PROTO_BUFFER_MAX_LEN - 2 \<Longrightarrow> unat (of_nat n :: u16) = n"
  by (simp add: PROTO_BUFFER_MAX_LEN_def unat_of_nat)

lemma message_of_simps:
  assumes "length bs \<le> PROTO_BUFFER_MAX_LEN - 2"
  shows "sendable (message_of t bs)" "payload (message_of t bs) = bs" "mtype (message_of t bs) = t"
  using assms by (simp_all add: sendable_def message_wf_def message_of_def payload_def unat_of_nat_u16)

text \<open>What a transport makes of a message variable when it receives \<open>p\<close> with type \<open>t\<close>.\<close>

lemma received_sendable:
  assumes "length p \<le> PROTO_BUFFER_MAX_LEN - 2" "message_wf m"
  shows "sendable \<lparr>mtype = t, data_len = of_nat (length p), mdata = p @ drop (length p) (mdata m)\<rparr>"
    "payload \<lparr>mtype = t, data_len = of_nat (length p), mdata = p @ drop (length p) (mdata m)\<rparr> = p"
  using assms by (simp_all add: sendable_def message_wf_def payload_def unat_of_nat_u16)

text \<open>Every buffer of two bytes or more is the wire form of some type and payload.\<close>

lemma wire_form:
  assumes "2 \<le> length bs"
  obtains t p where "bs = be16 t @ p"
proof -
  obtain hi lo p where bs: "bs = hi # lo # p" using assms by (cases bs; cases "tl bs") auto
  have "\<not> bit lo (8 + n)" for n
    using bit_imp_le_length [of lo "8 + n"] by auto
  then have "be16 (be16_of hi lo) = [hi, lo]"
    unfolding be16_def be16_of_def by (auto intro!: bit_word_eqI simp: bit_simps)
  with bs that [of "be16_of hi lo" p] show thesis by simp
qed

text \<open>What a client of a transport does, with one message variable that it receives into:
  send a message of its own, receive, or send back what it has received.\<close>

datatype exchange = Send raw_message | Get | Send_back

text \<open>The outcome is the codes in order, the message variable and the state.\<close>

fun exchanges ::
  "(raw_message \<Rightarrow> 's \<Rightarrow> fault + (int \<times> 's)) \<Rightarrow> (raw_message \<Rightarrow> 's \<Rightarrow> fault + (int \<times> raw_message \<times> 's)) \<Rightarrow>
   exchange list \<Rightarrow> raw_message \<Rightarrow> 's \<Rightarrow> fault + (int list \<times> raw_message \<times> 's)" where
  "exchanges send get [] m s = Inr ([], m, s)"
| "exchanges send get (Send x # xs) m s =
     bind_res (send x s) (\<lambda>(e, s). bind_res (exchanges send get xs m s) (\<lambda>(es, r). Inr (e # es, r)))"
| "exchanges send get (Get # xs) m s =
     bind_res (get m s) (\<lambda>(e, m, s). bind_res (exchanges send get xs m s) (\<lambda>(es, r). Inr (e # es, r)))"
| "exchanges send get (Send_back # xs) m s =
     bind_res (send m s) (\<lambda>(e, s). bind_res (exchanges send get xs m s) (\<lambda>(es, r). Inr (e # es, r)))"

fun sends_sendable :: "exchange \<Rightarrow> bool" where
  "sends_sendable (Send m) = sendable m"
| "sends_sendable _ = True"

locale transport =
  fixes send :: "raw_message \<Rightarrow> 's \<Rightarrow> fault + (int \<times> 's)"
    and get :: "raw_message \<Rightarrow> 's \<Rightarrow> fault + (int \<times> raw_message \<times> 's)"
    and inv :: "'s \<Rightarrow> bool"
  assumes send_safe: "inv s \<Longrightarrow> sendable m \<Longrightarrow> safe (\<lambda>(e, s'). inv s') (send m s)"
    and get_safe: "inv s \<Longrightarrow> message_wf m \<Longrightarrow>
      safe (\<lambda>(e, m', s'). inv s' \<and> (sendable m' \<or> m' = m)) (get m s)"
begin

lemma exchanges_safe:
  "inv s \<Longrightarrow> sendable m \<Longrightarrow> list_all sends_sendable xs \<Longrightarrow>
   safe (\<lambda>(es, m', s'). inv s' \<and> sendable m' \<and> length es = length xs) (exchanges send get xs m s)"
proof (induction xs arbitrary: m s)
  case Nil
  then show ?case by simp
next
  case (Cons x xs)
  then have xs: "list_all sends_sendable xs" by simp
  let ?P = "\<lambda>(es, m', s'). inv s' \<and> sendable m' \<and> length es = length (x # xs)"
  have rest: "safe ?P (bind_res (exchanges send get xs m s) (\<lambda>(es, r). Inr (e # es, r)))"
    if "inv s" "sendable m" for e m s
    by (rule safe_bind [OF Cons.IH [OF that xs]]) auto
  show ?case
  proof (cases x)
    case (Send y)
    with Cons.prems have "sendable y" by simp
    then show ?thesis unfolding Send exchanges.simps
      by (rule safe_bind [OF send_safe [OF Cons.prems(1)]]) (use rest Cons.prems in auto)
  next
    case Get
    then show ?thesis unfolding Get exchanges.simps
      by (intro safe_bind [OF get_safe [OF Cons.prems(1) sendable_wf [OF Cons.prems(2)]]])
        (use rest Cons.prems in auto)
  next
    case Send_back
    then show ?thesis unfolding Send_back exchanges.simps
      by (intro safe_bind [OF send_safe [OF Cons.prems(1,2)]]) (use rest Cons.prems in auto)
  qed
qed

end

end
