(* ===== verification/Ahdlc.thy ===== *)
theory Ahdlc
  imports Transport
begin

text \<open>
  The aHDLC transport over the serial line (\<open>src/util.cc\<close>): \<open>SendAhdlc\<close> and \<open>GetAhdlc\<close>.

  The frame encoder and decoder belong to a library that is not in the repository: its functions
  and the fields of its two structures that the code reads are the record \<open>ahdlc\<close>, over the
  types of the encoder and decoder states. \<open>Init\<close> makes the encoder's frame buffer and the
  decoder's PDU buffer point to the two vectors of the harness; with this transport in use they are
  only reached through the encoder and the decoder, so they are part of those states here.
\<close>

datatype ahdlc_op_return = AHDLC_OK | AHDLC_COMPLETE | AHDLC_other nat

record ('e, 'd) ahdlc =
  enc_attach :: "byte list \<Rightarrow> 'e \<Rightarrow> 'e"
  ahdlcEncoderInit :: "'e \<Rightarrow> ahdlc_op_return \<times> 'e"
  EncodeNewFrame :: "'e \<Rightarrow> ahdlc_op_return \<times> 'e"
  EncodeAddByteToFrameBuffer :: "byte \<Rightarrow> 'e \<Rightarrow> ahdlc_op_return \<times> 'e"
  EncodeBuffer :: "byte list \<Rightarrow> 'e \<Rightarrow> ahdlc_op_return \<times> 'e"
  frame_buffer :: "'e \<Rightarrow> byte list"
  frame_index :: "'e \<Rightarrow> nat"
  dec_attach :: "byte list \<Rightarrow> 'd \<Rightarrow> 'd"
  AhdlcDecoderInit :: "'d \<Rightarrow> ahdlc_op_return \<times> 'd"
  DecodeFrameByte :: "byte \<Rightarrow> 'd \<Rightarrow> ahdlc_op_return \<times> 'd"
  decode_bad_crc :: "'d \<Rightarrow> bool"
  pdu_buffer :: "'d \<Rightarrow> byte list"
  pdu_index :: "'d \<Rightarrow> nat"

subsection \<open>\<open>SendAhdlc\<close>\<close>

text \<open>Encoding a message, up to the frame; the flag tells whether every call succeeded.\<close>

definition encode_message ::
  "('e, 'd) ahdlc \<Rightarrow> raw_message \<Rightarrow> 'e \<Rightarrow> fault + (bool \<times> 'e)" where
  "encode_message ops msg e =
     (let (r, e) = EncodeNewFrame ops e in
      if r \<noteq> AHDLC_OK then Inr (False, e)
      else (let (r, e) = EncodeAddByteToFrameBuffer ops (ucast (drop_bit 8 (mtype msg))) e in
      if r \<noteq> AHDLC_OK then Inr (False, e)
      else (let (r, e) = EncodeAddByteToFrameBuffer ops (ucast (mtype msg)) e in
      if r \<noteq> AHDLC_OK then Inr (False, e)
      else bind_res (read_prefix (unat (data_len msg)) (mdata msg)) (\<lambda>bs.
        let (r, e) = EncodeBuffer ops bs e in Inr (r = AHDLC_OK, e)))))"

definition SendAhdlc ::
  "('e, 'd) ahdlc \<Rightarrow> raw_message \<Rightarrow> ('w, 'e, 'd) harness \<Rightarrow> fault + (int \<times> ('w, 'e, 'd) harness)" where
  "SendAhdlc ops msg h =
     bind_res (encode_message ops msg (encoder h)) (\<lambda>(good, e).
       let h = h\<lparr>encoder := e\<rparr> in
       if \<not> good then Inr (TRANSPORT_ERROR, h)
       else bind_res (BlockingWrite (frame_buffer ops e) (frame_index ops e) h)
              (\<lambda>h. Inr (NO_ERROR, h)))"

subsection \<open>\<open>GetAhdlc\<close>\<close>

text \<open>
  Waiting for a byte: \<open>None\<close> is the timeout. The clock is read only after a read without a
  byte, and only when the timeout is not negative.
\<close>

fun wait_byte ::
  "int \<Rightarrow> int \<Rightarrow> tty_read list \<Rightarrow> int list \<Rightarrow> fault + (byte option \<times> tty_read list \<times> int list)" where
  "wait_byte timeout start [] ts = Inl Waiting"
| "wait_byte timeout start (Got b # rs) ts = Inr (Some b, rs, ts)"
| "wait_byte timeout start (Nothing e # rs) ts =
     (if 0 \<le> timeout
      then (case ts of
          [] \<Rightarrow> Inl Waiting
        | t # ts \<Rightarrow>
            if elapsed_us start t > timeout then Inr (None, rs, ts) else wait_byte timeout start rs ts)
      else wait_byte timeout start rs ts)"

lemma wait_byte_shrinks: "wait_byte timeout start rs ts = Inr (b, rs', ts') \<Longrightarrow> length rs' < length rs"
  by (induction timeout start rs ts rule: wait_byte.induct)
    (fastforce split: if_splits list.splits)+

text \<open>
  What follows a decoded byte when more than seven have been read: a frame with a good CRC or a
  bad one is delivered, an overlong one resets the decoder, and \<open>None\<close> goes on reading. The
  middle branch is the code's second test for a bad CRC.
\<close>

definition frame_end ::
  "('e, 'd) ahdlc \<Rightarrow> int \<Rightarrow> ahdlc_op_return \<Rightarrow> 'd \<Rightarrow> raw_message \<Rightarrow> string \<Rightarrow>
   fault + ((int \<times> raw_message) option \<times> 'd \<times> string)" where
  "frame_end ops v r d msg out =
     (if r = AHDLC_COMPLETE \<or> decode_bad_crc ops d then
        if pdu_index ops d < 2 then
          Inr (Some (TRANSPORT_ERROR, msg), d,
               if ERROR \<le> v then out @ [NL] @ ''UNDERFLOW ERROR'' @ [NL] else out)
        else
          bind_res (read_at 0 (pdu_buffer ops d)) (\<lambda>hi.
          bind_res (read_at 1 (pdu_buffer ops d)) (\<lambda>lo.
          bind_res (read_between 2 (pdu_index ops d) (pdu_buffer ops d)) (\<lambda>copied.
          bind_res (write_at 0 copied (mdata msg)) (\<lambda>data.
            Inr (Some (NO_ERROR,
                   msg\<lparr>mtype := be16_of hi lo, data_len := of_int (int (pdu_index ops d) - 2),
                       mdata := data\<rparr>), d,
                 if INFO \<le> v
                 then out @ [NL] @ (if r = AHDLC_COMPLETE then ''GOOD CRC'' else ''BAD CRC'') @ [NL]
                 else out)))))
      else if decode_bad_crc ops d then
        Inr (Some (TRANSPORT_ERROR, msg), d,
             if ERROR \<le> v then out @ [NL] @ ''AHDLC BAD CRC'' @ [NL] else out)
      else if PROTO_BUFFER_MAX_LEN \<le> pdu_index ops d then
        (let (r, d) = AhdlcDecoderInit ops d in
         if r \<noteq> AHDLC_OK then Inl (Exit_failure ''AhdlcDecoderInit()'')
         else Inr (Some (OVERFLOW_ERROR, msg), d,
                   if ERROR \<le> v then out @ [NL] @ ''OVERFLOW ERROR'' @ [NL] else out))
      else Inr (None, d, out))"

text \<open>The reading loop, from \<open>n\<close> bytes read so far (a \<open>size_t\<close> that no run can overflow).\<close>

function get_loop ::
  "('e, 'd) ahdlc \<Rightarrow> int \<Rightarrow> int \<Rightarrow> nat \<Rightarrow> raw_message \<Rightarrow> tty_read list \<Rightarrow> int list \<Rightarrow> 'd \<Rightarrow> string \<Rightarrow>
   fault + (int \<times> raw_message \<times> tty_read list \<times> int list \<times> 'd \<times> string)" where
  "get_loop ops v timeout n msg rs [] d out = Inl Waiting"
| "get_loop ops v timeout n msg rs (start # ts) d out =
     (case wait_byte timeout start rs ts of
        Inl e \<Rightarrow> Inl e
      | Inr (None, rs', ts') \<Rightarrow>
          Inr (TIMEOUT, msg, rs', ts', d, if INFO \<le> v then out @ [NL] else out)
      | Inr (Some b, rs', ts') \<Rightarrow>
          (let n = Suc n; (r, d) = DecodeFrameByte ops b d;
               out = (if INFO \<le> v then out @ log_byte ''RX: '' b else out) in
           if n > 7 then
             (case frame_end ops v r d msg out of
                Inl e \<Rightarrow> Inl e
              | Inr (Some (e, msg'), d, out) \<Rightarrow> Inr (e, msg', rs', ts', d, out)
              | Inr (None, d, out) \<Rightarrow> get_loop ops v timeout n msg rs' ts' d out)
           else get_loop ops v timeout n msg rs' ts' d out))"
  by pat_completeness auto
termination
  by (relation "measure (\<lambda>(ops, v, timeout, n, msg, rs, ts, d, out). length rs)")
    (auto dest: wait_byte_shrinks)

declare get_loop.simps [simp del]

definition GetAhdlc ::
  "('e, 'd) ahdlc \<Rightarrow> raw_message \<Rightarrow> int \<Rightarrow> ('w, 'e, 'd) harness \<Rightarrow>
   fault + (int \<times> raw_message \<times> ('w, 'e, 'd) harness)" where
  "GetAhdlc ops msg timeout h =
     (let v = verbosity h; t = tty h; out = (if INFO \<le> v then ''RX: '' else '''') in
      bind_res (get_loop ops v timeout 0 msg (rx t) (clk t) (decoder h) out)
        (\<lambda>(e, msg, rs, ts, d, out).
          Inr (e, msg, h\<lparr>tty := t\<lparr>rx := rs, clk := ts\<rparr>, decoder := d, cout := cout h @ out\<rparr>)))"

subsection \<open>Frames and the reading loop\<close>

text \<open>Whether the state after a byte ends the loop once more than seven bytes have been read.\<close>

definition frame_over :: "('e, 'd) ahdlc \<Rightarrow> ahdlc_op_return \<Rightarrow> 'd \<Rightarrow> bool" where
  "frame_over ops r d \<longleftrightarrow>
     r = AHDLC_COMPLETE \<or> decode_bad_crc ops d \<or> PROTO_BUFFER_MAX_LEN \<le> pdu_index ops d"

text \<open>Decoding some bytes of which only the last may end the loop, after \<open>n\<close> earlier ones.\<close>

fun feed :: "('e, 'd) ahdlc \<Rightarrow> nat \<Rightarrow> byte list \<Rightarrow> 'd \<Rightarrow> (ahdlc_op_return \<times> 'd) option" where
  "feed ops n [] d = None"
| "feed ops n [b] d = Some (DecodeFrameByte ops b d)"
| "feed ops n (b # c # bs) d =
     (let (r, d) = DecodeFrameByte ops b d in
      if 7 < Suc n \<and> frame_over ops r d then None else feed ops (Suc n) (c # bs) d)"

lemma frame_end_None:
  "frame_end ops v r d msg out = Inr (None, d', out') \<longleftrightarrow> \<not> frame_over ops r d \<and> d' = d \<and> out' = out"
  by (auto simp: frame_end_def frame_over_def Let_def bind_res_Inr_iff split: if_splits prod.splits)

lemma frame_end_not_over:
  "\<not> frame_over ops r d \<Longrightarrow> frame_end ops v r d msg out = Inr (None, d, out)"
  by (simp add: frame_end_None)

abbreviation rx_log :: "int \<Rightarrow> byte list \<Rightarrow> string" where
  "rx_log v bs \<equiv> (if INFO \<le> v then concat (map (log_byte ''RX: '') bs) else [])"

lemma get_loop_feed:
  assumes "feed ops n bs d = Some (r, d')" "7 < n + length bs" "length bs \<le> length ts"
    "frame_end ops v r d' msg (out @ rx_log v bs) = Inr (Some (e, msg'), d'', out'')"
  shows "get_loop ops v timeout n msg (map Got bs @ rs) ts d out =
    Inr (e, msg', rs, drop (length bs) ts, d'', out'')"
  using assms
proof (induction ops n bs d arbitrary: ts out rule: feed.induct)
  case (1 ops n d)
  then show ?case by simp
next
  case (2 ops n b d)
  then obtain t ts' where "ts = t # ts'" by (cases ts) auto
  with 2 show ?case by (simp add: get_loop.simps split: if_splits)
next
  case (3 ops n b c bs d)
  then obtain t ts' where ts: "ts = t # ts'" by (cases ts) auto
  obtain r1 d1 where dec: "DecodeFrameByte ops b d = (r1, d1)" by (cases "DecodeFrameByte ops b d")
  let ?out = "if INFO \<le> v then out @ log_byte ''RX: '' b else out"
  from "3.prems"(1) dec have go: "\<not> (7 < Suc n \<and> frame_over ops r1 d1)"
    and fed: "feed ops (Suc n) (c # bs) d1 = Some (r, d')"
    by (auto split: if_splits)
  have "get_loop ops v timeout (Suc n) msg (map Got (c # bs) @ rs) ts' d1 ?out =
    Inr (e, msg', rs, drop (length (c # bs)) ts', d'', out'')"
    using "3.prems" ts by (intro "3.IH" [OF dec [symmetric] refl go fed]) (auto split: if_splits)
  with go show ?case
    by (auto simp: get_loop.simps ts dec Let_def frame_end_not_over)
qed

lemma pdu_reads:
  assumes "n = 2 + length p" "n \<le> length buf" "take n buf = be16 t @ p"
  shows "read_at 0 buf = Inr (be16 t ! 0)" "read_at 1 buf = Inr (be16 t ! 1)"
    "read_between 2 n buf = Inr p"
proof -
  have "buf = be16 t @ p @ drop n buf" using assms(3) append_take_drop_id [of n buf] by simp
  then obtain a b rest where buf: "buf = a # b # rest" "be16 t = [a, b]" by (auto simp: be16_def)
  then show "read_at 0 buf = Inr (be16 t ! 0)" "read_at 1 buf = Inr (be16 t ! 1)"
    by (simp_all add: read_at_def)
  show "read_between 2 n buf = Inr p"
    using assms by (simp add: read_between_def be16_def)
qed

lemma frame_end_delivers:
  assumes "r = AHDLC_COMPLETE \<or> decode_bad_crc ops d"
    and "pdu_index ops d = 2 + length p" "pdu_index ops d \<le> length (pdu_buffer ops d)"
    and "take (pdu_index ops d) (pdu_buffer ops d) = be16 t @ p"
    and "length p \<le> PROTO_BUFFER_MAX_LEN - 2" "message_wf msg"
  shows "\<exists>out'. frame_end ops v r d msg out =
    Inr (Some (NO_ERROR, \<lparr>mtype = t, data_len = of_nat (length p), mdata = p @ drop (length p) (mdata msg)\<rparr>),
         d, out')"
proof -
  note pdu = pdu_reads [OF assms(2-4)]
  moreover have "write_at 0 p (mdata msg) = Inr (p @ drop (length p) (mdata msg))"
    using assms(5,6) by (simp add: fault_simps message_wf_def)
  ultimately show ?thesis
    using assms(1,2) be16_of_be16 [of t] unfolding frame_end_def by (simp add: be16_def)
qed

lemma GetAhdlc_delivers:
  assumes "rx (tty h) = map Got bs @ rs" "length bs \<le> length (clk (tty h))" "7 < length bs"
    and "feed ops 0 bs (decoder h) = Some (r, d)"
    and "r = AHDLC_COMPLETE \<or> decode_bad_crc ops d"
    and "pdu_index ops d = 2 + length p" "pdu_index ops d \<le> length (pdu_buffer ops d)"
    and "take (pdu_index ops d) (pdu_buffer ops d) = be16 t @ p"
    and "length p \<le> PROTO_BUFFER_MAX_LEN - 2" "message_wf msg"
  shows "\<exists>msg' h'. GetAhdlc ops msg timeout h = Inr (NO_ERROR, msg', h') \<and>
    mtype msg' = t \<and> payload msg' = p \<and> sendable msg' \<and> rx (tty h') = rs \<and> decoder h' = d \<and>
    clk (tty h') = drop (length bs) (clk (tty h))"
proof -
  let ?v = "verbosity h" and ?out = "if INFO \<le> verbosity h then ''RX: '' else ''''"
  let ?msg = "\<lparr>mtype = t, data_len = of_nat (length p), mdata = p @ drop (length p) (mdata msg)\<rparr>"
  from frame_end_delivers [OF assms(5-10), of ?v "?out @ rx_log ?v bs"] obtain out' where
    fe: "frame_end ops ?v r d msg (?out @ rx_log ?v bs) = Inr (Some (NO_ERROR, ?msg), d, out')" by blast
  have "7 < 0 + length bs" using assms(3) by simp
  from get_loop_feed [OF assms(4) this assms(2) fe, of timeout rs]
  have "GetAhdlc ops msg timeout h = Inr (NO_ERROR, ?msg,
    h\<lparr>tty := (tty h)\<lparr>rx := rs, clk := drop (length bs) (clk (tty h))\<rparr>, decoder := d, cout := cout h @ out'\<rparr>)"
    by (simp add: GetAhdlc_def Let_def assms(1))
  then show ?thesis
    using received_sendable [OF assms(9,10), of t] by simp
qed

text \<open>C3: a frame whose checksum the decoder rejects is delivered exactly as a good one: for any
  bytes that the decoder turns into a PDU with its last byte, \<open>GetAhdlc\<close> returns \<open>NO_ERROR\<close> with
  that PDU's type and payload, whether the decoder's verdict on the checksum was good or bad, and
  reads nothing past the frame.\<close>

theorem GetAhdlc_delivers_either_crc:
  assumes "rx (tty h) = map Got bs @ rs" "length bs \<le> length (clk (tty h))" "7 < length bs"
    and "feed ops 0 bs (decoder h) = Some (r, d)"
    and "r = AHDLC_COMPLETE \<or> decode_bad_crc ops d"
    and "pdu_index ops d = 2 + length p" "pdu_index ops d \<le> length (pdu_buffer ops d)"
    and "take (pdu_index ops d) (pdu_buffer ops d) = be16 t @ p"
    and "length p \<le> PROTO_BUFFER_MAX_LEN - 2" "message_wf msg"
  shows "\<exists>msg' h'. GetAhdlc ops msg timeout h = Inr (NO_ERROR, msg', h') \<and>
    mtype msg' = t \<and> payload msg' = p \<and> sendable msg' \<and> rx (tty h') = rs"
  using GetAhdlc_delivers [OF assms, of timeout] by blast

text \<open>
  A framing to evaluate the operations with: a frame is its content, a byte that tells whether the
  checksum is good (0) or not, and a closing flag; the content must not hold the flag byte. The
  decoder's state is what it has decoded and the verdict.
\<close>

definition flag_ahdlc :: "(byte list, byte list \<times> bool) ahdlc" where
  "flag_ahdlc = \<lparr>
     enc_attach = (\<lambda>bs e. []), ahdlcEncoderInit = (\<lambda>e. (AHDLC_OK, [])),
     EncodeNewFrame = (\<lambda>e. (AHDLC_OK, [])),
     EncodeAddByteToFrameBuffer = (\<lambda>b e. (if length e < 500 then AHDLC_OK else AHDLC_other 1, take 500 (e @ [b]))),
     EncodeBuffer = (\<lambda>bs e. if length e + length bs < 500 then (AHDLC_OK, e @ bs @ [0, 126]) else (AHDLC_other 1, e)),
     frame_buffer = (\<lambda>e. e), frame_index = length,
     dec_attach = (\<lambda>bs d. ([], False)), AhdlcDecoderInit = (\<lambda>d. (AHDLC_OK, ([], False))),
     DecodeFrameByte = (\<lambda>b (buf, bad).
        if b = 126 then
          (if List.last buf = 0 then (AHDLC_COMPLETE, (butlast buf, False))
           else (AHDLC_other 2, (butlast buf, True)))
        else (AHDLC_OK, (if length buf < 512 then buf @ [b] else buf, False))),
     decode_bad_crc = snd, pdu_buffer = fst, pdu_index = (\<lambda>d. length (fst d))\<rparr>"

definition ahdlc_sample :: "tty_read list \<Rightarrow> int list \<Rightarrow> (unit, byte list, byte list \<times> bool) harness" where
  "ahdlc_sample rs ts = sample_harness [] ([], False) \<lparr>rx = rs, wr = [], clk = ts, tx = []\<rparr>"

theorem GetAhdlc_delivers_either_crc_witness:
  "\<exists>msg' h'. GetAhdlc flag_ahdlc (message_of 0 []) 100
      (ahdlc_sample (map Got [1, 2, 65, 66, 67, 68, 99, 126] @ [Got 5]) (replicate 8 0)) =
      Inr (NO_ERROR, msg', h') \<and>
    mtype msg' = be16_of 1 2 \<and> payload msg' = [65, 66, 67, 68] \<and> sendable msg' \<and> rx (tty h') = [Got 5]"
proof -
  let ?h = "ahdlc_sample (map Got [1, 2, 65, 66, 67, 68, 99, 126] @ [Got 5]) (replicate 8 0)"
  let ?d = "([1, 2, 65, 66, 67, 68], True)"
  have fed: "feed flag_ahdlc 0 [1, 2, 65, 66, 67, 68, 99, 126] (decoder ?h) = Some (AHDLC_other 2, ?d)"
    by (simp add: ahdlc_sample_def sample_harness_def flag_ahdlc_def frame_over_def)
  have bad: "AHDLC_other 2 = AHDLC_COMPLETE \<or> decode_bad_crc flag_ahdlc ?d"
    and idx: "pdu_index flag_ahdlc ?d = 2 + length [65, 66, 67, 68 :: byte]"
      "pdu_index flag_ahdlc ?d \<le> length (pdu_buffer flag_ahdlc ?d)"
    and pdu: "take (pdu_index flag_ahdlc ?d) (pdu_buffer flag_ahdlc ?d) = be16 (be16_of 1 2) @ [65, 66, 67, 68]"
    by (simp_all add: flag_ahdlc_def be16_def be16_of_def)
  have len: "length [65, 66, 67, 68 :: byte] \<le> PROTO_BUFFER_MAX_LEN - 2" "message_wf (message_of 0 [])"
    using message_of_simps [of "[]" 0] by (simp_all add: PROTO_BUFFER_MAX_LEN_def sendable_wf)
  show ?thesis
    by (rule GetAhdlc_delivers_either_crc [OF _ _ _ fed bad idx pdu len])
      (simp_all add: ahdlc_sample_def sample_harness_def)
qed

subsection \<open>What each code means\<close>

text \<open>What the decoder has become after some bytes, and whether none of them ended the loop.\<close>

fun decode_all :: "('e, 'd) ahdlc \<Rightarrow> byte list \<Rightarrow> 'd \<Rightarrow> 'd" where
  "decode_all ops [] d = d"
| "decode_all ops (b # bs) d = decode_all ops bs (snd (DecodeFrameByte ops b d))"

fun keeps_reading :: "('e, 'd) ahdlc \<Rightarrow> nat \<Rightarrow> byte list \<Rightarrow> 'd \<Rightarrow> bool" where
  "keeps_reading ops n [] d \<longleftrightarrow> True"
| "keeps_reading ops n (b # bs) d \<longleftrightarrow>
     (let (r, d) = DecodeFrameByte ops b d in
      \<not> (7 < Suc n \<and> frame_over ops r d) \<and> keeps_reading ops (Suc n) bs d)"

lemma feed_Cons:
  "DecodeFrameByte ops b d = (r, d1) \<Longrightarrow> \<not> (7 < Suc n \<and> frame_over ops r d1) \<Longrightarrow> bs \<noteq> [] \<Longrightarrow>
   feed ops n (b # bs) d = feed ops (Suc n) bs d1"
  by (cases bs) auto

lemma feed_nonempty: "feed ops n bs d = Some x \<Longrightarrow> bs \<noteq> []"
  by auto

text \<open>
  A silence in the input, on which the timeout has run out: the clock was read after the last byte,
  after every failed read that follows it, and only the last of these readings is later than the
  first by more than the timeout. Every read that found a byte before took one reading too.
\<close>

definition silence :: "int \<Rightarrow> tty_read list \<Rightarrow> int list \<Rightarrow> tty_read list \<Rightarrow> int list \<Rightarrow> bool" where
  "silence timeout rs ts rs' ts' \<longleftrightarrow>
     (\<exists>pre es before start waits t.
        rs = pre @ map Nothing es @ rs' \<and> (pre = [] \<or> (\<exists>b. List.last pre = Got b)) \<and>
        ts = before @ start # waits @ t # ts' \<and>
        length before = length pre \<and> length es = Suc (length waits) \<and>
        list_all (\<lambda>u. elapsed_us start u \<le> timeout) waits \<and> timeout < elapsed_us start t)"

lemma wait_byte_None:
  "wait_byte timeout start rs ts = Inr (None, rs', ts') \<Longrightarrow>
   0 \<le> timeout \<and> (\<exists>es waits t. rs = map Nothing es @ rs' \<and> ts = waits @ t # ts' \<and>
     length es = Suc (length waits) \<and> list_all (\<lambda>u. elapsed_us start u \<le> timeout) waits \<and>
     timeout < elapsed_us start t)"
proof (induction timeout start rs ts rule: wait_byte.induct)
  case (3 timeout start e rs ts)
  from 3(3) obtain t ts1 where t: "0 \<le> timeout" "ts = t # ts1"
    using 3(2) by (cases "0 \<le> timeout"; cases ts) auto
  show ?case
  proof (cases "timeout < elapsed_us start t")
    case True
    with 3(3) t show ?thesis by (intro conjI exI [of _ "[e]"] exI [of _ "[]"] exI [of _ t]) auto
  next
    case False
    with 3 t obtain es waits u where "rs = map Nothing es @ rs'" "ts1 = waits @ u # ts'"
      "length es = Suc (length waits)" "list_all (\<lambda>u. elapsed_us start u \<le> timeout) waits" "timeout < elapsed_us start u"
      by auto
    with False t show ?thesis
      by (intro conjI exI [of _ "e # es"] exI [of _ "t # waits"] exI [of _ u]) auto
  qed
qed auto

lemma wait_byte_Some:
  "wait_byte timeout start rs ts = Inr (Some b, rs', ts') \<Longrightarrow>
   \<exists>es us. rs = map Nothing es @ Got b # rs' \<and> ts = us @ ts' \<and> (0 \<le> timeout \<longrightarrow> length us = length es)"
proof (induction timeout start rs ts rule: wait_byte.induct)
  case (3 timeout start e rs ts)
  show ?case
  proof (cases "0 \<le> timeout")
    case True
    with 3(3) obtain t ts1 where t: "ts = t # ts1" "\<not> timeout < elapsed_us start t"
      by (cases ts) (auto split: if_splits)
    with 3 True obtain es us where "rs = map Nothing es @ Got b # rs'" "ts1 = us @ ts'" "length us = length es"
      by auto
    with t show ?thesis by (intro exI [of _ "e # es"] exI [of _ "t # us"]) simp
  next
    case False
    with 3 obtain es us where "rs = map Nothing es @ Got b # rs'" "ts = us @ ts'" by auto
    with False show ?thesis by (intro exI [of _ "e # es"] exI [of _ us]) simp
  qed
qed auto

lemma silence_after:
  assumes "silence timeout rs ts rs' ts'" "length us = length es"
  shows "silence timeout (map Nothing es @ Got b # rs) (start # us @ ts) rs' ts'"
proof -
  from assms(1) obtain pre es1 before s waits t where *: "rs = pre @ map Nothing es1 @ rs'"
    "pre = [] \<or> (\<exists>b. List.last pre = Got b)" "ts = before @ s # waits @ t # ts'" "length before = length pre"
    "length es1 = Suc (length waits)" "list_all (\<lambda>u. elapsed_us s u \<le> timeout) waits" "timeout < elapsed_us s t"
    unfolding silence_def by blast
  show ?thesis
    unfolding silence_def
    by (rule exI [of _ "map Nothing es @ Got b # pre"], rule exI [of _ es1],
        rule exI [of _ "start # us @ before"], rule exI [of _ s], rule exI [of _ waits], rule exI [of _ t])
      (use * assms(2) in auto)
qed

text \<open>The message is what the decoder's buffer holds.\<close>

definition delivered :: "('e, 'd) ahdlc \<Rightarrow> 'd \<Rightarrow> raw_message \<Rightarrow> bool" where
  "delivered ops d msg \<longleftrightarrow> pdu_index ops d \<le> length (pdu_buffer ops d) \<and>
     (\<exists>p. take (pdu_index ops d) (pdu_buffer ops d) = be16 (mtype msg) @ p \<and>
        data_len msg = of_nat (length p) \<and> take (length p) (mdata msg) = p)"

text \<open>The judgement on the decoder's answer \<open>r\<close> and state \<open>d\<close> after the last byte.\<close>

definition judged ::
  "('e, 'd) ahdlc \<Rightarrow> ahdlc_op_return \<Rightarrow> 'd \<Rightarrow> raw_message \<Rightarrow> int \<Rightarrow> raw_message \<Rightarrow> 'd \<Rightarrow> bool" where
  "judged ops r d msg e msg' d' \<longleftrightarrow>
     (if r = AHDLC_COMPLETE \<or> decode_bad_crc ops d
      then d' = d \<and>
        (if 2 \<le> pdu_index ops d then e = NO_ERROR \<and> delivered ops d msg'
         else e = TRANSPORT_ERROR \<and> msg' = msg)
      else PROTO_BUFFER_MAX_LEN \<le> pdu_index ops d \<and> e = OVERFLOW_ERROR \<and> msg' = msg \<and>
        AhdlcDecoderInit ops d = (AHDLC_OK, d'))"

lemma frame_end_delivered:
  assumes "frame_end ops v r d msg out = Inr (Some (e, msg'), d', out')"
    and "r = AHDLC_COMPLETE \<or> decode_bad_crc ops d" "2 \<le> pdu_index ops d"
  shows "e = NO_ERROR \<and> d' = d \<and> delivered ops d msg'"
proof -
  let ?n = "pdu_index ops d" and ?buf = "pdu_buffer ops d"
  have n: "?n \<le> length ?buf"
    using assms by (auto simp: frame_end_def bind_res_Inr_iff read_between_def split: if_splits)
  have len: "length (take ?n ?buf) = ?n" using n by simp
  with assms(3) have "2 \<le> length (take ?n ?buf)" by simp
  from wire_form [OF this] obtain t p where tp: "take ?n ?buf = be16 t @ p" .
  from arg_cong [OF tp, of length] len have p: "?n = 2 + length p" by simp
  note reads = pdu_reads [OF p n tp]
  from assms obtain data where data: "write_at 0 p (mdata msg) = Inr data"
    using reads by (auto simp: frame_end_def bind_res_Inr_iff split: if_splits)
  have "msg' = msg\<lparr>mtype := t, data_len := of_nat (length p), mdata := data\<rparr> \<and> e = NO_ERROR \<and> d' = d"
    using assms reads data p be16_of_be16 [of t] by (auto simp: frame_end_def be16_def split: if_splits)
  moreover have "data = p @ drop (length p) (mdata msg)"
    using data by (auto simp: write_at_def split: if_splits)
  ultimately show ?thesis using n tp by (auto simp: delivered_def)
qed

lemma frame_end_judged:
  assumes "frame_end ops v r d msg out = Inr (Some (e, msg'), d', out')"
  shows "judged ops r d msg e msg' d'"
proof (cases "(r = AHDLC_COMPLETE \<or> decode_bad_crc ops d) \<and> 2 \<le> pdu_index ops d")
  case True
  with frame_end_delivered [OF assms] show ?thesis by (auto simp: judged_def)
next
  case False
  with assms show ?thesis
    by (auto simp: judged_def frame_end_def Let_def split: if_splits prod.splits)
qed

definition loop_outcome ::
  "('e, 'd) ahdlc \<Rightarrow> int \<Rightarrow> nat \<Rightarrow> raw_message \<Rightarrow> tty_read list \<Rightarrow> int list \<Rightarrow> 'd \<Rightarrow> byte list \<Rightarrow>
   int \<Rightarrow> raw_message \<Rightarrow> tty_read list \<Rightarrow> int list \<Rightarrow> 'd \<Rightarrow> bool" where
  "loop_outcome ops timeout n msg rs ts d bs e msg' rs' ts' d' \<longleftrightarrow>
     (if e = TIMEOUT
      then 0 \<le> timeout \<and> msg' = msg \<and> silence timeout rs ts rs' ts' \<and>
        keeps_reading ops n bs d \<and> d' = decode_all ops bs d
      else 8 \<le> n + length bs \<and> (\<exists>r d1. feed ops n bs d = Some (r, d1) \<and> judged ops r d1 msg e msg' d'))"

lemma loop_outcome_more:
  assumes "loop_outcome ops timeout (Suc n) msg rs ts d1 bs e msg' rs' ts' d'"
    and "DecodeFrameByte ops b d = (r, d1)" "\<not> (7 < Suc n \<and> frame_over ops r d1)"
    and "0 \<le> timeout \<longrightarrow> length us = length es"
  shows "loop_outcome ops timeout n msg (map Nothing es @ Got b # rs) (start # us @ ts) d (b # bs) e msg' rs' ts' d'"
proof (cases "e = TIMEOUT")
  case True
  with assms silence_after [of timeout rs ts rs' ts' us es b start] show ?thesis by (simp add: loop_outcome_def)
next
  case False
  with assms(1) obtain r' d2 where fed: "feed ops (Suc n) bs d1 = Some (r', d2)" and "8 \<le> Suc n + length bs"
    "judged ops r' d2 msg e msg' d'" by (auto simp: loop_outcome_def)
  with False feed_Cons [OF assms(2,3) feed_nonempty [OF fed]] show ?thesis by (simp add: loop_outcome_def)
qed

lemma get_loop_outcome:
  "get_loop ops v timeout n msg rs ts d out = Inr (e, msg', rs', ts', d', out') \<Longrightarrow>
   \<exists>bs. consumes rs bs rs' \<and> loop_outcome ops timeout n msg rs ts d bs e msg' rs' ts' d'"
proof (induction "length rs" arbitrary: n rs ts d out rule: less_induct)
  case (less rs n ts0 d out)
  from less.prems obtain start ts where ts0: "ts0 = start # ts" by (cases ts0) (auto simp: get_loop.simps)
  note prems = less.prems [unfolded ts0]
  from prems obtain b rs1 ts1 where w: "wait_byte timeout start rs ts = Inr (b, rs1, ts1)"
    by (auto simp: get_loop.simps split: sum.splits option.splits)
  show ?case
  proof (cases b)
    case None
    with prems w have res: "e = TIMEOUT" "msg' = msg" "rs' = rs1" "ts' = ts1" "d' = d" by (auto simp: get_loop.simps)
    from wait_byte_None [OF w [unfolded None]] obtain es waits t where *: "0 \<le> timeout"
      "rs = map Nothing es @ rs'" "ts = waits @ t # ts'" "length es = Suc (length waits)"
      "list_all (\<lambda>u. elapsed_us start u \<le> timeout) waits" "timeout < elapsed_us start t"
      using res by blast
    have "silence timeout rs ts0 rs' ts'"
      unfolding silence_def ts0
      by (rule exI [of _ "[]"], rule exI [of _ es], rule exI [of _ "[]"], rule exI [of _ start],
          rule exI [of _ waits], rule exI [of _ t]) (use * in simp)
    moreover have "consumes rs [] rs'" unfolding *(2) consumes_def by (auto simp: got_def)
    ultimately show ?thesis using res *(1) by (intro exI [of _ "[]"]) (simp add: loop_outcome_def)
  next
    case (Some c)
    from wait_byte_Some [OF w [unfolded Some]] obtain es us where rs: "rs = map Nothing es @ Got c # rs1"
      and ts: "ts = us @ ts1" and us: "0 \<le> timeout \<longrightarrow> length us = length es" by blast
    have first: "consumes rs [c] rs1" unfolding rs consumes_def
      by (intro exI [of _ "map Nothing es @ [Got c]"]) (simp add: got_def)
    obtain r d1 where dec: "DecodeFrameByte ops c d = (r, d1)" by (cases "DecodeFrameByte ops c d")
    let ?out = "if INFO \<le> v then out @ log_byte ''RX: '' c else out"
    show ?thesis
    proof (cases "7 < Suc n \<and> frame_over ops r d1")
      case True
      then obtain x d2 out2 where fe: "frame_end ops v r d1 msg ?out = Inr (Some x, d2, out2)"
        using prems w Some dec
        by (auto simp: get_loop.simps Let_def frame_end_None split: sum.splits option.splits)
      with prems w Some dec True have x: "x = (e, msg')" "d2 = d'" "rs' = rs1"
        by (auto simp: get_loop.simps Let_def split: prod.splits)
      note judged = frame_end_judged [OF fe [unfolded x]]
      moreover from judged have "e \<noteq> TIMEOUT" by (auto simp: judged_def split: if_splits)
      ultimately have "loop_outcome ops timeout n msg rs ts0 d [c] e msg' rs' ts' d'"
        using True dec by (simp add: loop_outcome_def)
      with first x show ?thesis by blast
    next
      case False
      have "get_loop ops v timeout (Suc n) msg rs1 ts1 d1 ?out = Inr (e, msg', rs', ts', d', out')"
        using prems w Some dec False frame_end_not_over [of ops r d1 v msg ?out]
        by (cases "7 < Suc n") (simp_all add: get_loop.simps Let_def split del: if_split)
      then obtain bs where bs: "consumes rs1 bs rs'"
        "loop_outcome ops timeout (Suc n) msg rs1 ts1 d1 bs e msg' rs' ts' d'"
        using less.hyps [OF wait_byte_shrinks [OF w]] by blast
      from loop_outcome_more [OF bs(2) dec False us, of start] consumes_trans [OF first bs(1)] show ?thesis
        unfolding ts0 rs ts by auto
    qed
  qed
qed

lemma GetAhdlc_Inr:
  assumes "GetAhdlc ops msg timeout h = Inr (e, msg', h')"
  obtains out where
    "get_loop ops (verbosity h) timeout 0 msg (rx (tty h)) (clk (tty h)) (decoder h)
       (if INFO \<le> verbosity h then ''RX: '' else '''') =
     Inr (e, msg', rx (tty h'), clk (tty h'), decoder h', out)"
    "tx (tty h') = tx (tty h)" "wr (tty h') = wr (tty h)" "tty_fd h' = tty_fd h" "encoder h' = encoder h"
    "verbosity h' = verbosity h"
  using assms by (auto simp: GetAhdlc_def Let_def bind_res_Inr_iff)

text \<open>C4: what every return of \<open>GetAhdlc\<close> means, by the bytes \<open>bs\<close> that it took from the line,
  writing nothing there. \<open>TIMEOUT\<close>: the timeout is not negative, since the last byte every read has
  failed, the clock was read after each of them, the last of these readings and no earlier one is
  past the timeout, no byte ended a frame, the decoder holds all the bytes and the caller's message
  is untouched. Otherwise the last byte, at least the eighth, is the first to end a frame: if the
  decoder reports it complete or its checksum bad, then the code is \<open>NO_ERROR\<close> with the type and
  payload of the decoder's buffer in the message, or \<open>TRANSPORT_ERROR\<close> if the buffer is too short
  for a type; if not, the buffer is full, the code is \<open>OVERFLOW_ERROR\<close>, the decoder is initialized
  again and the message untouched.\<close>

theorem GetAhdlc_outcomes:
  assumes "GetAhdlc ops msg timeout h = Inr (e, msg', h')"
  shows "tx (tty h') = tx (tty h) \<and>
    (\<exists>bs. consumes (rx (tty h)) bs (rx (tty h')) \<and>
      (if e = TIMEOUT
       then 0 \<le> timeout \<and> msg' = msg \<and>
         (\<exists>pre es before start waits t.
            rx (tty h) = pre @ map Nothing es @ rx (tty h') \<and> (pre = [] \<or> (\<exists>b. List.last pre = Got b)) \<and>
            clk (tty h) = before @ start # waits @ t # clk (tty h') \<and>
            length before = length pre \<and> length es = Suc (length waits) \<and>
            list_all (\<lambda>u. elapsed_us start u \<le> timeout) waits \<and> timeout < elapsed_us start t) \<and>
         keeps_reading ops 0 bs (decoder h) \<and> decoder h' = decode_all ops bs (decoder h)
       else 8 \<le> length bs \<and>
         (\<exists>r d. feed ops 0 bs (decoder h) = Some (r, d) \<and>
            (if r = AHDLC_COMPLETE \<or> decode_bad_crc ops d
             then decoder h' = d \<and>
               (if 2 \<le> pdu_index ops d then e = NO_ERROR \<and> delivered ops d msg'
                else e = TRANSPORT_ERROR \<and> msg' = msg)
             else PROTO_BUFFER_MAX_LEN \<le> pdu_index ops d \<and> e = OVERFLOW_ERROR \<and> msg' = msg \<and>
               AhdlcDecoderInit ops d = (AHDLC_OK, decoder h')))))"
proof -
  from assms obtain out where
    "get_loop ops (verbosity h) timeout 0 msg (rx (tty h)) (clk (tty h)) (decoder h)
       (if INFO \<le> verbosity h then ''RX: '' else '''') =
     Inr (e, msg', rx (tty h'), clk (tty h'), decoder h', out)" and tx: "tx (tty h') = tx (tty h)"
    by (rule GetAhdlc_Inr)
  from get_loop_outcome [OF this(1)] obtain bs where
    bs: "consumes (rx (tty h)) bs (rx (tty h'))"
      "loop_outcome ops timeout 0 msg (rx (tty h)) (clk (tty h)) (decoder h) bs e msg'
         (rx (tty h')) (clk (tty h')) (decoder h')" by blast
  show ?thesis
    by (rule conjI [OF tx], rule exI [of _ bs], rule conjI [OF bs(1)])
      (use bs(2) [unfolded loop_outcome_def silence_def judged_def add_0] in assumption)
qed

text \<open>A byte and then silence.\<close>

theorem GetAhdlc_outcomes_witness:
  "\<exists>h'. GetAhdlc flag_ahdlc (message_of 1 []) 100
      (ahdlc_sample [Got 65, Nothing 11, Nothing 11] [0, 0, 50000, 200000]) = Inr (TIMEOUT, message_of 1 [], h') \<and>
    tx (tty h') = [] \<and>
    (\<exists>bs. consumes [Got 65, Nothing 11, Nothing 11] bs (rx (tty h')) \<and>
      decoder h' = decode_all flag_ahdlc bs ([], False) \<and>
      (\<exists>pre es before start waits t.
         [Got 65, Nothing 11, Nothing 11] = pre @ map Nothing es @ rx (tty h') \<and>
         [0, 0, 50000, 200000] = before @ start # waits @ t # clk (tty h') \<and>
         length before = length pre \<and> length es = Suc (length waits) \<and> 100 < elapsed_us start t))"
proof -
  let ?h = "ahdlc_sample [Got 65, Nothing 11, Nothing 11] [0, 0, 50000, 200000]"
  let ?h' = "sample_harness [] ([65], False) \<lparr>rx = [], wr = [], clk = [], tx = []\<rparr> :: (unit, byte list, byte list \<times> bool) harness"
  have run: "GetAhdlc flag_ahdlc (message_of 1 []) 100 ?h = Inr (TIMEOUT, message_of 1 [], ?h')"
    by (simp add: GetAhdlc_def Let_def ahdlc_sample_def sample_harness_def get_loop.simps flag_ahdlc_def
        elapsed_us_def signed_divide_int_def)
  have h: "tx (tty ?h) = []" "rx (tty ?h) = [Got 65, Nothing 11, Nothing 11]"
    "clk (tty ?h) = [0, 0, 50000, 200000]" "decoder ?h = ([], False)"
    by (simp_all add: ahdlc_sample_def sample_harness_def)
  note out = GetAhdlc_outcomes [OF run, unfolded h if_P [OF refl]]
  from out have "tx (tty ?h') = []" by blast
  moreover from out obtain bs where "consumes [Got 65, Nothing 11, Nothing 11] bs (rx (tty ?h'))"
    "decoder ?h' = decode_all flag_ahdlc bs ([], False)"
    "\<exists>pre es before start waits t.
       [Got 65, Nothing 11, Nothing 11] = pre @ map Nothing es @ rx (tty ?h') \<and>
       [0, 0, 50000, 200000] = before @ start # waits @ t # clk (tty ?h') \<and>
       length before = length pre \<and> length es = Suc (length waits) \<and> 100 < elapsed_us start t"
    by blast
  ultimately show ?thesis using run by blast
qed

subsection \<open>Safety\<close>

text \<open>
  The library's contract on its buffers: the decoder never counts past its PDU buffer, which has
  the protocol's size, and the encoder never counts past its frame buffer.
\<close>

definition decoder_ok :: "('e, 'd) ahdlc \<Rightarrow> 'd \<Rightarrow> bool" where
  "decoder_ok ops d \<longleftrightarrow> pdu_index ops d \<le> PROTO_BUFFER_MAX_LEN \<and> pdu_index ops d \<le> length (pdu_buffer ops d)"

definition encoder_ok :: "('e, 'd) ahdlc \<Rightarrow> 'e \<Rightarrow> bool" where
  "encoder_ok ops e \<longleftrightarrow> frame_index ops e \<le> length (frame_buffer ops e)"

definition ahdlc_bounded :: "('e, 'd) ahdlc \<Rightarrow> bool" where
  "ahdlc_bounded ops \<longleftrightarrow>
     (\<forall>b d. decoder_ok ops d \<longrightarrow> decoder_ok ops (snd (DecodeFrameByte ops b d))) \<and>
     (\<forall>d. decoder_ok ops d \<longrightarrow> decoder_ok ops (snd (AhdlcDecoderInit ops d))) \<and>
     (\<forall>e. encoder_ok ops e \<longrightarrow> encoder_ok ops (snd (EncodeNewFrame ops e))) \<and>
     (\<forall>b e. encoder_ok ops e \<longrightarrow> encoder_ok ops (snd (EncodeAddByteToFrameBuffer ops b e))) \<and>
     (\<forall>bs e. encoder_ok ops e \<longrightarrow> encoder_ok ops (snd (EncodeBuffer ops bs e)))"

lemma ahdlc_boundedD:
  assumes "ahdlc_bounded ops"
  shows "DecodeFrameByte ops b d = (r, d') \<Longrightarrow> decoder_ok ops d \<Longrightarrow> decoder_ok ops d'"
    and "AhdlcDecoderInit ops d = (r, d') \<Longrightarrow> decoder_ok ops d \<Longrightarrow> decoder_ok ops d'"
    and "EncodeNewFrame ops e = (r, e') \<Longrightarrow> encoder_ok ops e \<Longrightarrow> encoder_ok ops e'"
    and "EncodeAddByteToFrameBuffer ops b e = (r, e') \<Longrightarrow> encoder_ok ops e \<Longrightarrow> encoder_ok ops e'"
    and "EncodeBuffer ops bs e = (r, e') \<Longrightarrow> encoder_ok ops e \<Longrightarrow> encoder_ok ops e'"
  using assms unfolding ahdlc_bounded_def by (metis snd_conv)+

definition ahdlc_inv :: "('e, 'd) ahdlc \<Rightarrow> ('w, 'e, 'd) harness \<Rightarrow> bool" where
  "ahdlc_inv ops h \<longleftrightarrow> ahdlc_bounded ops \<and> decoder_ok ops (decoder h) \<and> encoder_ok ops (encoder h)"

lemma frame_end_safe:
  assumes "ahdlc_bounded ops" "decoder_ok ops d" "message_wf msg"
  shows "safe (\<lambda>(res, d', out). decoder_ok ops d' \<and>
    (\<forall>e msg'. res = Some (e, msg') \<longrightarrow> sendable msg' \<or> msg' = msg)) (frame_end ops v r d msg out)"
proof (cases "(r = AHDLC_COMPLETE \<or> decode_bad_crc ops d) \<and> 2 \<le> pdu_index ops d")
  case True
  let ?n = "pdu_index ops d"
  have n: "?n \<le> length (pdu_buffer ops d)" "?n \<le> PROTO_BUFFER_MAX_LEN"
    using assms(2) by (simp_all add: decoder_ok_def)
  then have len: "length (take ?n (pdu_buffer ops d)) = ?n" by simp
  with True obtain t p where tp: "take ?n (pdu_buffer ops d) = be16 t @ p"
    using wire_form [of "take ?n (pdu_buffer ops d)"] by auto
  from arg_cong [OF tp, of length] len True n
  have p: "?n = 2 + length p" "length p \<le> PROTO_BUFFER_MAX_LEN - 2" by auto
  have "r = AHDLC_COMPLETE \<or> decode_bad_crc ops d" using True by simp
  from frame_end_delivers [OF this p(1) n(1) tp p(2) assms(3), of v out] show ?thesis
    using assms(2) received_sendable [OF p(2) assms(3)] by auto
next
  case False
  have "decoder_ok ops (snd (AhdlcDecoderInit ops d))"
    using assms(1,2) by (simp add: ahdlc_bounded_def)
  with False assms(2) show ?thesis
    by (auto simp: frame_end_def Let_def split: prod.splits)
qed

lemma wait_byte_not_oob: "wait_byte timeout start rs ts \<noteq> Inl Out_of_bounds"
  by (induction timeout start rs ts rule: wait_byte.induct) (auto split: list.splits)

lemma get_loop_safe:
  assumes "ahdlc_bounded ops" "decoder_ok ops d" "message_wf msg"
  shows "safe (\<lambda>(e, msg', rs', ts', d', out'). decoder_ok ops d' \<and> (sendable msg' \<or> msg' = msg))
    (get_loop ops v timeout n msg rs ts d out)"
  using assms(2)
proof (induction "length rs" arbitrary: n rs ts d out rule: less_induct)
  case (less rs n ts0 d out)
  show ?case
  proof (cases ts0)
    case Nil
    then show ?thesis by (simp add: get_loop.simps)
  next
    case (Cons start ts)
    consider e where "wait_byte timeout start rs ts = Inl e" "e \<noteq> Out_of_bounds"
      | rs1 ts1 where "wait_byte timeout start rs ts = Inr (None, rs1, ts1)"
      | c rs1 ts1 where "wait_byte timeout start rs ts = Inr (Some c, rs1, ts1)"
      using wait_byte_not_oob by (metis option.exhaust prod_cases3 sum.exhaust)
    then show ?thesis
    proof cases
      case (3 c rs1 ts1)
      obtain r d1 where dec: "DecodeFrameByte ops c d = (r, d1)" by (cases "DecodeFrameByte ops c d")
      then have ok: "decoder_ok ops d1"
        using less.prems by (rule ahdlc_boundedD(1) [OF assms(1)])
      let ?out = "if INFO \<le> v then out @ log_byte ''RX: '' c else out"
      note again = less.hyps [OF wait_byte_shrinks [OF 3]]
      from frame_end_safe [OF assms(1) ok assms(3), of v r ?out] again ok show ?thesis
        by (auto simp: Cons get_loop.simps 3 dec Let_def split: sum.splits option.splits)
    qed (use less.prems Cons in \<open>auto simp: get_loop.simps\<close>)
  qed
qed

lemma GetAhdlc_safe:
  assumes "ahdlc_inv ops h" "message_wf m"
  shows "safe (\<lambda>(e, m', h'). ahdlc_inv ops h' \<and> (sendable m' \<or> m' = m)) (GetAhdlc ops m timeout h)"
  unfolding GetAhdlc_def Let_def
  by (rule safe_bind [OF get_loop_safe]) (use assms in \<open>auto simp: ahdlc_inv_def\<close>)

lemma encode_message_safe:
  assumes "ahdlc_bounded ops" "encoder_ok ops e" "sendable m"
  shows "safe (\<lambda>(good, e'). encoder_ok ops e') (encode_message ops m e)"
proof -
  have "read_prefix (unat (data_len m)) (mdata m) = Inr (payload m)"
    using assms(3) by (simp add: sendable_def message_wf_def payload_def fault_simps)
  then show ?thesis
    using assms(2) by (auto simp: encode_message_def Let_def split: prod.splits
        dest: ahdlc_boundedD(3-5) [OF assms(1)])
qed

lemma write_loop_not_oob: "write_loop bs ws sent \<noteq> Inl Out_of_bounds"
  by (induction bs ws sent rule: write_loop.induct) auto

lemma BlockingWrite_safe:
  assumes "n \<le> length bs"
  shows "safe (\<lambda>h'. encoder h' = encoder h \<and> decoder h' = decoder h) (BlockingWrite bs n h)"
proof -
  let ?h = "print_at INFO (log_buffer ''TX: '' (take n bs)) h"
  show ?thesis
    using assms write_loop_not_oob [of "take n bs" "wr (tty ?h)" "tx (tty ?h)"]
    by (cases "write_loop (take n bs) (wr (tty ?h)) (tx (tty ?h))")
      (auto simp: BlockingWrite_def fault_simps Let_def)
qed

lemma SendAhdlc_safe:
  assumes "ahdlc_inv ops h" "sendable m"
  shows "safe (\<lambda>(e, h'). ahdlc_inv ops h') (SendAhdlc ops m h)"
  unfolding SendAhdlc_def
proof (rule safe_bind)
  show "safe (\<lambda>(good, e'). encoder_ok ops e') (encode_message ops m (encoder h))"
    using assms by (intro encode_message_safe) (auto simp: ahdlc_inv_def)
next
  fix x :: "bool \<times> 'a"
  assume "case x of (good, e') \<Rightarrow> encoder_ok ops e'"
  then obtain good e where x: "x = (good, e)" "encoder_ok ops e" by (cases x) auto
  then have "safe (\<lambda>h'. encoder h' = e \<and> decoder h' = decoder h)
      (BlockingWrite (frame_buffer ops e) (frame_index ops e) (h\<lparr>encoder := e\<rparr>))"
    using BlockingWrite_safe [of "frame_index ops e" "frame_buffer ops e" "h\<lparr>encoder := e\<rparr>"]
    by (simp add: encoder_ok_def)
  from safe_bind [OF this, of "\<lambda>(e, h'). ahdlc_inv ops h'" "\<lambda>h. Inr (NO_ERROR, h)"]
  show "safe (\<lambda>(e, h'). ahdlc_inv ops h') (case x of (good, e) \<Rightarrow>
      let h = h\<lparr>encoder := e\<rparr> in
      if \<not> good then Inr (TRANSPORT_ERROR, h)
      else bind_res (BlockingWrite (frame_buffer ops e) (frame_index ops e) h) (\<lambda>h. Inr (NO_ERROR, h)))"
    using x assms(1) by (auto simp: Let_def ahdlc_inv_def)
qed

interpretation ahdlc: transport "SendAhdlc ops" "\<lambda>m. GetAhdlc ops m timeout" "ahdlc_inv ops"
  for ops timeout
  by unfold_locales (use SendAhdlc_safe GetAhdlc_safe in auto)

text \<open>Under the frame library's contract on its buffers, the aHDLC transport never leaves its
  buffers either, whatever arrives on the line and whatever is sent, received and sent back.\<close>

theorem Ahdlc_exchanges_safe:
  assumes "ahdlc_bounded ops" "decoder_ok ops (decoder h)" "encoder_ok ops (encoder h)"
    and "sendable m" "list_all sends_sendable xs"
  shows "safe (\<lambda>(es, m', h'). decoder_ok ops (decoder h') \<and> encoder_ok ops (encoder h') \<and> sendable m' \<and>
      length es = length xs)
    (exchanges (SendAhdlc ops) (\<lambda>m. GetAhdlc ops m timeout) xs m h)"
  by (rule safe_mono [OF ahdlc.exchanges_safe [of ops h m xs timeout]])
    (use assms in \<open>auto simp: ahdlc_inv_def\<close>)

theorem Ahdlc_exchanges_safe_witness:
  "safe (\<lambda>(es, m', h'). decoder_ok flag_ahdlc (decoder h') \<and> encoder_ok flag_ahdlc (encoder h') \<and>
      sendable m' \<and> length es = length [Send (message_of 7 [1, 2]), Get, Send_back])
    (exchanges (SendAhdlc flag_ahdlc) (\<lambda>m. GetAhdlc flag_ahdlc m 100)
      [Send (message_of 7 [1, 2]), Get, Send_back] (message_of 0 [])
      (ahdlc_sample [Nothing 11, Got 65] [0, 200000]))"
proof -
  have "ahdlc_bounded flag_ahdlc"
    by (auto simp: ahdlc_bounded_def decoder_ok_def encoder_ok_def flag_ahdlc_def PROTO_BUFFER_MAX_LEN_def)
  moreover have "decoder_ok flag_ahdlc (decoder (ahdlc_sample [Nothing 11, Got 65] [0, 200000]))"
    "encoder_ok flag_ahdlc (encoder (ahdlc_sample [Nothing 11, Got 65] [0, 200000]))"
    by (simp_all add: decoder_ok_def encoder_ok_def flag_ahdlc_def ahdlc_sample_def sample_harness_def)
  moreover have "sendable (message_of 0 [])" "list_all sends_sendable [Send (message_of 7 [1, 2]), Get, Send_back]"
    by (simp_all add: message_of_simps PROTO_BUFFER_MAX_LEN_def)
  ultimately show ?thesis by (rule Ahdlc_exchanges_safe)
qed

lemma SendAhdlc_result:
  assumes "sendable m" "SendAhdlc ops m h = Inr (e, h')"
  shows "e = TRANSPORT_ERROR \<and> tx (tty h') = tx (tty h) \<or>
    e = NO_ERROR \<and>
    tx (tty h') = tx (tty h) @ take (frame_index ops (encoder h')) (frame_buffer ops (encoder h')) \<and>
    (\<exists>e1 e2 e3. EncodeNewFrame ops (encoder h) = (AHDLC_OK, e1) \<and>
       EncodeAddByteToFrameBuffer ops (be16 (mtype m) ! 0) e1 = (AHDLC_OK, e2) \<and>
       EncodeAddByteToFrameBuffer ops (be16 (mtype m) ! 1) e2 = (AHDLC_OK, e3) \<and>
       EncodeBuffer ops (payload m) e3 = (AHDLC_OK, encoder h'))"
proof -
  have rd: "read_prefix (unat (data_len m)) (mdata m) = Inr (payload m)"
    using assms(1) by (simp add: sendable_def message_wf_def payload_def fault_simps)
  from assms(2) obtain good e1 where enc: "encode_message ops m (encoder h) = Inr (good, e1)"
    by (auto simp: SendAhdlc_def bind_res_Inr_iff)
  show ?thesis
  proof (cases good)
    case False
    with assms(2) enc show ?thesis by (auto simp: SendAhdlc_def Let_def)
  next
    case True
    with assms(2) enc have e: "e = NO_ERROR"
      and bw: "BlockingWrite (frame_buffer ops e1) (frame_index ops e1) (h\<lparr>encoder := e1\<rparr>) = Inr h'"
      by (auto simp: SendAhdlc_def Let_def bind_res_Inr_iff)
    have "encoder h' = e1"
      using bw by (auto simp: BlockingWrite_def Let_def bind_res_Inr_iff)
    with BlockingWrite_sent [OF bw] e enc True rd show ?thesis
      by (auto simp: encode_message_def be16_def Let_def split: prod.splits if_splits)
  qed
qed

text \<open>C6: \<open>SendAhdlc\<close> either reports an encoder error and puts nothing on the line, or puts
  exactly one frame there: the encoder's, for the two bytes of the type, high byte first, followed
  by the payload.\<close>

theorem SendAhdlc_outcomes:
  assumes "sendable m" "SendAhdlc ops m h = Inr (e, h')"
  shows "e = TRANSPORT_ERROR \<and> tx (tty h') = tx (tty h) \<or>
    e = NO_ERROR \<and>
    tx (tty h') = tx (tty h) @ take (frame_index ops (encoder h')) (frame_buffer ops (encoder h')) \<and>
    (\<exists>e1 e2 e3. EncodeNewFrame ops (encoder h) = (AHDLC_OK, e1) \<and>
       EncodeAddByteToFrameBuffer ops (be16 (mtype m) ! 0) e1 = (AHDLC_OK, e2) \<and>
       EncodeAddByteToFrameBuffer ops (be16 (mtype m) ! 1) e2 = (AHDLC_OK, e3) \<and>
       EncodeBuffer ops (payload m) e3 = (AHDLC_OK, encoder h'))"
  by (rule SendAhdlc_result [OF assms])

theorem SendAhdlc_outcomes_witness:
  "\<exists>h'. SendAhdlc flag_ahdlc (message_of 7 [1, 2])
      ((ahdlc_sample [] [])\<lparr>tty := \<lparr>rx = [], wr = [Wrote 6], clk = [], tx = []\<rparr>\<rparr>) = Inr (NO_ERROR, h') \<and>
    tx (tty h') = take (frame_index flag_ahdlc (encoder h')) (frame_buffer flag_ahdlc (encoder h')) \<and>
    (\<exists>e1 e2 e3. EncodeNewFrame flag_ahdlc [] = (AHDLC_OK, e1) \<and>
       EncodeAddByteToFrameBuffer flag_ahdlc 0 e1 = (AHDLC_OK, e2) \<and>
       EncodeAddByteToFrameBuffer flag_ahdlc 7 e2 = (AHDLC_OK, e3) \<and>
       EncodeBuffer flag_ahdlc [1, 2] e3 = (AHDLC_OK, encoder h'))"
proof -
  let ?h = "(ahdlc_sample [] [])\<lparr>tty := \<lparr>rx = [], wr = [Wrote 6], clk = [], tx = []\<rparr>\<rparr>"
  have len: "length [1, 2 :: byte] \<le> PROTO_BUFFER_MAX_LEN - 2" by (simp add: PROTO_BUFFER_MAX_LEN_def)
  note m = message_of_simps [OF len, of 7]
  have "\<exists>h'. SendAhdlc flag_ahdlc (message_of 7 [1, 2]) ?h = Inr (NO_ERROR, h')"
    by (simp add: SendAhdlc_def encode_message_def Let_def flag_ahdlc_def message_of_def
        ahdlc_sample_def sample_harness_def BlockingWrite_def fault_simps print_at_def)
  then obtain h' where send: "SendAhdlc flag_ahdlc (message_of 7 [1, 2]) ?h = Inr (NO_ERROR, h')" by blast
  have "encoder ?h = []" "tx (tty ?h) = []" by (simp_all add: ahdlc_sample_def sample_harness_def)
  with send SendAhdlc_outcomes [OF m(1) send] m show ?thesis
    by (intro exI [of _ h']) (simp add: be16_def)
qed

end
