(* ===== verification/AhdlcReturns.thy ===== *)
theory AhdlcReturns
  imports Ahdlc
begin

text \<open>
  Whether \<open>GetAhdlc\<close> (\<open>src/util.cc\<close>) returns. Its timeout bounds the wait for each byte, not
  the call: after any traffic it returns once the line is silent for that long, but a line that keeps
  sending bytes which end no frame holds it for ever.
\<close>

subsection \<open>Silence\<close>

text \<open>From a position of the script, the clock has passed the timeout.\<close>

lemma wait_byte_returns:
  assumes "0 \<le> timeout" "p < length rs" "length rs \<le> length ts"
    and "\<And>j. p \<le> j \<Longrightarrow> j < length ts \<Longrightarrow> timeout < elapsed_us start (ts ! j)"
  shows "(\<exists>rs' ts'. wait_byte timeout start rs ts = Inr (None, rs', ts')) \<or>
    (\<exists>skipped b rs'. rs = skipped @ Got b # rs' \<and>
       wait_byte timeout start rs ts = Inr (Some b, rs', drop (length skipped) ts))"
  using assms(2-)
proof (induction rs arbitrary: p ts)
  case (Cons r rs)
  show ?case
  proof (cases r)
    case (Got b)
    then show ?thesis by (intro disjI2 exI [of _ "[]"] exI [of _ b] exI [of _ rs]) simp
  next
    case (Nothing e)
    from Cons.prems(2) obtain t ts1 where ts: "ts = t # ts1" by (cases ts) auto
    show ?thesis
    proof (cases "timeout < elapsed_us start t")
      case True
      then show ?thesis using assms(1) by (simp add: Nothing ts)
    next
      case False
      with Cons.prems(3) [of 0] ts have "0 < p" by (cases p) auto
      moreover have "timeout < elapsed_us start (ts1 ! j)" if "p - 1 \<le> j" "j < length ts1" for j
        using Cons.prems(3) [of "Suc j"] that ts by simp
      ultimately have "(\<exists>rs' ts'. wait_byte timeout start rs ts1 = Inr (None, rs', ts')) \<or>
        (\<exists>skipped b rs'. rs = skipped @ Got b # rs' \<and>
           wait_byte timeout start rs ts1 = Inr (Some b, rs', drop (length skipped) ts1))"
        using Cons.prems(1,2) ts by (intro Cons.IH [of "p - 1"]) auto
      moreover have "wait_byte timeout start (r # rs) ts = wait_byte timeout start rs ts1"
        using False assms(1) by (simp add: Nothing ts)
      moreover have "r # rs = (r # skipped) @ Got b # rs' \<and>
          drop (length skipped) ts1 = drop (length (r # skipped)) ts"
        if "rs = skipped @ Got b # rs'" for skipped b rs' using that ts by simp
      ultimately show ?thesis by metis
    qed
  qed
qed simp

lemma frame_end_returns:
  assumes "ahdlc_bounded ops" "decoder_ok ops d" "message_wf msg" "\<And>d. fst (AhdlcDecoderInit ops d) = AHDLC_OK"
  shows "\<exists>res d' out'. frame_end ops v r d msg out = Inr (res, d', out') \<and> decoder_ok ops d'"
proof (cases "frame_end ops v r d msg out")
  case (Inl e)
  from frame_end_safe [OF assms(1-3), of v r out] Inl have "e \<noteq> Out_of_bounds" by simp
  with Inl assms(4) [of d] show ?thesis
    by (auto simp: frame_end_def Let_def bind_res_Inl_iff read_at_def read_between_def write_at_def split: if_splits prod.splits)
next
  case (Inr x)
  with frame_end_safe [OF assms(1-3), of v r out] show ?thesis by (cases x) auto
qed

text \<open>The clock at least \<open>k\<close> readings later is past the timeout.\<close>

definition advances :: "nat \<Rightarrow> int \<Rightarrow> int list \<Rightarrow> bool" where
  "advances k timeout ts \<longleftrightarrow>
     (\<forall>i j. i + k \<le> j \<longrightarrow> j < length ts \<longrightarrow> timeout < elapsed_us (ts ! i) (ts ! j))"

lemma advances_drop: "advances k timeout ts \<Longrightarrow> advances k timeout (drop n ts)"
  unfolding advances_def by (auto simp: algebra_simps)

lemma get_loop_returns:
  assumes "ahdlc_bounded ops" "message_wf msg" "\<And>d. fst (AhdlcDecoderInit ops d) = AHDLC_OK"
    and "0 \<le> timeout" "0 < k"
  shows "decoder_ok ops d \<Longrightarrow> advances k timeout ts \<Longrightarrow> length rs + k < length ts \<Longrightarrow>
    returns (get_loop ops v timeout n msg (rs @ replicate k (Nothing e)) ts d out)"
proof (induction "length rs" arbitrary: rs ts d n out rule: less_induct)
  case less
  then obtain start ts1 where ts: "ts = start # ts1" by (cases ts) auto
  let ?rs = "rs @ replicate k (Nothing e)"
  have late: "timeout < elapsed_us start (ts1 ! j)" if "k - 1 \<le> j" "j < length ts1" for j
    using less.prems(2) [unfolded advances_def ts, rule_format, of 0 "Suc j"] that assms(5) by simp
  have "k - 1 < length ?rs" "length ?rs \<le> length ts1" using assms(5) less.prems(3) ts by auto
  from wait_byte_returns [OF assms(4) this late] consider
    rs' ts' where "wait_byte timeout start ?rs ts1 = Inr (None, rs', ts')"
    | skipped b rest where "?rs = skipped @ Got b # rest"
      "wait_byte timeout start ?rs ts1 = Inr (Some b, rest, drop (length skipped) ts1)" by blast
  then show ?case
  proof cases
    case 1
    then show ?thesis by (simp add: ts get_loop.simps)
  next
    case 2
    from 2(1) have "rs @ replicate k (Nothing e) = (skipped @ [Got b]) @ rest" by simp
    then obtain us where "rs = (skipped @ [Got b]) @ us \<and> rest = us @ replicate k (Nothing e) \<or>
        rs @ us = skipped @ [Got b] \<and> replicate k (Nothing e) = us @ rest"
      unfolding append_eq_append_conv2 by metis
    moreover have "us = []" if "rs @ us = skipped @ [Got b]" "replicate k (Nothing e) = us @ rest"
    proof (rule ccontr)
      assume "us \<noteq> []"
      then have "Got b \<in> set us" using arg_cong [OF that(1), of List.last] by (metis last_appendR last_in_set last_snoc)
      with that(2) have "Got b \<in> set (replicate k (Nothing e))" by simp
      then show False by simp
    qed
    ultimately obtain us where rest: "rs = skipped @ Got b # us" "rest = us @ replicate k (Nothing e)"
      by (metis append.right_neutral append_Cons append_Nil append_assoc)
    let ?ts = "drop (length skipped) ts1"
    have adv: "advances k timeout ?ts"
      using advances_drop [OF less.prems(2), of "Suc (length skipped)"] ts by simp
    have shorter: "length us < length rs" "length us + k < length ?ts" using rest(1) less.prems(3) ts by auto
    obtain r d1 where dec: "DecodeFrameByte ops b d = (r, d1)" by (cases "DecodeFrameByte ops b d")
    have ok: "decoder_ok ops d1" using dec less.prems(1) by (rule ahdlc_boundedD(1) [OF assms(1)])
    let ?out = "if INFO \<le> v then out @ log_byte ''RX: '' b else out"
    obtain res d2 out2 where fe: "frame_end ops v r d1 msg ?out = Inr (res, d2, out2)" "decoder_ok ops d2"
      using frame_end_returns [OF assms(1) ok assms(2,3)] by blast
    note again = less.hyps [OF shorter(1) _ adv shorter(2), folded rest(2)]
    show ?thesis
      using again [OF ok] again [OF fe(2)] fe(1)
      by (auto simp: ts get_loop.simps 2(2) dec Let_def split: option.splits)
  qed
qed

subsection \<open>A line that does not stop\<close>

lemma get_loop_held:
  "keeps_reading ops n bs d \<Longrightarrow> get_loop ops v timeout n msg (map Got bs) ts d out = Inl Waiting"
proof (induction bs arbitrary: n d ts out)
  case Nil
  then show ?case by (cases ts) (simp_all add: get_loop.simps)
next
  case (Cons b bs)
  obtain r d1 where dec: "DecodeFrameByte ops b d = (r, d1)" by (cases "DecodeFrameByte ops b d")
  with Cons show ?case
    by (cases ts) (auto simp: get_loop.simps Let_def frame_end_not_over)
qed

text \<open>C5: under the frame library's contract, whatever has been on the line, and however bytes and
  failed reads follow each other in it, \<open>GetAhdlc\<close> returns when then \<open>k\<close> reads in a row find
  nothing and the clock passes the timeout within any \<open>k\<close> readings; it reads the clock at most once
  for each read and once more. Yet the timeout is for each byte: while bytes keep coming that
  end no frame, however many and however late, it goes on.\<close>

theorem GetAhdlc_termination:
  assumes "ahdlc_bounded ops" "\<And>d. fst (AhdlcDecoderInit ops d) = AHDLC_OK"
    and "decoder_ok ops (decoder h)" "message_wf msg" "0 \<le> timeout" "0 < k"
  shows "(rx (tty h) = rs @ replicate k (Nothing e) \<and> advances k timeout (clk (tty h)) \<and>
      length rs + k < length (clk (tty h)) \<longrightarrow> returns (GetAhdlc ops msg timeout h)) \<and>
    (rx (tty h) = map Got bs \<and> keeps_reading ops 0 bs (decoder h) \<longrightarrow> GetAhdlc ops msg timeout h = Inl Waiting)"
proof (intro conjI impI)
  assume silent: "rx (tty h) = rs @ replicate k (Nothing e) \<and> advances k timeout (clk (tty h)) \<and>
    length rs + k < length (clk (tty h))"
  let ?run = "get_loop ops (verbosity h) timeout 0 msg (rx (tty h)) (clk (tty h)) (decoder h)
    (if INFO \<le> verbosity h then ''RX: '' else '''')"
  have "returns ?run"
    using get_loop_returns [OF assms(1,4,2,5,6,3)] silent by simp
  then show "returns (GetAhdlc ops msg timeout h)"
    unfolding GetAhdlc_def Let_def by (rule returns_bind) (auto simp: returns_def split: prod.splits)
next
  assume "rx (tty h) = map Got bs \<and> keeps_reading ops 0 bs (decoder h)"
  then show "GetAhdlc ops msg timeout h = Inl Waiting"
    by (simp add: GetAhdlc_def Let_def get_loop_held)
qed

theorem GetAhdlc_termination_witness:
  "returns (GetAhdlc flag_ahdlc (message_of 0 []) 100
     (ahdlc_sample ([Got 65, Nothing 11, Got 66] @ replicate 2 (Nothing 11)) [0, 60000, 120000, 180000, 240000, 300000])) \<and>
   GetAhdlc flag_ahdlc (message_of 0 []) 100 (ahdlc_sample (map Got [65, 66]) [0, 1000000]) = Inl Waiting"
proof -
  let ?h = "ahdlc_sample ([Got 65, Nothing 11, Got 66] @ replicate 2 (Nothing 11)) [0, 60000, 120000, 180000, 240000, 300000]"
  let ?h' = "ahdlc_sample (map Got [65, 66]) [0, 1000000]"
  have bounded: "ahdlc_bounded flag_ahdlc" "fst (AhdlcDecoderInit flag_ahdlc d) = AHDLC_OK" for d
    by (auto simp: ahdlc_bounded_def decoder_ok_def encoder_ok_def flag_ahdlc_def PROTO_BUFFER_MAX_LEN_def)
  have ok: "decoder_ok flag_ahdlc (decoder ?h)" "decoder_ok flag_ahdlc (decoder ?h')" "message_wf (message_of 0 [])"
    using message_of_simps [of "[]" 0]
    by (simp_all add: decoder_ok_def flag_ahdlc_def ahdlc_sample_def sample_harness_def sendable_wf)
  have "advances 2 100 [0, 60000, 120000, 180000, 240000, 300000]"
    unfolding advances_def
  proof (intro allI impI)
    fix i j assume "i + 2 \<le> j" "j < length [0, 60000, 120000, 180000, 240000, 300000 :: int]"
    then have "j \<in> {2, 3, 4, 5}" "i \<in> {0, 1, 2, 3}" "i + 2 \<le> j" by auto
    then show "100 < elapsed_us ([0, 60000, 120000, 180000, 240000, 300000] ! i) ([0, 60000, 120000, 180000, 240000, 300000] ! j)"
      by (auto simp: elapsed_us_def signed_divide_int_def)
  qed
  then have "rx (tty ?h) = [Got 65, Nothing 11, Got 66] @ replicate 2 (Nothing 11) \<and> advances 2 100 (clk (tty ?h)) \<and>
      length [Got 65, Nothing 11, Got 66] + 2 < length (clk (tty ?h))"
    by (simp add: ahdlc_sample_def sample_harness_def)
  moreover have "rx (tty ?h') = map Got [65, 66] \<and> keeps_reading flag_ahdlc 0 [65, 66] (decoder ?h')"
    by (simp add: ahdlc_sample_def sample_harness_def flag_ahdlc_def)
  moreover have "(0 :: int) \<le> 100" "(0 :: nat) < 2" by simp_all
  ultimately show ?thesis
    using GetAhdlc_termination [OF bounded ok(1,3)] GetAhdlc_termination [OF bounded ok(2,3)] by blast
qed

end
