(* ===== verification/GTest.thy ===== *)
theory GTest
  imports Prelude
begin

text \<open>
  What the tests use of the test framework: assertions that record a failure with its place in the
  source, the difference between \<open>EXPECT_*\<close> (go on) and \<open>ASSERT_*\<close> (return from the current
  function, which its caller does not notice), and the verdict: a test passes when it runs to its
  end and no failure has been recorded.

  A procedure acts on the world and the list of failures so far. Its outcome is a fault, an early
  return (\<open>None\<close>) or a value.
\<close>

named_theorems records_intros \<open>procedures that only ever add failures\<close>
named_theorems passed_simps \<open>what it takes for a procedure to pass\<close>

datatype failure = Fatal string nat | Nonfatal string nat

record 'w tst =
  tworld :: 'w
  failed :: "failure list"

type_synonym ('w, 'a) proc = "'w tst \<Rightarrow> fault + ('a option \<times> 'w tst)"

subsection \<open>Building procedures\<close>

definition give :: "'a \<Rightarrow> ('w, 'a) proc" where
  "give x s = Inr (Some x, s)"

definition and_then :: "('w, 'a) proc \<Rightarrow> ('a \<Rightarrow> ('w, 'b) proc) \<Rightarrow> ('w, 'b) proc" where
  "and_then p f s = bind_res (p s) (\<lambda>(r, s).
     case r of None \<Rightarrow> Inr (None, s) | Some x \<Rightarrow> f x s)"

text \<open>A statement sequence.\<close>

fun block :: "('w, unit) proc list \<Rightarrow> ('w, unit) proc" where
  "block [] = give ()"
| "block (p # ps) = and_then p (\<lambda>_. block ps)"

definition EXPECT :: "string \<Rightarrow> nat \<Rightarrow> bool \<Rightarrow> ('w, unit) proc" where
  "EXPECT file line b s = Inr (Some (), if b then s else s\<lparr>failed := failed s @ [Nonfatal file line]\<rparr>)"

definition ASSERT :: "string \<Rightarrow> nat \<Rightarrow> bool \<Rightarrow> ('w, unit) proc" where
  "ASSERT file line b s =
     (if b then Inr (Some (), s) else Inr (None, s\<lparr>failed := failed s @ [Fatal file line]\<rparr>))"

text \<open>An operation on the world, and one that may fault.\<close>

definition act :: "('w \<Rightarrow> 'a \<times> 'w) \<Rightarrow> ('w, 'a) proc" where
  "act f s = (let (x, w) = f (tworld s) in Inr (Some x, s\<lparr>tworld := w\<rparr>))"

definition attempt :: "('w \<Rightarrow> fault + ('a \<times> 'w)) \<Rightarrow> ('w, 'a) proc" where
  "attempt f s = bind_res (f (tworld s)) (\<lambda>(x, w). Inr (Some x, s\<lparr>tworld := w\<rparr>))"

text \<open>Calling a function of type \<open>void\<close>: an assertion that fails in it returns from it only.\<close>

definition invoke :: "('w, 'a) proc \<Rightarrow> ('w, unit) proc" where
  "invoke p s = bind_res (p s) (\<lambda>(r, s). Inr (Some (), s))"

text \<open>\<open>for\<close> loops over a list, which an early return leaves.\<close>

definition for_each :: "'a list \<Rightarrow> ('a \<Rightarrow> ('w, unit) proc) \<Rightarrow> ('w, unit) proc" where
  "for_each xs body = block (map body xs)"

text \<open>A fault (undefined behaviour) at this point unless the condition holds.\<close>

definition in_bounds :: "bool \<Rightarrow> ('w, unit) proc" where
  "in_bounds b s = (if b then Inr (Some (), s) else Inl Out_of_bounds)"

subsection \<open>Procedures only add failures\<close>

definition records :: "('w, 'a) proc \<Rightarrow> bool" where
  "records p \<longleftrightarrow> (\<forall>s r s'. p s = Inr (r, s') \<longrightarrow>
     (\<exists>new. failed s' = failed s @ new \<and> (r = None \<longrightarrow> new \<noteq> [])))"

lemma recordsD:
  "records p \<Longrightarrow> p s = Inr (r, s') \<Longrightarrow> \<exists>new. failed s' = failed s @ new \<and> (r = None \<longrightarrow> new \<noteq> [])"
  unfolding records_def by blast

lemma records_basic [simp, records_intros]:
  "records (give x)" "records (EXPECT file line b)" "records (ASSERT file line b)" "records (act f)"
  "records (attempt g)" "records (in_bounds b)"
  by (auto simp: records_def give_def EXPECT_def ASSERT_def act_def attempt_def in_bounds_def
      bind_res_Inr_iff split: prod.splits if_splits)

lemma records_and_then [simp, records_intros]:
  assumes "records p" "\<And>x. records (f x)"
  shows "records (and_then p f)"
  unfolding records_def
proof (intro allI impI)
  fix s r s'
  assume "and_then p f s = Inr (r, s')"
  then obtain r1 s1 where p: "p s = Inr (r1, s1)"
    and rest: "(case r1 of None \<Rightarrow> Inr (None, s1) | Some x \<Rightarrow> f x s1) = Inr (r, s')"
    by (auto simp: and_then_def bind_res_Inr_iff)
  from recordsD [OF assms(1) p] obtain new where
    new: "failed s1 = failed s @ new" "r1 = None \<longrightarrow> new \<noteq> []" by blast
  show "\<exists>new. failed s' = failed s @ new \<and> (r = None \<longrightarrow> new \<noteq> [])"
  proof (cases r1)
    case None
    with rest new show ?thesis by auto
  next
    case (Some x)
    with rest have "f x s1 = Inr (r, s')" by simp
    from recordsD [OF assms(2) this] new show ?thesis by auto
  qed
qed

lemma records_case_prod [simp, records_intros]: "(\<And>a b. records (f a b)) \<Longrightarrow> records (case x of (a, b) \<Rightarrow> f a b)"
  by (cases x) auto

lemma records_invoke [simp, records_intros]: "records p \<Longrightarrow> records (invoke p)"
  unfolding records_def invoke_def bind_res_Inr_iff by fastforce

lemma records_block [simp, records_intros]: "(\<And>p. p \<in> set ps \<Longrightarrow> records p) \<Longrightarrow> records (block ps)"
  by (induction ps) (auto intro: records_intros)

lemma records_for_each [simp, records_intros]: "(\<And>x. records (body x)) \<Longrightarrow> records (for_each xs body)"
  unfolding for_each_def by (rule records_block) auto

subsection \<open>Passing\<close>

definition fresh :: "'w \<Rightarrow> 'w tst" where
  "fresh w = \<lparr>tworld = w, failed = []\<rparr>"

definition passed :: "('w, 'a) proc \<Rightarrow> 'w \<Rightarrow> 'a \<Rightarrow> 'w \<Rightarrow> bool" where
  "passed p w x w' \<longleftrightarrow> p (fresh w) = Inr (Some x, fresh w')"

text \<open>The verdict on a test.\<close>

definition passes :: "('w, unit) proc \<Rightarrow> 'w \<Rightarrow> bool" where
  "passes p w \<longleftrightarrow> (case p (fresh w) of Inl e \<Rightarrow> False | Inr (r, s) \<Rightarrow> failed s = [])"

lemma fresh_sel [simp]: "tworld (fresh w) = w" "failed (fresh w) = []"
  by (simp_all add: fresh_def)

lemma fresh_inject [simp]: "fresh w = fresh w' \<longleftrightarrow> w = w'"
  by (simp add: fresh_def)

lemma failed_nil: "failed (s :: 'w tst) = [] \<longleftrightarrow> (\<exists>w. s = fresh w)"
  by (cases s) (auto simp: fresh_def)

lemma passes_passed: "records p \<Longrightarrow> passes p w \<longleftrightarrow> (\<exists>w'. passed p w () w')"
  by (auto simp: passes_def passed_def failed_nil split: sum.splits prod.splits dest: recordsD)

lemma passed_basic [passed_simps]:
  "passed (give x) w y w' \<longleftrightarrow> y = x \<and> w' = w"
  "passed (EXPECT file line b) w u w' \<longleftrightarrow> b \<and> w' = w"
  "passed (ASSERT file line b) w u w' \<longleftrightarrow> b \<and> w' = w"
  "passed (in_bounds b) w u w' \<longleftrightarrow> b \<and> w' = w"
  "passed (act f) w y w' \<longleftrightarrow> f w = (y, w')"
  "passed (attempt g) w y w' \<longleftrightarrow> g w = Inr (y, w')"
  by (auto simp: passed_def give_def EXPECT_def ASSERT_def in_bounds_def act_def attempt_def
      bind_res_Inr_iff fresh_def split: prod.splits)

lemma passed_and_then [passed_simps]:
  assumes "records p" "\<And>x. records (f x)"
  shows "passed (and_then p f) w y w'' \<longleftrightarrow> (\<exists>x w'. passed p w x w' \<and> passed (f x) w' y w'')"
proof
  assume "passed (and_then p f) w y w''"
  then obtain x s1 where p: "p (fresh w) = Inr (Some x, s1)" and f: "f x s1 = Inr (Some y, fresh w'')"
    by (auto simp: passed_def and_then_def bind_res_Inr_iff split: option.splits)
  from recordsD [OF assms(2) f] have "failed s1 = []" by auto
  then obtain w' where "s1 = fresh w'" by (auto simp: failed_nil)
  with p f show "\<exists>x w'. passed p w x w' \<and> passed (f x) w' y w''" by (auto simp: passed_def)
qed (auto simp: passed_def and_then_def)

lemma passed_block [passed_simps]:
  assumes "records p" "records (block ps)"
  shows "passed (block (p # ps)) w u w'' \<longleftrightarrow> (\<exists>w'. passed p w () w' \<and> passed (block ps) w' () w'')"
  using assms by (simp add: passed_and_then)

lemma passed_block_nil [passed_simps]: "passed (block []) w u w' \<longleftrightarrow> w' = w"
  by (simp add: passed_basic)

lemma passed_invoke [passed_simps]:
  assumes "records p"
  shows "passed (invoke p) w u w' \<longleftrightarrow> (\<exists>x. passed p w x w')"
proof
  assume "passed (invoke p) w u w'"
  then obtain r where p: "p (fresh w) = Inr (r, fresh w')"
    by (auto simp: passed_def invoke_def bind_res_Inr_iff)
  from recordsD [OF assms p] obtain x where "r = Some x" by (cases r) auto
  with p show "\<exists>x. passed p w x w'" by (auto simp: passed_def)
qed (auto simp: passed_def invoke_def)

lemma passed_for_each_check [passed_simps]:
  fixes w :: 'w
  shows "passed (for_each xs (\<lambda>x. ASSERT file line (P x))) w u w' \<longleftrightarrow> (\<forall>x \<in> set xs. P x) \<and> w' = w"
proof (induction xs)
  case Nil
  then show ?case by (simp add: for_each_def passed_basic)
next
  case (Cons x xs)
  have "records (for_each xs (\<lambda>x. ASSERT file line (P x)) :: ('w, unit) proc)" by simp
  from passed_and_then [OF records_basic(3) this] Cons show ?case
    by (auto simp: for_each_def passed_basic)
qed

text \<open>Passing without a look at the world that is left.\<close>

definition completes :: "('w, 'a) proc \<Rightarrow> 'w \<Rightarrow> 'a \<Rightarrow> bool" where
  "completes p w x \<longleftrightarrow> (\<exists>w'. passed p w x w')"

lemma passes_completes: "records p \<Longrightarrow> passes p w \<longleftrightarrow> completes p w ()"
  by (simp add: passes_passed completes_def)

lemma completes_and_then [passed_simps]:
  assumes "records p" "\<And>x. records (f x)"
  shows "completes (and_then p f) w y \<longleftrightarrow> (\<exists>x w'. passed p w x w' \<and> completes (f x) w' y)"
  using passed_and_then [OF assms] by (auto simp: completes_def)

lemma completes_block [passed_simps]:
  assumes "records p" "records (block ps)"
  shows "completes (block (p # ps)) w u \<longleftrightarrow> (\<exists>w'. passed p w () w' \<and> completes (block ps) w' ())"
  using passed_block [OF assms] by (auto simp: completes_def)

lemma completes_basic [passed_simps]:
  "completes (give x) w y \<longleftrightarrow> y = x"
  "completes (EXPECT file line b) w u \<longleftrightarrow> b"
  "completes (ASSERT file line b) w u \<longleftrightarrow> b"
  "completes (in_bounds b) w u \<longleftrightarrow> b"
  "completes (block []) w u"
  "completes (act f) w y \<longleftrightarrow> fst (f w) = y"
  by (auto simp: completes_def passed_basic passed_block_nil) (metis prod.collapse)

lemma completes_invoke [passed_simps]:
  "records p \<Longrightarrow> completes (invoke p) w u \<longleftrightarrow> (\<exists>x. completes p w x)"
  by (auto simp: completes_def passed_invoke)

lemma completes_for_each_check [passed_simps]:
  "completes (for_each xs (\<lambda>x. ASSERT file line (P x))) w u \<longleftrightarrow> (\<forall>x \<in> set xs. P x)"
  by (simp add: completes_def passed_for_each_check)

subsection \<open>Running a test\<close>

text \<open>The framework runs the body of a test only when its \<open>SetUp\<close>, and what that called, has had
  no fatal failure.\<close>

definition fatal :: "failure \<Rightarrow> bool" where
  "fatal f \<longleftrightarrow> (case f of Fatal file line \<Rightarrow> True | Nonfatal file line \<Rightarrow> False)"

definition run_test :: "('w, unit) proc \<Rightarrow> ('w, unit) proc \<Rightarrow> ('w, unit) proc" where
  "run_test set_up body s =
     bind_res (set_up s) (\<lambda>(r, s).
       if \<exists>f \<in> set (failed s). fatal f then Inr (None, s) else body s)"

lemma passes_run_test:
  assumes "records set_up" "records body"
  shows "passes (run_test set_up body) w \<longleftrightarrow> (\<exists>w'. passed set_up w () w' \<and> passes body w')"
proof
  assume "passes (run_test set_up body) w"
  then obtain r s1 r2 s2 where up: "set_up (fresh w) = Inr (r, s1)" and
    body: "(if \<exists>f \<in> set (failed s1). fatal f then Inr (None, s1) else body s1) = Inr (r2, s2)" and
    ok: "failed s2 = []"
    by (auto simp: passes_def run_test_def bind_res_def split: sum.splits if_splits)
  have "failed s1 = []"
    using body ok recordsD [OF assms(2), of s1] by (auto split: if_splits)
  moreover with recordsD [OF assms(1) up] obtain x where "r = Some x" by (cases r) auto
  ultimately obtain w' where "passed set_up w () w'" "s1 = fresh w'"
    using up by (auto simp: failed_nil passed_def)
  with body ok show "\<exists>w'. passed set_up w () w' \<and> passes body w'"
    by (intro exI [of _ w']) (auto simp: passes_def)
qed (auto simp: passed_def passes_def run_test_def)

end
