(* ===== verification/Spi.thy ===== *)
theory Spi
  imports Transport
begin

text \<open>
  The SPI transport of \<open>src/util.cc\<close>: \<open>SendSpi\<close> makes the client on first use, puts the message
  type and the payload in \<open>input_buffer\<close>, grows \<open>output_buffer\<close> to its capacity and calls the
  protobuf application; \<open>GetSpi\<close> reads the reply out of \<open>output_buffer\<close> and empties it. Every read of the buffer is
  checked, and the length is computed as the code computes it, modulo the width of \<open>data_len\<close>, so
  that nothing but the test on the size keeps a short reply within the buffer.
\<close>

subsection \<open>The operations\<close>

definition ensure_client ::
  "'w nos \<Rightarrow> config \<Rightarrow> ('w, 'e, 'd) harness \<Rightarrow> fault + (client \<times> ('w, 'e, 'd) harness)" where
  "ensure_client env cfg h =
     (case hclient h of
        Some c \<Rightarrow> Inr (c, h)
      | None \<Rightarrow>
          (let (c, serial, w) = MakeNuggetClient env (android cfg) (citadel_device cfg) (serial_flag h) (world h);
               w = client_open env c w;
               h = h\<lparr>hclient := Some c, serial_flag := serial, world := w\<rparr>
           in if \<not> client_is_open env c w then Inl (Exit_failure ''Unable to connect'')
              else Inr (c, h)))"

definition resize_bytes :: "nat \<Rightarrow> byte list \<Rightarrow> byte list" where
  "resize_bytes n bs = take n bs @ replicate (n - length bs) 0"

lemma length_resize_bytes [simp, bytes_simps]: "length (resize_bytes n bs) = n"
  by (simp add: resize_bytes_def)

definition SendSpi ::
  "'w nos \<Rightarrow> config \<Rightarrow> raw_message \<Rightarrow> ('w, 'e, 'd) harness \<Rightarrow> fault + (int \<times> ('w, 'e, 'd) harness)" where
  "SendSpi env cfg msg h =
     bind_res (ensure_client env cfg h) (\<lambda>(c, h).
       let n = unat (data_len msg);
           buf = (resize_bytes (n + 2) (input_buffer h))
                   [0 := ucast (drop_bit 8 (mtype msg)), 1 := ucast (mtype msg)] in
       bind_res (read_prefix n (mdata msg)) (\<lambda>bs.
       bind_res (write_at 2 bs buf) (\<lambda>buf.
         let h = print_at INFO (log_buffer ''SPI_TX: '' buf) (h\<lparr>input_buffer := buf\<rparr>);
             out = vec_resize (vcap (output_buffer h)) (output_buffer h);
             (st, out, w) = call_app env c APP_ID_PROTOBUF (Param (mtype msg)) buf (Some out) (world h)
         in Inr (st, h\<lparr>output_buffer := out, world := w\<rparr>))))"

definition GetSpi ::
  "raw_message \<Rightarrow> int \<Rightarrow> ('w, 'e, 'd) harness \<Rightarrow> fault + (int \<times> raw_message \<times> ('w, 'e, 'd) harness)" where
  "GetSpi msg timeout h =
     (let bs = vdata (output_buffer h) in
      if length bs < 2 then Inr (GENERIC_ERROR, msg, h)
      else (let h = print_at INFO (log_buffer ''SPI_RX: '' bs) h in
        bind_res (read_at 0 bs) (\<lambda>hi.
        bind_res (read_at 1 bs) (\<lambda>lo.
        bind_res (read_between 2 (length bs) bs) (\<lambda>copied.
        bind_res (write_at 0 copied (mdata msg)) (\<lambda>data.
          Inr (NO_ERROR,
               msg\<lparr>mtype := be16_of hi lo, data_len := of_int (int (length bs) - 2), mdata := data\<rparr>,
               h\<lparr>output_buffer := vec_resize 0 (output_buffer h)\<rparr>)))))))"

subsection \<open>What the operations do\<close>

lemma ensure_client_Some [simp]: "hclient h = Some c \<Longrightarrow> ensure_client env cfg h = Inr (c, h)"
  by (simp add: ensure_client_def)

lemma ensure_client_frame:
  "ensure_client env cfg h = Inr (c, h') \<Longrightarrow>
   output_buffer h' = output_buffer h \<and> input_buffer h' = input_buffer h \<and> verbosity h' = verbosity h \<and>
   tty h' = tty h \<and> tty_fd h' = tty_fd h \<and> hclient h' = Some c \<and> cout h' = cout h"
  by (auto simp: ensure_client_def Let_def split: option.splits prod.splits if_splits)

lemma ensure_client_not_oob: "ensure_client env cfg h \<noteq> Inl Out_of_bounds"
  by (auto simp: ensure_client_def Let_def split: option.splits prod.splits)

text \<open>The first use connects or ends the run; later uses find the client.\<close>

lemma ensure_client_idem:
  "ensure_client env cfg h = Inr (c, h') \<Longrightarrow> ensure_client env cfg h' = Inr (c, h')"
  by (drule ensure_client_frame) simp

text \<open>The request that a message becomes.\<close>

definition request :: "raw_message \<Rightarrow> byte list" where
  "request m = be16 (mtype m) @ payload m"

lemma request_buffer:
  assumes "sendable m"
  shows "read_prefix (unat (data_len m)) (mdata m) = Inr (payload m)"
    "write_at 2 (payload m) ((resize_bytes (unat (data_len m) + 2) buf)
       [0 := ucast (drop_bit 8 (mtype m)), 1 := ucast (mtype m)]) = Inr (request m)"
proof -
  show "read_prefix (unat (data_len m)) (mdata m) = Inr (payload m)"
    using assms by (simp add: sendable_def message_wf_def payload_def fault_simps)
  let ?n = "unat (data_len m)"
  obtain a b rest where buf: "resize_bytes (?n + 2) buf = a # b # rest" "length rest = ?n"
  proof -
    have "length (resize_bytes (?n + 2) buf) = Suc (Suc ?n)" by simp
    then obtain a b rest where "resize_bytes (?n + 2) buf = a # b # rest" "length rest = ?n"
      unfolding length_Suc_conv by blast
    then show ?thesis by (rule that)
  qed
  show "write_at 2 (payload m) ((resize_bytes (?n + 2) buf)
       [0 := ucast (drop_bit 8 (mtype m)), 1 := ucast (mtype m)]) = Inr (request m)"
    using length_payload [OF assms] buf
    by (simp add: write_at_def request_def be16_def numeral_2_eq_2)
qed

lemma SendSpi_sendable:
  assumes "sendable m"
  shows "SendSpi env cfg m h =
    bind_res (ensure_client env cfg h) (\<lambda>(c, h).
      let h = print_at INFO (log_buffer ''SPI_TX: '' (request m)) (h\<lparr>input_buffer := request m\<rparr>);
          out = vec_resize (vcap (output_buffer h)) (output_buffer h);
          (st, out, w) = call_app env c APP_ID_PROTOBUF (Param (mtype m)) (request m) (Some out) (world h)
      in Inr (st, h\<lparr>output_buffer := out, world := w\<rparr>))"
  unfolding SendSpi_def Let_def request_buffer [OF assms] bind_res_simps ..

lemma GetSpi_reply:
  assumes "vdata (output_buffer h) = be16 t @ p" "message_wf m" "length p \<le> PROTO_BUFFER_MAX_LEN - 2"
  shows "GetSpi m timeout h =
    Inr (NO_ERROR, \<lparr>mtype = t, data_len = of_nat (length p), mdata = p @ drop (length p) (mdata m)\<rparr>,
         (print_at INFO (log_buffer ''SPI_RX: '' (be16 t @ p)) h)
           \<lparr>output_buffer := vec_resize 0 (output_buffer h)\<rparr>)"
  using assms
  by (simp add: GetSpi_def Let_def be16_def message_wf_def fault_simps PROTO_BUFFER_MAX_LEN_def)

subsection \<open>Exchanges\<close>

text \<open>
  The client library's contract on responses: a reply fits in the capacity of the vector it is
  given, which keeps its capacity.
\<close>

definition replies_fit :: "'w nos \<Rightarrow> bool" where
  "replies_fit env \<longleftrightarrow>
     (\<forall>c app param req v w. case call_app env c app param req (Some v) w of
        (st, v', w') \<Rightarrow> length (vdata v') \<le> vcap v \<and> vcap v' = vcap v)"

lemma replies_fitD:
  "replies_fit env \<Longrightarrow> call_app env c app param req (Some v) w = (st, v', w') \<Longrightarrow>
   length (vdata v') \<le> vcap v \<and> vcap v' = vcap v"
  unfolding replies_fit_def by (metis (mono_tags, lifting) case_prod_conv)

text \<open>The transport's invariant: a receive buffer of exactly the protocol's size.\<close>

definition spi_ready :: "('w, 'e, 'd) harness \<Rightarrow> bool" where
  "spi_ready h \<longleftrightarrow> vcap (output_buffer h) = PROTO_BUFFER_MAX_LEN \<and> vec_wf (output_buffer h)"

lemma SendSpi_safe:
  assumes "replies_fit env" "spi_ready h" "sendable m"
  shows "safe (\<lambda>(st, h'). spi_ready h') (SendSpi env cfg m h)"
  unfolding SendSpi_sendable [OF assms(3)]
proof (rule safe_bind)
  show "safe (\<lambda>(c, h'). output_buffer h' = output_buffer h) (ensure_client env cfg h)"
    using ensure_client_not_oob [of env cfg h] ensure_client_frame [of env cfg h]
    by (cases "ensure_client env cfg h") auto
next
  fix ch :: "client \<times> ('a, 'b, 'c) harness"
  assume "case ch of (c, h') \<Rightarrow> output_buffer h' = output_buffer h"
  then obtain c h1 where ch: "ch = (c, h1)" "output_buffer h1 = output_buffer h" by (cases ch) auto
  let ?out = "vec_resize (vcap (output_buffer h)) (output_buffer h)"
  obtain st v w where call: "call_app env c APP_ID_PROTOBUF (Param (mtype m)) (request m) (Some ?out) (world h1) = (st, v, w)"
    by (cases "call_app env c APP_ID_PROTOBUF (Param (mtype m)) (request m) (Some ?out) (world h1)")
  have "length (vdata v) \<le> vcap ?out \<and> vcap v = vcap ?out"
    by (rule replies_fitD [OF assms(1) call])
  with assms(2) have "spi_ready (h1\<lparr>output_buffer := v, world := w\<rparr>)" for h1 :: "('a, 'b, 'c) harness"
    by (simp add: spi_ready_def vec_wf_def)
  with ch call show "safe (\<lambda>(st, h'). spi_ready h') (case ch of (c, h) \<Rightarrow>
      let h = print_at INFO (log_buffer ''SPI_TX: '' (request m)) (h\<lparr>input_buffer := request m\<rparr>);
          out = vec_resize (vcap (output_buffer h)) (output_buffer h);
          (st, out, w) = call_app env c APP_ID_PROTOBUF (Param (mtype m)) (request m) (Some out) (world h)
      in Inr (st, h\<lparr>output_buffer := out, world := w\<rparr>))"
    by (simp add: Let_def)
qed

lemma GetSpi_cases:
  assumes "message_wf m"
  obtains "vdata (output_buffer h) = []" "GetSpi m timeout h = Inr (GENERIC_ERROR, m, h)"
  | b where "vdata (output_buffer h) = [b]" "GetSpi m timeout h = Inr (GENERIC_ERROR, m, h)"
  | t p h' where "vdata (output_buffer h) = be16 t @ p" "length p \<le> PROTO_BUFFER_MAX_LEN - 2"
      "GetSpi m timeout h =
        Inr (NO_ERROR, \<lparr>mtype = t, data_len = of_nat (length p), mdata = p @ drop (length p) (mdata m)\<rparr>, h')"
      "output_buffer h' = vec_resize 0 (output_buffer h)"
  | "PROTO_BUFFER_MAX_LEN < length (vdata (output_buffer h))" "GetSpi m timeout h = Inl Out_of_bounds"
proof -
  consider "vdata (output_buffer h) = []" | b where "vdata (output_buffer h) = [b]"
    | "2 \<le> length (vdata (output_buffer h))"
    by (cases "vdata (output_buffer h)"; cases "tl (vdata (output_buffer h))") auto
  then show thesis
  proof cases
    case 3
    from wire_form [OF this] obtain t p where bs: "vdata (output_buffer h) = be16 t @ p" .
    show ?thesis
    proof (cases "length p \<le> PROTO_BUFFER_MAX_LEN - 2")
      case True
      show ?thesis by (rule that(3) [OF bs True GetSpi_reply [OF bs assms True]]) simp
    next
      case False
      have "GetSpi m timeout h = Inl Out_of_bounds"
        using False assms by (simp add: GetSpi_def bs Let_def message_wf_def fault_simps)
      with False bs show ?thesis by (intro that(4)) (auto simp: PROTO_BUFFER_MAX_LEN_def)
    qed
  qed (auto simp: GetSpi_def intro: that)
qed

lemma GetSpi_emptied:
  "GetSpi m timeout (h\<lparr>output_buffer := vec_resize 0 v\<rparr>) =
   Inr (GENERIC_ERROR, m, h\<lparr>output_buffer := vec_resize 0 v\<rparr>)"
  by (simp add: GetSpi_def)


lemma GetSpi_safe:
  assumes "spi_ready h" "message_wf m"
  shows "safe (\<lambda>(e, m', h'). spi_ready h' \<and> (sendable m' \<or> m' = m)) (GetSpi m timeout h)"
  using assms
  by (cases rule: GetSpi_cases [OF assms(2), of h timeout])
    (auto simp: spi_ready_def vec_wf_def received_sendable)

definition spi_inv :: "'w nos \<Rightarrow> ('w, 'e, 'd) harness \<Rightarrow> bool" where
  "spi_inv env h \<longleftrightarrow> replies_fit env \<and> spi_ready h"

interpretation spi: transport "SendSpi env cfg" "\<lambda>m. GetSpi m timeout" "spi_inv env"
  for env cfg timeout
proof
  show "safe (\<lambda>(e, s'). spi_inv env s') (SendSpi env cfg m s)"
    if "spi_inv env s" "sendable m" for s :: "('a, 'b, 'c) harness" and m
    using SendSpi_safe [of env s m cfg] that by (auto simp: spi_inv_def elim!: safe_mono)
  show "safe (\<lambda>(e, m', s'). spi_inv env s' \<and> (sendable m' \<or> m' = m)) (GetSpi m timeout s)"
    if "spi_inv env s" "message_wf m" for s :: "('a, 'b, 'c) harness" and m
    using GetSpi_safe [of s m timeout] that by (auto simp: spi_inv_def elim!: safe_mono)
qed

text \<open>A device that answers every request with the request itself, cut to the capacity.\<close>

definition echo_device :: "unit nos" where
  "echo_device = \<lparr>
     client_open = (\<lambda>c w. w), client_close = (\<lambda>c w. w), client_is_open = (\<lambda>c w. True),
     call_app = (\<lambda>c app param req resp w.
        case resp of None \<Rightarrow> (APP_SUCCESS, vec_empty, w)
        | Some v \<Rightarrow> (APP_SUCCESS, v\<lparr>vdata := take (vcap v) req\<rparr>, w)),
     now_ns = (\<lambda>w. (0, w)), sleep_us = (\<lambda>us w. w), stats_size = 0,
     stats_of = (\<lambda>bs. \<lparr>hard_reset_count = 0, time_since_hard_reset = 0, wake_count = 0,
       time_at_last_wake = 0, time_spent_awake = 0, deep_sleep_count = 0,
       time_at_last_deep_sleep = 0, time_spent_in_deep_sleep = 0\<rparr>),
     erase_confirmation = 0, log_error = (\<lambda>line text w. w), report_errno = (\<lambda>text w. w), print_out = (\<lambda>text w. w)\<rparr>"

lemma echo_replies_fit: "replies_fit echo_device"
  by (simp add: replies_fit_def echo_device_def)

definition spi_sample :: "(unit, unit, unit) harness" where
  "spi_sample = (sample_harness () () \<lparr>rx = [], wr = [], clk = [], tx = []\<rparr>)
     \<lparr>output_buffer := \<lparr>vdata = replicate 512 0, vcap = 512\<rparr>, hclient := Some CitadeldProxyClient\<rparr>"

text \<open>C22: under the client library's contract on response sizes, the SPI transport never leaves
  its buffers, whatever is sent, received and sent back, in any order and number, and whatever the
  device answers; every operation that the run reaches returns a code, and the receive buffer keeps
  its size.\<close>

theorem Spi_exchanges_safe:
  assumes "replies_fit env" "spi_ready h" "sendable m" "list_all sends_sendable xs"
  shows "safe (\<lambda>(es, m', h'). spi_ready h' \<and> sendable m' \<and> length es = length xs)
    (exchanges (SendSpi env cfg) (\<lambda>m. GetSpi m timeout) xs m h)"
  using spi.exchanges_safe [of env h m xs cfg timeout] assms
  by (auto simp: spi_inv_def elim!: safe_mono)

theorem Spi_exchanges_safe_witness:
  "safe (\<lambda>(es, m', h'). spi_ready h' \<and> sendable m' \<and> length es = 4)
    (exchanges (SendSpi echo_device uart_config) (\<lambda>m. GetSpi m 0)
      [Get, Send (message_of 7 [1, 2]), Get, Send_back] (message_of 0 []) spi_sample)"
proof -
  have ready: "spi_ready spi_sample"
    by (simp add: spi_ready_def spi_sample_def vec_wf_def PROTO_BUFFER_MAX_LEN_def)
  have "sendable (message_of 0 [])" "list_all sends_sendable [Get, Send (message_of 7 [1, 2]), Get, Send_back]"
    by (simp_all add: message_of_simps PROTO_BUFFER_MAX_LEN_def)
  from Spi_exchanges_safe [OF echo_replies_fit ready this, of uart_config 0] show ?thesis
    by (simp add: numeral_eq_Suc del: exchanges.simps)
qed

lemma one_exchange:
  assumes "hclient h = Some c" "sendable m" "message_wf m0"
    and "call_app env c APP_ID_PROTOBUF (Param (mtype m)) (be16 (mtype m) @ payload m)
           (Some (vec_resize (vcap (output_buffer h)) (output_buffer h))) (world h) =
         (st, \<lparr>vdata = be16 t @ p, vcap = k\<rparr>, w)"
    and "length p \<le> PROTO_BUFFER_MAX_LEN - 2"
  shows "\<exists>h1 m' h2. SendSpi env cfg m h = Inr (st, h1) \<and> world h1 = w \<and>
    GetSpi m0 timeout h1 = Inr (NO_ERROR, m', h2) \<and> mtype m' = t \<and> payload m' = p \<and> sendable m' \<and>
    (\<forall>m'' timeout'. GetSpi m'' timeout' h2 = Inr (GENERIC_ERROR, m'', h2))"
proof -
  let ?h1 = "(print_at INFO (log_buffer ''SPI_TX: '' (request m)) (h\<lparr>input_buffer := request m\<rparr>))
    \<lparr>output_buffer := \<lparr>vdata = be16 t @ p, vcap = k\<rparr>, world := w\<rparr>"
  have send: "SendSpi env cfg m h = Inr (st, ?h1)"
    unfolding SendSpi_sendable [OF assms(2)] using assms(1,4) by (simp add: Let_def request_def)
  have "vdata (output_buffer ?h1) = be16 t @ p" by simp
  note get = GetSpi_reply [OF this assms(3,5), of timeout]
  with send received_sendable [OF assms(5,3)] show ?thesis by (auto simp: GetSpi_emptied)
qed

text \<open>C10: one exchange over SPI: \<open>SendSpi\<close> calls the protobuf application once, with the message
  type and payload as the request, and returns its status; whatever that status is, the next
  \<open>GetSpi\<close> delivers exactly the type and payload of the reply, and every later one reports
  \<open>GENERIC_ERROR\<close> and changes nothing: a reply is delivered once.\<close>

theorem Spi_exchange:
  assumes "hclient h = Some c" "sendable m" "message_wf m0"
    and "call_app env c APP_ID_PROTOBUF (Param (mtype m)) (be16 (mtype m) @ payload m)
           (Some (vec_resize (vcap (output_buffer h)) (output_buffer h))) (world h) =
         (st, \<lparr>vdata = be16 t @ p, vcap = k\<rparr>, w)"
    and "length p \<le> PROTO_BUFFER_MAX_LEN - 2"
  shows "\<exists>h1 m' h2. SendSpi env cfg m h = Inr (st, h1) \<and> world h1 = w \<and>
    GetSpi m0 timeout h1 = Inr (NO_ERROR, m', h2) \<and> mtype m' = t \<and> payload m' = p \<and> sendable m' \<and>
    (\<forall>m'' timeout'. GetSpi m'' timeout' h2 = Inr (GENERIC_ERROR, m'', h2))"
  by (rule one_exchange [OF assms])

theorem Spi_exchange_witness:
  "\<exists>h1 m' h2. SendSpi echo_device uart_config (message_of 7 [1, 2]) spi_sample = Inr (APP_SUCCESS, h1) \<and>
    world h1 = () \<and> GetSpi (message_of 0 []) 0 h1 = Inr (NO_ERROR, m', h2) \<and> mtype m' = 7 \<and>
    payload m' = [1, 2] \<and> sendable m' \<and>
    (\<forall>m'' timeout'. GetSpi m'' timeout' h2 = Inr (GENERIC_ERROR, m'', h2))"
proof -
  have len: "length [1, 2 :: byte] \<le> PROTO_BUFFER_MAX_LEN - 2" "length ([] :: byte list) \<le> PROTO_BUFFER_MAX_LEN - 2"
    by (simp_all add: PROTO_BUFFER_MAX_LEN_def)
  note msg = message_of_simps [OF len(1), of 7] message_of_simps [OF len(2), of 0]
  have client: "hclient spi_sample = Some CitadeldProxyClient" by (simp add: spi_sample_def)
  have call: "call_app echo_device CitadeldProxyClient APP_ID_PROTOBUF (Param (mtype (message_of 7 [1, 2])))
      (be16 (mtype (message_of 7 [1, 2])) @ payload (message_of 7 [1, 2]))
      (Some (vec_resize (vcap (output_buffer spi_sample)) (output_buffer spi_sample))) (world spi_sample) =
    (APP_SUCCESS, \<lparr>vdata = be16 7 @ [1, 2], vcap = 512\<rparr>, ())"
    using msg by (simp add: echo_device_def spi_sample_def vec_resize_def)
  from Spi_exchange [OF client msg(1) sendable_wf [OF msg(4)] call len(1)] show ?thesis .
qed

end
