(* ===== verification/Scripts.thy ===== *)
theory Scripts
  imports GTest
begin

text \<open>
  Scripts: what a test asks of the chip, one step at a time. The steps are those of the test class
  at hand; \<open>takes s w w'\<close> says that the world takes the step \<open>s\<close> as the test wants to see it.
\<close>

fun plays :: "('s \<Rightarrow> 'w \<Rightarrow> 'w \<Rightarrow> bool) \<Rightarrow> 's list \<Rightarrow> 'w \<Rightarrow> 'w \<Rightarrow> bool" where
  "plays takes [] w w' \<longleftrightarrow> w' = w"
| "plays takes (s # ss) w w' \<longleftrightarrow> (\<exists>w1. takes s w w1 \<and> plays takes ss w1 w')"

lemma plays_append:
  "plays takes (ss @ ss') w w' \<longleftrightarrow> (\<exists>w1. plays takes ss w w1 \<and> plays takes ss' w1 w')"
  by (induction ss arbitrary: w) auto

text \<open>A procedure that passes exactly when the world plays a script.\<close>

definition tests :: "('s \<Rightarrow> 'w \<Rightarrow> 'w \<Rightarrow> bool) \<Rightarrow> ('w, unit) proc \<Rightarrow> 's list \<Rightarrow> bool" where
  "tests takes p ss \<longleftrightarrow> records p \<and> (\<forall>w u w'. passed p w u w' \<longleftrightarrow> plays takes ss w w')"

lemma tests_passes: "tests takes p ss \<Longrightarrow> passes p w \<longleftrightarrow> (\<exists>w'. plays takes ss w w')"
  by (simp add: tests_def passes_passed)

lemma testsD:
  assumes "tests takes p ss"
  shows "records p" "passed p w u w' \<longleftrightarrow> plays takes ss w w'"
  using assms by (simp_all add: tests_def)

lemma tests_blockI:
  "tests takes (block []) []"
  "tests takes p ss \<Longrightarrow> tests takes (block ps) ss' \<Longrightarrow> tests takes (block (p # ps)) (ss @ ss')"
  "tests takes p [s] \<Longrightarrow> tests takes (block ps) ss' \<Longrightarrow> tests takes (block (p # ps)) (s # ss')"
proof -
  show "tests takes (block []) []" by (simp add: tests_def passed_basic)
  show block: "tests takes (block (p # ps)) (ss @ ss')"
    if "tests takes p ss" "tests takes (block ps) ss'" for p ps ss ss'
  proof -
    from that have "records p" "records (block ps)" by (simp_all add: tests_def)
    from passed_and_then [OF this] records_and_then [OF this] that show ?thesis
      by (simp add: tests_def plays_append)
  qed
  show "tests takes p [s] \<Longrightarrow> tests takes (block ps) ss' \<Longrightarrow> tests takes (block (p # ps)) (s # ss')"
    using block [of p "[s]" ps ss'] by simp
qed

lemma tests_single: "tests takes p ss \<Longrightarrow> tests takes (block [p]) ss"
  using tests_blockI(2) [OF _ tests_blockI(1)] by fastforce

lemma tests_invoke: "tests takes p ss \<Longrightarrow> tests takes (invoke p) ss"
  by (auto simp: tests_def passed_invoke)

lemma tests_for_each:
  assumes "\<And>x. x \<in> set xs \<Longrightarrow> tests takes (body x) (script x)"
  shows "tests takes (for_each xs body) (concat (map script xs))"
  using assms
proof (induction xs)
  case Nil
  show ?case by (simp add: for_each_def tests_blockI(1) del: block.simps)
next
  case (Cons x xs)
  from tests_blockI(2) [of takes "body x" "script x" "map body xs"] Cons show ?case
    by (simp add: for_each_def del: block.simps)
qed

text \<open>A loop of comparisons of array elements.\<close>

lemma passed_checked_loop:
  "passed (for_each xs (\<lambda>x. and_then (in_bounds (Q x)) (\<lambda>_. ASSERT file line (P x)))) w u w' \<longleftrightarrow>
   (\<forall>x \<in> set xs. Q x \<and> P x) \<and> w' = w"
proof (induction xs)
  case (Cons x xs)
  have "records (for_each xs (\<lambda>x. and_then (in_bounds (Q x)) (\<lambda>_. ASSERT file line (P x))) :: ('a, unit) proc)"
    by (auto intro!: records_intros)
  from passed_and_then [OF _ this, of "and_then (in_bounds (Q x)) (\<lambda>_. ASSERT file line (P x))"] Cons
  show ?case by (auto simp: for_each_def passed_simps)
qed (simp add: for_each_def passed_simps)

text \<open>The verdicts on a list of tests with their scripts.\<close>

lemma verdicts:
  "list_all (\<lambda>(p, ss). tests takes p ss) ps \<Longrightarrow>
   list_all (\<lambda>(p, ss). \<forall>w. passes p w \<longleftrightarrow> (\<exists>w'. plays takes ss w w')) ps"
  by (induction ps) (auto simp: tests_passes)

end
