(* ===== verification/Switch.thy ===== *)
theory Switch
  imports Ahdlc Scripts
begin

text \<open>
  The two procedures of \<open>src/util.cc\<close> that switch the chip between its console and the proto
  API. What the generated protobuf classes contribute is the record \<open>switch_api\<close>: the two
  message ids, the serialized request to revert to the console, and the printed form of a notice.
\<close>

record switch_api =
  CONTROL_REQUEST :: u16
  NOTICE :: u16
  revert_request :: "byte list"
  notice_text :: "byte list \<Rightarrow> string"

subsection \<open>From the console to the proto API\<close>

lemma line_loop_clock:
  "line_loop prev l rs ts = Inr (line', rs', ts') \<Longrightarrow> length ts' < Suc (length ts)"
  by (induction prev l rs ts rule: line_loop.induct) (fastforce split: if_splits list.splits)+

lemma ReadLineUntilBlock_clock:
  assumes "ReadLineUntilBlock h = Inr (line, h')" "ttyState h"
  shows "length (clk (tty h')) < length (clk (tty h))"
  using assms
  by (auto simp: ReadLineUntilBlock_def Let_def bind_res_Inr_iff split: list.splits if_splits
      dest: line_loop_clock)

text \<open>\<open>while (ReadLineUntilBlock() != "> ") {}\<close>, which waits as long as it takes; on a closed
  line, where every read gives the empty string, for ever.\<close>

function await_prompt :: "('w, 'e, 'd) harness \<Rightarrow> fault + ('w, 'e, 'd) harness" where
  "await_prompt h =
     (if \<not> ttyState h then Inl Waiting
      else (case ReadLineUntilBlock h of
          Inl e \<Rightarrow> Inl e
        | Inr (line, h') \<Rightarrow> if line = bytes_of ''> '' then Inr h' else await_prompt h'))"
  by pat_completeness auto
termination
  by (relation "measure (\<lambda>h. length (clk (tty h)))") (auto dest: ReadLineUntilBlock_clock)

declare await_prompt.simps [simp del]

definition SwitchFromConsoleToProtoApi ::
  "config \<Rightarrow> ('w, 'e, 'd) harness \<Rightarrow> fault + (bool \<times> ('w, 'e, 'd) harness)" where
  "SwitchFromConsoleToProtoApi cfg h =
     (let h = print_at INFO (''SwitchFromConsoleToProtoApi() start'' @ [NL]) h in
      if \<not> ttyState h then Inr (False, h)
      else
        bind_res (ReadUntil cfg (BYTE_TIME * 1024) h) (\<lambda>(_, h).
        bind_res (BlockingWrite (bytes_of (''version'' @ [NL])) 1 h) (\<lambda>h.
        bind_res (ReadUntil cfg (BYTE_TIME * 1024) h) (\<lambda>(_, h).
        bind_res (BlockingWrite (bytes_of [NL]) 1 h) (\<lambda>h.
        bind_res (await_prompt h) (\<lambda>h.
        let command = bytes_of (''protoapi uart on 1'' @ [NL]) in
        bind_res (BlockingWrite command (length command) h) (\<lambda>h.
        bind_res (ReadUntil cfg (BYTE_TIME * 1024) h) (\<lambda>(_, h).
        Inr (True, print_at INFO (''SwitchFromConsoleToProtoApi() finish'' @ [NL]) h)))))))))"

text \<open>
  The dialogue, as steps of the line: the harness listens for a given time, says something, or hears
  a line. Listening takes whatever comes in until a reading of the clock shows that the time has
  passed, and no reading before does; saying puts bytes on the line and reads nothing; hearing takes
  exactly the bytes of the line, with a newline at most at its end.
\<close>

datatype line_step = Listens int | Says "byte list" | Hears "byte list"

fun line_takes :: "line_step \<Rightarrow> tty \<Rightarrow> tty \<Rightarrow> bool" where
  "line_takes (Listens limit) t t' \<longleftrightarrow>
     tx t' = tx t \<and> wr t' = wr t \<and> (\<exists>bs. consumes (rx t) bs (rx t')) \<and>
     (\<exists>start early u. clk t = start # early @ u # clk t' \<and> limit \<le> elapsed_us start u \<and>
        list_all (\<lambda>v. elapsed_us start v < limit) early)"
| "line_takes (Says bs) t t' \<longleftrightarrow> tx t' = tx t @ bs \<and> rx t' = rx t \<and> clk t' = clk t"
| "line_takes (Hears bs) t t' \<longleftrightarrow>
     tx t' = tx t \<and> wr t' = wr t \<and> consumes (rx t) bs (rx t') \<and> 10 \<notin> set (butlast bs) \<and>
     (\<exists>used. clk t = used @ clk t')"

lemma ReadUntil_listens:
  assumes "\<not> no_uart cfg" "ttyState h" "ReadUntil cfg limit h = Inr (bs, h')"
  shows "line_takes (Listens limit) (tty h) (tty h') \<and> ttyState h'"
  using ReadUntil_complete [OF assms] ReadUntil_frame [OF assms(3)] assms(2)
  by (auto simp: ttyState_def list_all_iff)

lemma BlockingWrite_says:
  "BlockingWrite data len h = Inr h' \<Longrightarrow> ttyState h \<Longrightarrow>
   line_takes (Says (take len data)) (tty h) (tty h') \<and> ttyState h'"
  by (drule BlockingWrite_sent) (simp add: ttyState_def)

lemma line_loop_clock_used:
  "line_loop prev l rs ts = Inr (line', rs', ts') \<Longrightarrow> \<exists>used. ts = used @ ts'"
proof (induction prev l rs ts rule: line_loop.induct)
  case (3 prev line b rs t ts)
  then have "\<exists>used. ts = used @ ts'" by (auto split: if_splits)
  then show ?case by (metis append_Cons)
next
  case (4 prev line e rs ts)
  then have "(\<exists>used. ts = used @ ts') \<or> (\<exists>t ts1 used. ts = t # ts1 \<and> ts1 = used @ ts')"
    by (auto split: if_splits list.splits)
  then show ?case by (metis append_Cons)
qed auto

lemma ReadLineUntilBlock_hears:
  assumes "ReadLineUntilBlock h = Inr (line, h')" "ttyState h"
  shows "line_takes (Hears line) (tty h) (tty h') \<and> ttyState h'"
proof -
  from assms obtain now ts where clk: "clk (tty h) = now # ts"
    and loop: "line_loop now [] (rx (tty h)) ts = Inr (line, rx (tty h'), clk (tty h'))"
    by (auto simp: ReadLineUntilBlock_def Let_def bind_res_Inr_iff split: list.splits if_splits)
  from line_loop_clock_used [OF loop] obtain used where "clk (tty h) = (now # used) @ clk (tty h')"
    using clk by auto
  with ReadLineUntilBlock_reads [OF assms(1)] ReadLineUntilBlock_frame [OF assms(1)] assms(2) show ?thesis
    by (simp add: ttyState_def)
qed

lemma await_prompt_hears:
  "await_prompt h = Inr h' \<Longrightarrow>
   \<exists>lines. bytes_of ''> '' \<notin> set lines \<and>
     plays line_takes (map Hears lines @ [Hears (bytes_of ''> '')]) (tty h) (tty h') \<and> ttyState h'"
proof (induction h rule: await_prompt.induct)
  case (1 h)
  from "1.prems" obtain line h1 where
    open_line: "ttyState h" and line: "ReadLineUntilBlock h = Inr (line, h1)" and
    rest: "(if line = bytes_of ''> '' then Inr h1 else await_prompt h1) = Inr h'"
    by (auto simp: await_prompt.simps [of h] split: sum.splits if_splits)
  note hears = ReadLineUntilBlock_hears [OF line open_line]
  show ?case
  proof (cases "line = bytes_of ''> ''")
    case True
    with rest hears show ?thesis by (intro exI [of _ "[]"]) (simp del: line_takes.simps)
  next
    case False
    with rest have "await_prompt h1 = Inr h'" by simp
    from "1.IH" [OF _ line refl False this] open_line obtain lines where
      "bytes_of ''> '' \<notin> set lines" "ttyState h'"
      "plays line_takes (map Hears lines @ [Hears (bytes_of ''> '')]) (tty h1) (tty h')" by auto
    with hears False show ?thesis
      by (intro exI [of _ "line # lines"]) (auto simp del: line_takes.simps)
  qed
qed



subsection \<open>From the proto API to the console\<close>

text \<open>The request in the message variable \<open>msg\<close>, whose initial contents are not initialized.\<close>

definition revert_message :: "switch_api \<Rightarrow> raw_message \<Rightarrow> fault + raw_message" where
  "revert_message api msg =
     (let line = revert_request api in
      bind_res (write_at 0 line (mdata msg)) (\<lambda>data.
        Inr (msg\<lparr>mtype := CONTROL_REQUEST api, mdata := data, data_len := of_nat (length line)\<rparr>)))"

text \<open>\<open>out\<close> is \<open>*out_msg\<close>, \<open>None\<close> for a null pointer.\<close>

definition SwitchFromProtoApiToConsole ::
  "('e, 'd) ahdlc \<Rightarrow> switch_api \<Rightarrow> config \<Rightarrow> raw_message \<Rightarrow> raw_message option \<Rightarrow> ('w, 'e, 'd) harness \<Rightarrow>
   fault + (bool \<times> raw_message option \<times> ('w, 'e, 'd) harness)" where
  "SwitchFromProtoApiToConsole ops api cfg msg0 out h =
     (let h = print_at INFO (''SwitchFromProtoApiToConsole() start'' @ [NL]) h in
      bind_res (revert_message api msg0) (\<lambda>msg.
      bind_res (SendAhdlc ops msg h) (\<lambda>(e, h).
        if e \<noteq> NO_ERROR then Inr (False, out, h)
        else bind_res (GetAhdlc ops msg (4096 * BYTE_TIME) h) (\<lambda>(e, msg, h).
          if e = NO_ERROR \<and> mtype msg = NOTICE api then
            (let h = print_at INFO (notice_text api (payload msg) @ [NL]) h in
             bind_res (ReadUntil cfg (BYTE_TIME * 4096) h) (\<lambda>(_, h).
               Inr (True, map_option (\<lambda>_. msg) out,
                    print_at INFO (''SwitchFromProtoApiToConsole() finish'' @ [NL]) h)))
          else Inr (False, out, print_at ERROR (''Receive Error'' @ [NL]) h)))))"

lemma revert_message_ok:
  assumes "message_wf msg" "length (revert_request api) \<le> PROTO_BUFFER_MAX_LEN - 2"
  obtains m where "revert_message api msg = Inr m" "mtype m = CONTROL_REQUEST api"
    "payload m = revert_request api" "sendable m"
proof -
  have "write_at 0 (revert_request api) (mdata msg) =
    Inr (revert_request api @ drop (length (revert_request api)) (mdata msg))"
    using assms by (simp add: fault_simps message_wf_def)
  then have "revert_message api msg = Inr \<lparr>mtype = CONTROL_REQUEST api,
      data_len = of_nat (length (revert_request api)),
      mdata = revert_request api @ drop (length (revert_request api)) (mdata msg)\<rparr>"
    by (simp add: revert_message_def Let_def)
  with received_sendable [OF assms(2,1), of "CONTROL_REQUEST api"] show ?thesis by (intro that) auto
qed

text \<open>C19: the switch back succeeds only when the chip has answered with a notice: success means
  that one frame was written, the encoder's for the revert request, and that the message handed to
  the caller is a notice; on failure the caller's message is left alone.\<close>

theorem SwitchFromProtoApiToConsole_outcome:
  assumes "message_wf msg0" "length (revert_request api) \<le> PROTO_BUFFER_MAX_LEN - 2"
    and "SwitchFromProtoApiToConsole ops api cfg msg0 out h = Inr (res, out', h')"
  shows "(\<not> res \<longrightarrow> out' = out) \<and>
    (res \<longrightarrow> (\<exists>m. mtype m = NOTICE api \<and> out' = map_option (\<lambda>_. m) out) \<and>
      (\<exists>req e. mtype req = CONTROL_REQUEST api \<and> payload req = revert_request api \<and>
         encode_message ops req (encoder h) = Inr (True, e) \<and>
         tx (tty h') = tx (tty h) @ take (frame_index ops e) (frame_buffer ops e)))"
proof -
  let ?h = "print_at INFO (''SwitchFromProtoApiToConsole() start'' @ [NL]) h"
  from revert_message_ok [OF assms(1,2)] obtain req where
    req: "revert_message api msg0 = Inr req" "mtype req = CONTROL_REQUEST api"
      "payload req = revert_request api" "sendable req" .
  from assms(3) req(1) obtain e1 h1 where
    send: "SendAhdlc ops req ?h = Inr (e1, h1)"
    by (auto simp: SwitchFromProtoApiToConsole_def Let_def bind_res_Inr_iff)
  show ?thesis
  proof (cases "res")
    case False
    with assms(3) req(1) send show ?thesis
      by (auto simp: SwitchFromProtoApiToConsole_def Let_def bind_res_Inr_iff split: if_splits)
  next
    case True
    with assms(3) req(1) send obtain m h2 bs h3 where
      e1: "e1 = NO_ERROR" and get: "GetAhdlc ops req (4096 * BYTE_TIME) h1 = Inr (NO_ERROR, m, h2)"
      and m: "mtype m = NOTICE api" "out' = map_option (\<lambda>_. m) out"
      and rd: "ReadUntil cfg (BYTE_TIME * 4096) (print_at INFO (notice_text api (payload m) @ [NL]) h2) = Inr (bs, h3)"
      and h': "tty h' = tty h3"
      by (auto simp: SwitchFromProtoApiToConsole_def Let_def bind_res_Inr_iff split: if_splits)
    obtain e where e: "encode_message ops req (encoder h) = Inr (True, e)"
      "tx (tty h1) = tx (tty h) @ take (frame_index ops e) (frame_buffer ops e)"
      using send e1 by (auto simp: SendAhdlc_def Let_def bind_res_Inr_iff split: if_splits dest!: BlockingWrite_sent)
    have "tx (tty h2) = tx (tty h1)" using get by (rule GetAhdlc_Inr)
    then have "tx (tty h') = tx (tty h1)" using ReadUntil_frame [OF rd] h' by simp
    with m e req True show ?thesis by auto
  qed
qed

theorem SwitchFromProtoApiToConsole_outcome_witness:
  "\<exists>out' h'. SwitchFromProtoApiToConsole flag_ahdlc
      \<lparr>CONTROL_REQUEST = 1, NOTICE = 2, revert_request = [8, 1], notice_text = string_of\<rparr> uart_config
      (message_of 0 []) (Some (message_of 0 []))
      (sample_harness [] ([], False) \<lparr>rx = map Got [0, 2, 65, 66, 67, 68, 0, 126], wr = [Wrote 6],
         clk = [0, 0, 0, 0, 0, 0, 0, 0, 0, 300000000], tx = []\<rparr>) = Inr (True, out', h') \<and>
    (\<exists>m. mtype m = 2 \<and> out' = Some m)"
proof -
  let ?api = "\<lparr>CONTROL_REQUEST = 1, NOTICE = 2, revert_request = [8, 1], notice_text = string_of\<rparr>"
  let ?h = "sample_harness [] ([], False) \<lparr>rx = map Got [0, 2, 65, 66, 67, 68, 0, 126], wr = [Wrote 6],
         clk = [0, 0, 0, 0, 0, 0, 0, 0, 0, 300000000], tx = []\<rparr> :: (unit, byte list, byte list \<times> bool) harness"
  have m0: "message_wf (message_of 0 [])" "length (revert_request ?api) \<le> PROTO_BUFFER_MAX_LEN - 2"
    using message_of_simps [of "[]" 0] by (simp_all add: PROTO_BUFFER_MAX_LEN_def sendable_wf)
  have len: "length [8, 1 :: byte] \<le> PROTO_BUFFER_MAX_LEN - 2" by (simp add: PROTO_BUFFER_MAX_LEN_def)
  have "\<exists>out' h'. SwitchFromProtoApiToConsole flag_ahdlc ?api uart_config (message_of 0 [])
      (Some (message_of 0 [])) ?h = Inr (True, out', h')"
    by (simp add: SwitchFromProtoApiToConsole_def revert_message_def Let_def flag_ahdlc_def message_of_def
        sample_harness_def SendAhdlc_def encode_message_def BlockingWrite_def fault_simps print_at_def
        GetAhdlc_def get_loop.simps frame_end_def ReadUntil_def uart_config_def ttyState_def
        elapsed_us_def signed_divide_int_def BYTE_TIME_def be16_of_def PROTO_BUFFER_MAX_LEN_def)
  then obtain out' h' where run: "SwitchFromProtoApiToConsole flag_ahdlc ?api uart_config (message_of 0 [])
      (Some (message_of 0 [])) ?h = Inr (True, out', h')" by blast
  from SwitchFromProtoApiToConsole_outcome [OF m0 run] run show ?thesis by auto
qed

end
