(* ===== verification/Harness.thy ===== *)
theory Harness
  imports Spi Switch
begin

text \<open>
  \<open>TestHarness\<close> as a whole (\<open>src/util.cc\<close>): the choice of transport in \<open>SendData\<close> and
  \<open>GetData\<close>, the serialization of protobuf messages by \<open>SendProto\<close> and \<open>SendOneofProto\<close>,
  and the life cycle: finding the UART, \<open>Init\<close>, the constructors and the destructor.
\<close>

subsection \<open>Dispatch\<close>

definition UsingSpi :: "config \<Rightarrow> bool" where
  "UsingSpi cfg \<longleftrightarrow> \<not> use_ahdlc cfg"

definition SendData ::
  "'w nos \<Rightarrow> ('e, 'd) ahdlc \<Rightarrow> config \<Rightarrow> raw_message \<Rightarrow> ('w, 'e, 'd) harness \<Rightarrow>
   fault + (int \<times> ('w, 'e, 'd) harness)" where
  "SendData env ops cfg msg h =
     (if no_uart cfg then SendSpi env cfg msg h
      else if use_ahdlc cfg then SendAhdlc ops msg h else SendSpi env cfg msg h)"

definition GetData ::
  "('e, 'd) ahdlc \<Rightarrow> config \<Rightarrow> raw_message \<Rightarrow> int \<Rightarrow> ('w, 'e, 'd) harness \<Rightarrow>
   fault + (int \<times> raw_message \<times> ('w, 'e, 'd) harness)" where
  "GetData ops cfg msg timeout h =
     (if no_uart cfg then GetSpi msg timeout h
      else if use_ahdlc cfg then GetAhdlc ops msg timeout h else GetSpi msg timeout h)"

text \<open>The state that the transport in use needs.\<close>

definition uses_ahdlc :: "config \<Rightarrow> bool" where
  "uses_ahdlc cfg \<longleftrightarrow> \<not> no_uart cfg \<and> use_ahdlc cfg"

definition harness_ready :: "('e, 'd) ahdlc \<Rightarrow> config \<Rightarrow> ('w, 'e, 'd) harness \<Rightarrow> bool" where
  "harness_ready ops cfg h \<longleftrightarrow>
     (if uses_ahdlc cfg then decoder_ok ops (decoder h) \<and> encoder_ok ops (encoder h) else spi_ready h)"

definition harness_inv ::
  "'w nos \<Rightarrow> ('e, 'd) ahdlc \<Rightarrow> config \<Rightarrow> ('w, 'e, 'd) harness \<Rightarrow> bool" where
  "harness_inv env ops cfg h \<longleftrightarrow> replies_fit env \<and> ahdlc_bounded ops \<and> harness_ready ops cfg h"

lemma dispatch:
  "uses_ahdlc cfg \<Longrightarrow> SendData env ops cfg m h = SendAhdlc ops m h"
  "uses_ahdlc cfg \<Longrightarrow> GetData ops cfg m timeout h = GetAhdlc ops m timeout h"
  "\<not> uses_ahdlc cfg \<Longrightarrow> SendData env ops cfg m h = SendSpi env cfg m h"
  "\<not> uses_ahdlc cfg \<Longrightarrow> GetData ops cfg m timeout h = GetSpi m timeout h"
  by (auto simp: uses_ahdlc_def SendData_def GetData_def)

interpretation harness: transport "SendData env ops cfg" "\<lambda>m. GetData ops cfg m timeout"
  "harness_inv env ops cfg" for env ops cfg timeout
proof
  fix h :: "('a, 'b, 'c) harness" and m
  assume inv: "harness_inv env ops cfg h"
  show "safe (\<lambda>(e, s'). harness_inv env ops cfg s') (SendData env ops cfg m h)" if "sendable m"
  proof (cases "uses_ahdlc cfg")
    case True
    with ahdlc.send_safe [of ops h m] inv that show ?thesis
      by (auto simp: dispatch harness_inv_def harness_ready_def ahdlc_inv_def elim!: safe_mono)
  next
    case False
    with spi.send_safe [of env h m cfg] inv that show ?thesis
      by (auto simp: dispatch harness_inv_def harness_ready_def spi_inv_def elim!: safe_mono)
  qed
  show "safe (\<lambda>(e, m', s'). harness_inv env ops cfg s' \<and> (sendable m' \<or> m' = m)) (GetData ops cfg m timeout h)"
    if "message_wf m"
  proof (cases "uses_ahdlc cfg")
    case True
    with ahdlc.get_safe [of ops h m timeout] inv that show ?thesis
      by (auto simp: dispatch harness_inv_def harness_ready_def ahdlc_inv_def elim!: safe_mono)
  next
    case False
    with spi.get_safe [of env h m timeout] inv that show ?thesis
      by (auto simp: dispatch harness_inv_def harness_ready_def spi_inv_def elim!: safe_mono)
  qed
qed

subsection \<open>Protobuf messages\<close>

text \<open>
  What the code uses of a \<open>google::protobuf::Message\<close>: its size, and its serialization into an
  array of a given size, which may fail.
\<close>

record pb_message =
  ByteSize :: int
  SerializeToArray :: "nat \<Rightarrow> byte list option"

text \<open>\<open>msg0\<close> is the local \<open>raw_message\<close>, which is not initialized.\<close>

definition SendProto ::
  "'w nos \<Rightarrow> ('e, 'd) ahdlc \<Rightarrow> config \<Rightarrow> raw_message \<Rightarrow> u16 \<Rightarrow> pb_message \<Rightarrow> ('w, 'e, 'd) harness \<Rightarrow>
   fault + (int \<times> ('w, 'e, 'd) harness)" where
  "SendProto env ops cfg msg0 type message h =
     (let msg = msg0\<lparr>mtype := type\<rparr>; msg_size = ByteSize message in
      if msg_size > int (PROTO_BUFFER_MAX_LEN - 2) then Inr (OVERFLOW_ERROR, h)
      else (let msg = msg\<lparr>data_len := word_of_int msg_size\<rparr> in
        case SerializeToArray message (unat (data_len msg)) of
          None \<Rightarrow> Inr (SERIALIZE_ERROR, h)
        | Some bs \<Rightarrow>
            bind_res (write_at 0 bs (mdata msg)) (\<lambda>data.
              SendData env ops cfg (msg\<lparr>mdata := data\<rparr>) h)))"

definition SendOneofProto ::
  "'w nos \<Rightarrow> ('e, 'd) ahdlc \<Rightarrow> config \<Rightarrow> raw_message \<Rightarrow> u16 \<Rightarrow> u16 \<Rightarrow> pb_message \<Rightarrow>
   ('w, 'e, 'd) harness \<Rightarrow> fault + (int \<times> ('w, 'e, 'd) harness)" where
  "SendOneofProto env ops cfg msg0 type subtype message h =
     (let msg = msg0\<lparr>mtype := type\<rparr>; msg_size = ByteSize message in
      if msg_size + 2 > int PROTO_BUFFER_MAX_LEN then Inr (OVERFLOW_ERROR, h)
      else (let msg = msg\<lparr>mdata := (mdata msg)[0 := ucast (drop_bit 8 subtype), 1 := ucast subtype],
                          data_len := word_of_int (msg_size + 2)\<rparr> in
        case SerializeToArray message (nat msg_size) of
          None \<Rightarrow> Inr (SERIALIZE_ERROR, h)
        | Some bs \<Rightarrow>
            bind_res (write_at 2 bs (mdata msg)) (\<lambda>data.
              SendData env ops cfg (msg\<lparr>mdata := data\<rparr>) h)))"

text \<open>A message whose serialization has the size it announces.\<close>

definition pb_of :: "byte list \<Rightarrow> pb_message" where
  "pb_of bs = \<lparr>ByteSize = int (length bs),
     SerializeToArray = (\<lambda>n. if n < length bs then None else Some bs)\<rparr>"

lemma SendProto_fits:
  assumes "length bs \<le> PROTO_BUFFER_MAX_LEN - 2" "message_wf msg0"
  obtains m where "SendProto env ops cfg msg0 t (pb_of bs) h = SendData env ops cfg m h"
    "mtype m = t" "payload m = bs" "sendable m"
proof -
  have "write_at 0 bs (mdata msg0) = Inr (bs @ drop (length bs) (mdata msg0))"
    using assms by (simp add: fault_simps message_wf_def)
  then have "SendProto env ops cfg msg0 t (pb_of bs) h =
    SendData env ops cfg
      \<lparr>mtype = t, data_len = of_nat (length bs), mdata = bs @ drop (length bs) (mdata msg0)\<rparr> h"
    using assms(1)
    by (cases msg0) (simp add: SendProto_def Let_def pb_of_def unat_of_nat_u16 of_nat_diff)
  with received_sendable [OF assms] show ?thesis by (intro that) auto
qed

lemma SendOneofProto_fits:
  assumes "length bs \<le> PROTO_BUFFER_MAX_LEN - 4" "message_wf msg0"
  obtains m where "SendOneofProto env ops cfg msg0 t sub (pb_of bs) h = SendData env ops cfg m h"
    "mtype m = t" "payload m = be16 sub @ bs" "sendable m"
proof -
  have len: "length (be16 sub @ bs) \<le> PROTO_BUFFER_MAX_LEN - 2"
    using assms(1) by (simp add: PROTO_BUFFER_MAX_LEN_def)
  obtain a b rest where data: "mdata msg0 = a # b # rest"
    using assms(2) by (cases "mdata msg0"; cases "tl (mdata msg0)") (auto simp: message_wf_def PROTO_BUFFER_MAX_LEN_def)
  let ?data = "(mdata msg0)[0 := ucast (drop_bit 8 sub), Suc 0 := ucast sub]"
  have "write_at 2 bs ?data = Inr ((be16 sub @ bs) @ drop (length (be16 sub @ bs)) (mdata msg0))"
    using assms len data by (simp add: write_at_def message_wf_def be16_def numeral_2_eq_2)
  then have "SendOneofProto env ops cfg msg0 t sub (pb_of bs) h =
    SendData env ops cfg
      \<lparr>mtype = t, data_len = of_nat (length (be16 sub @ bs)),
       mdata = (be16 sub @ bs) @ drop (length (be16 sub @ bs)) (mdata msg0)\<rparr> h"
    using len by (cases msg0) (simp add: SendOneofProto_def Let_def pb_of_def PROTO_BUFFER_MAX_LEN_def add.commute)
  with received_sendable [OF len assms(2), of t] show ?thesis by (intro that) auto
qed

text \<open>\<open>SendProto\<close> sends every message that fits in the buffer, as it was serialized and with
  its type, and refuses every longer one with \<open>OVERFLOW_ERROR\<close>, touching nothing.\<close>

theorem SendProto_limits:
  assumes "message_wf msg0"
  shows "(510 < length bs \<longrightarrow> SendProto env ops cfg msg0 t (pb_of bs) h = Inr (OVERFLOW_ERROR, h)) \<and>
    (length bs \<le> 510 \<longrightarrow> (\<exists>m. SendProto env ops cfg msg0 t (pb_of bs) h = SendData env ops cfg m h \<and>
       mtype m = t \<and> payload m = bs \<and> sendable m))"
proof -
  have "SendProto env ops cfg msg0 t (pb_of bs) h = Inr (OVERFLOW_ERROR, h)" if "510 < length bs"
    using that by (simp add: SendProto_def Let_def pb_of_def PROTO_BUFFER_MAX_LEN_def)
  moreover have "\<exists>m. SendProto env ops cfg msg0 t (pb_of bs) h = SendData env ops cfg m h \<and>
       mtype m = t \<and> payload m = bs \<and> sendable m" if "length bs \<le> 510"
  proof -
    have "length bs \<le> PROTO_BUFFER_MAX_LEN - 2" using that by (simp add: PROTO_BUFFER_MAX_LEN_def)
    from SendProto_fits [OF this assms, of env ops cfg t h] show ?thesis by metis
  qed
  ultimately show ?thesis by blast
qed

text \<open>C2: the size check of \<open>SendOneofProto\<close> is too weak by two: the subtype takes two bytes of
  the payload, so a message of 509 or 510 bytes passes the check and is serialized past the end of
  the array; up to 508 bytes the message is sent with its subtype in front, and above 510 refused.\<close>

theorem SendOneofProto_limits:
  assumes "message_wf msg0"
  shows "(510 < length bs \<longrightarrow> SendOneofProto env ops cfg msg0 t sub (pb_of bs) h = Inr (OVERFLOW_ERROR, h)) \<and>
    (length bs \<in> {509, 510} \<longrightarrow> SendOneofProto env ops cfg msg0 t sub (pb_of bs) h = Inl Out_of_bounds) \<and>
    (length bs \<le> 508 \<longrightarrow> (\<exists>m. SendOneofProto env ops cfg msg0 t sub (pb_of bs) h = SendData env ops cfg m h \<and>
       mtype m = t \<and> payload m = be16 sub @ bs \<and> sendable m))"
proof (intro conjI impI)
  assume "510 < length bs"
  then show "SendOneofProto env ops cfg msg0 t sub (pb_of bs) h = Inr (OVERFLOW_ERROR, h)"
    by (simp add: SendOneofProto_def Let_def pb_of_def PROTO_BUFFER_MAX_LEN_def)
next
  assume "length bs \<in> {509, 510}"
  with assms show "SendOneofProto env ops cfg msg0 t sub (pb_of bs) h = Inl Out_of_bounds"
    by (auto simp: SendOneofProto_def Let_def pb_of_def PROTO_BUFFER_MAX_LEN_def message_wf_def write_at_def)
next
  assume "length bs \<le> 508"
  then have "length bs \<le> PROTO_BUFFER_MAX_LEN - 4" by (simp add: PROTO_BUFFER_MAX_LEN_def)
  from SendOneofProto_fits [OF this assms, of env ops cfg t sub h]
  show "\<exists>m. SendOneofProto env ops cfg msg0 t sub (pb_of bs) h = SendData env ops cfg m h \<and>
       mtype m = t \<and> payload m = be16 sub @ bs \<and> sendable m" by metis
qed

theorem SendProto_limits_witness:
  "\<exists>m. SendProto echo_device flag_ahdlc uart_config (message_of 0 []) 7 (pb_of [1, 2, 3]) (ahdlc_sample [] []) =
       SendData echo_device flag_ahdlc uart_config m (ahdlc_sample [] []) \<and>
     mtype m = 7 \<and> payload m = [1, 2, 3] \<and> sendable m"
proof -
  have "message_wf (message_of 0 [])" using message_of_simps [of "[]" 0] by (simp add: sendable_wf)
  from SendProto_limits [OF this, of "[1, 2, 3]" echo_device flag_ahdlc uart_config 7 "ahdlc_sample [] []"]
  show ?thesis by simp
qed

theorem SendOneofProto_limits_witness:
  "SendOneofProto echo_device flag_ahdlc uart_config (message_of 0 []) 7 1 (pb_of (replicate 509 5))
     (ahdlc_sample [] []) = Inl Out_of_bounds"
proof -
  have "message_wf (message_of 0 [])" using message_of_simps [of "[]" 0] by (simp add: sendable_wf)
  from SendOneofProto_limits [OF this, of "replicate 509 5"] show ?thesis by simp
qed

subsection \<open>Finding the UART\<close>

abbreviation uart_prefix :: string where
  "uart_prefix \<equiv> ''ttyUltraTarget_''"

definition is_uart :: "string \<Rightarrow> bool" where
  "is_uart n \<longleftrightarrow> take 15 n = uart_prefix"

text \<open>
  \<open>dir\<close> holds the names in \<open>/dev/\<close> in the order of \<open>readdir\<close>, \<open>None\<close> when \<open>opendir\<close>
  fails. The result is the path, the new value of the serial number flag, and what is printed.
\<close>

definition find_uart ::
  "config \<Rightarrow> string list option \<Rightarrow> string \<Rightarrow> int \<Rightarrow> string \<times> string \<times> string" where
  "find_uart cfg dir serial v =
     (case dir of
        None \<Rightarrow> ('''', serial, '''')
      | Some names \<Rightarrow>
          (let (manual_serial_no, serial) = GetCitadelUSBSerialNo (android cfg) (citadel_device cfg) serial;
               path =
                 (if manual_serial_no = '''' then
                    (case find is_uart names of
                       None \<Rightarrow> ''''
                     | Some n \<Rightarrow> ''/dev/'' @ n)
                  else ''/dev/'' @ uart_prefix @ manual_serial_no)
           in (path, serial,
               if INFO \<le> v then
                 (if path = '''' then ''UltraDebug UART not found'' @ [NL] else ''USING: '' @ path @ [NL])
               else '''')))"

text \<open>A serial number that is given, by the flag or else by the environment, decides the path
  without a look at the directory's entries; without one the path is that of the first entry with
  the UART's prefix, and empty when there is none.\<close>

theorem find_uart_choice:
  assumes "find_uart cfg (Some names) serial v = (path, serial', out)" "\<not> android cfg"
  shows "serial' = (if serial \<noteq> '''' then serial else (case citadel_device cfg of None \<Rightarrow> '''' | Some d \<Rightarrow> d)) \<and>
    (serial' \<noteq> '''' \<longrightarrow> path = ''/dev/ttyUltraTarget_'' @ serial') \<and>
    (serial' = '''' \<longrightarrow>
       (path = '''' \<and> (\<forall>n \<in> set names. \<not> is_uart n)) \<or>
       (\<exists>i < length names. is_uart (names ! i) \<and> path = ''/dev/'' @ names ! i \<and> (\<forall>j < i. \<not> is_uart (names ! j))))"
proof -
  have serial: "serial' = (if serial \<noteq> '''' then serial else (case citadel_device cfg of None \<Rightarrow> '''' | Some d \<Rightarrow> d))"
    and path: "path = (if serial' = '''' then (case find is_uart names of None \<Rightarrow> '''' | Some n \<Rightarrow> ''/dev/'' @ n)
      else ''/dev/'' @ uart_prefix @ serial')"
    using assms by (auto simp: find_uart_def Let_def GetCitadelUSBSerialNo_def split: if_splits option.splits)
  have "(path = '''' \<and> (\<forall>n \<in> set names. \<not> is_uart n)) \<or>
       (\<exists>i < length names. is_uart (names ! i) \<and> path = ''/dev/'' @ names ! i \<and> (\<forall>j < i. \<not> is_uart (names ! j)))"
    if "serial' = ''''"
  proof (cases "find is_uart names")
    case None
    with path that show ?thesis by (simp add: find_None_iff)
  next
    case (Some n)
    with path that have "path = ''/dev/'' @ n" by simp
    moreover from Some obtain i where "i < length names" "is_uart (names ! i)" "n = names ! i"
      "\<forall>j < i. \<not> is_uart (names ! j)" unfolding find_Some_iff by blast
    ultimately show ?thesis by blast
  qed
  with serial path show ?thesis by auto
qed

theorem find_uart_choice_witness:
  "find_uart uart_config (Some [''tty0'', ''ttyUltraTarget_X1'', ''ttyUltraTarget_X2'']) '''' 0 =
     (''/dev/ttyUltraTarget_X1'', '''', '''') \<and>
   (\<exists>i. is_uart ([''tty0'', ''ttyUltraTarget_X1'', ''ttyUltraTarget_X2''] ! i) \<and>
      ''/dev/ttyUltraTarget_X1'' = ''/dev/'' @ [''tty0'', ''ttyUltraTarget_X1'', ''ttyUltraTarget_X2''] ! i)"
proof -
  have run: "find_uart uart_config (Some [''tty0'', ''ttyUltraTarget_X1'', ''ttyUltraTarget_X2'']) '''' 0 =
     (''/dev/ttyUltraTarget_X1'', '''', '''')"
    by (simp add: find_uart_def Let_def GetCitadelUSBSerialNo_def uart_config_def is_uart_def)
  have "\<not> android uart_config" by (simp add: uart_config_def)
  from find_uart_choice [OF run this] run show ?thesis by blast
qed

subsection \<open>\<open>Init\<close>\<close>

text \<open>What the operating system answers: the descriptor and \<open>errno\<close> of \<open>open\<close>, and the results of
  the terminal functions (\<open>None\<close> and \<open>False\<close> for failure).\<close>

record os =
  open_tty :: "string \<Rightarrow> int \<times> int"
  isatty :: "int \<Rightarrow> bool"
  tcgetattr :: "int \<Rightarrow> termios option"
  cfsetospeed :: "u32 \<Rightarrow> termios \<Rightarrow> termios option"
  cfsetispeed :: "u32 \<Rightarrow> termios \<Rightarrow> termios option"
  tcsetattr :: "int \<Rightarrow> termios \<Rightarrow> bool"

text \<open>
  The constants of Linux' \<open><termios.h>\<close>. \<open>input_flags\<close> is
  \<open>IXON | ISTRIP | INPCK | PARMRK | INLCR | ICRNL | BRKINT | IGNBRK\<close>, \<open>local_flags\<close> is
  \<open>ECHO | ECHONL | ICANON | IEXTEN | ISIG\<close>.
\<close>

abbreviation B115200 :: u32 where "B115200 \<equiv> 0x1002"
abbreviation VTIME :: nat where "VTIME \<equiv> 5"
abbreviation VMIN :: nat where "VMIN \<equiv> 6"
abbreviation input_flags :: u32 where
  "input_flags \<equiv> 0x400 OR 0x20 OR 0x10 OR 0x8 OR 0x40 OR 0x100 OR 0x2 OR 0x1"
abbreviation local_flags :: u32 where
  "local_flags \<equiv> 0x8 OR 0x40 OR 0x2 OR 0x8000 OR 0x1"
abbreviation CSIZE :: u32 where "CSIZE \<equiv> 0x30"
abbreviation PARENB :: u32 where "PARENB \<equiv> 0x100"
abbreviation CS8 :: u32 where "CS8 \<equiv> 0x30"

definition raw_mode :: "termios \<Rightarrow> termios" where
  "raw_mode t =
     (let t = t\<lparr>c_cc := (c_cc t)[VMIN := 0, VTIME := 0]\<rparr>;
          t = t\<lparr>c_iflag := c_iflag t AND NOT input_flags\<rparr>;
          t = t\<lparr>c_iflag := 0\<rparr>;
          t = t\<lparr>c_oflag := 0\<rparr>;
          t = t\<lparr>c_lflag := c_lflag t AND NOT local_flags\<rparr>
      in t\<lparr>c_cflag := (c_cflag t AND NOT (CSIZE OR PARENB)) OR CS8\<rparr>)"

definition init_ahdlc ::
  "('e, 'd) ahdlc \<Rightarrow> ('w, 'e, 'd) harness \<Rightarrow> fault + ('w, 'e, 'd) harness" where
  "init_ahdlc ops h =
     (let (r, e) = ahdlcEncoderInit ops (enc_attach ops (vdata (output_buffer h)) (encoder h)) in
      if r \<noteq> AHDLC_OK then Inl (Exit_failure ''ahdlcEncoderInit()'')
      else (let (r, d) = AhdlcDecoderInit ops (dec_attach ops (input_buffer h) (decoder h)) in
        if r \<noteq> AHDLC_OK then Inl (Exit_failure ''AhdlcDecoderInit()'')
        else Inr (h\<lparr>encoder := e, decoder := d\<rparr>)))"

definition init_uart :: "os \<Rightarrow> string \<Rightarrow> ('w, 'e, 'd) harness \<Rightarrow> fault + ('w, 'e, 'd) harness" where
  "init_uart sys path h =
     (let (fd, errno) = open_tty sys path; h = h\<lparr>tty_fd := fd\<rparr> in
      if errno \<noteq> 0
      then Inl (Exit_failure ''Cannot open debug UART to Citadel chip. Is UltraDebug board connected?'')
      else if \<not> isatty sys fd then Inl (Exit_failure ''Path is not a tty'')
      else (case tcgetattr sys fd of
        None \<Rightarrow> Inl (Exit_failure '''')
      | Some t \<Rightarrow>
      case cfsetospeed sys B115200 t of
        None \<Rightarrow> Inl (Exit_failure '''')
      | Some t \<Rightarrow>
      case cfsetispeed sys B115200 t of
        None \<Rightarrow> Inl (Exit_failure '''')
      | Some t \<Rightarrow>
          (let t = raw_mode t in
           if \<not> tcsetattr sys fd t then Inl (Exit_failure '''')
           else Inr (h\<lparr>tty_state := t\<rparr>))))"

text \<open>The thread that is started here is \<open>uart_worker\<close>, which runs beside what follows.\<close>

definition Init ::
  "os \<Rightarrow> ('e, 'd) ahdlc \<Rightarrow> config \<Rightarrow> string \<Rightarrow> ('w, 'e, 'd) harness \<Rightarrow> fault + ('w, 'e, 'd) harness" where
  "Init sys ops cfg path h =
     (let h = print_at INFO (''init() start'' @ [NL]) h in
      bind_res
        (if no_uart cfg then Inr h
         else bind_res (if use_ahdlc cfg then init_ahdlc ops h else Inr h) (init_uart sys path))
        (\<lambda>h. let h = print_at INFO (''init() finish'' @ [NL]) h in
             Inr (if print_uart cfg then h\<lparr>print_uart_worker := True\<rparr> else h)))"

text \<open>The members that the constructors initialize; the rest is left as it was.\<close>

definition construct :: "int \<Rightarrow> ('w, 'e, 'd) harness \<Rightarrow> ('w, 'e, 'd) harness" where
  "construct v h = h\<lparr>verbosity := v,
     output_buffer := \<lparr>vdata = replicate PROTO_BUFFER_MAX_LEN 0, vcap = PROTO_BUFFER_MAX_LEN\<rparr>,
     input_buffer := replicate PROTO_BUFFER_MAX_LEN 0, tty_fd := -1, print_uart_worker := False,
     hclient := None\<rparr>"

definition TestHarness ::
  "os \<Rightarrow> ('e, 'd) ahdlc \<Rightarrow> config \<Rightarrow> string list option \<Rightarrow> ('w, 'e, 'd) harness \<Rightarrow>
   fault + ('w, 'e, 'd) harness" where
  "TestHarness sys ops cfg dir h0 =
     (let v = GetVerbosityFromFlag (android cfg) (verbosity_flag cfg); h = construct v h0 in
      if no_uart cfg then Init sys ops cfg '''' h
      else (let (path, serial, out) = find_uart cfg dir (serial_flag h) v in
        Init sys ops cfg path (h\<lparr>serial_flag := serial, cout := cout h @ out\<rparr>)))"

definition TestHarness_path ::
  "os \<Rightarrow> ('e, 'd) ahdlc \<Rightarrow> config \<Rightarrow> string \<Rightarrow> ('w, 'e, 'd) harness \<Rightarrow> fault + ('w, 'e, 'd) harness" where
  "TestHarness_path sys ops cfg path h0 = Init sys ops cfg path (construct ERROR h0)"

text \<open>
  The destructor: it closes the line, which is what the worker thread waits for, joins the thread
  (on a UART build), and closes the client.
\<close>

definition destruct :: "'w nos \<Rightarrow> config \<Rightarrow> ('w, 'e, 'd) harness \<Rightarrow> ('w, 'e, 'd) harness" where
  "destruct env cfg h =
     (let h = (if no_uart cfg then h
               else (let h = print_at INFO (''CLOSING TEST HARNESS'' @ [NL]) h;
                         h = (if ttyState h then h\<lparr>tty_fd := -1\<rparr> else h)
                     in if print_uart_worker h then h\<lparr>print_uart_worker := False\<rparr> else h))
      in case hclient h of
           None \<Rightarrow> h
         | Some c \<Rightarrow> h\<lparr>hclient := None, world := client_close env c (world h)\<rparr>)"

subsection \<open>What a constructed harness guarantees\<close>

lemma replaced_bits:
  fixes x m k p :: "'a::len word"
  assumes "p AND m = p"
  shows "((x AND NOT m) OR k) AND p = k AND p"
proof (rule bit_word_eqI)
  fix n
  have "bit p n \<Longrightarrow> bit m n" using assms by (metis bit_and_iff)
  then show "bit (((x AND NOT m) OR k) AND p) n = bit (k AND p) n"
    by (auto simp: bit_simps dest: bit_imp_le_length)
qed

lemma raw_mode_flags:
  "c_iflag (raw_mode t) = 0" "c_oflag (raw_mode t) = 0"
  "c_lflag (raw_mode t) = c_lflag t AND NOT local_flags"
  "c_lflag (raw_mode t) AND local_flags = 0"
  "c_cflag (raw_mode t) AND CSIZE = CS8" "c_cflag (raw_mode t) AND PARENB = 0"
  "length (c_cc (raw_mode t)) = length (c_cc t)"
  "VMIN < length (c_cc t) \<Longrightarrow> c_cc (raw_mode t) ! VMIN = 0 \<and> c_cc (raw_mode t) ! VTIME = 0"
  "speeds (raw_mode t) = speeds t"
proof -
  show "c_lflag (raw_mode t) AND local_flags = 0"
    using replaced_bits [of local_flags local_flags "c_lflag t" 0] by (simp add: raw_mode_def Let_def)
  show "c_cflag (raw_mode t) AND CSIZE = CS8"
    using replaced_bits [of CSIZE "CSIZE OR PARENB" "c_cflag t" CS8] by (simp add: raw_mode_def Let_def)
  show "c_cflag (raw_mode t) AND PARENB = 0"
    using replaced_bits [of PARENB "CSIZE OR PARENB" "c_cflag t" CS8] by (simp add: raw_mode_def Let_def)
qed (auto simp: raw_mode_def Let_def)

lemma init_uart_Inr:
  assumes "init_uart sys path h = Inr h'"
  obtains fd t0 t1 t2 where "open_tty sys path = (fd, 0)" "isatty sys fd" "tcgetattr sys fd = Some t0"
    "cfsetospeed sys B115200 t0 = Some t1" "cfsetispeed sys B115200 t1 = Some t2"
    "tcsetattr sys fd (raw_mode t2)" "h' = h\<lparr>tty_fd := fd, tty_state := raw_mode t2\<rparr>"
  using assms
  by (auto simp: init_uart_def Let_def split: prod.splits if_splits option.splits)

lemma Init_line:
  fixes h h' :: "('w, 'e, 'd) harness"
  assumes "\<not> no_uart cfg" "Init sys ops cfg path h = Inr h'"
  obtains h1 h2 :: "('w, 'e, 'd) harness" where "init_uart sys path h1 = Inr h2"
    "tty_fd h' = tty_fd h2" "tty_state h' = tty_state h2"
  using assms by (auto simp: Init_def Let_def bind_res_Inr_iff split: if_splits)

lemma init_uart_buffers:
  "init_uart sys path h = Inr h' \<Longrightarrow>
   output_buffer h' = output_buffer h \<and> encoder h' = encoder h \<and> decoder h' = decoder h"
  by (erule init_uart_Inr) simp

text \<open>When \<open>Init\<close> returns on a UART build, the line is a terminal in raw mode at 115200 baud:
  no translation of input or output, no echo, no line editing and no signals, eight data bits
  without parity, reads that never wait; these settings have been accepted by the system, and the
  remaining local flags are those the line had.\<close>

theorem Init_raw_line:
  fixes h h' :: "('w, 'e, 'd) harness"
  assumes "\<not> no_uart cfg" "Init sys ops cfg path h = Inr h'"
  shows "isatty sys (tty_fd h') \<and> tcsetattr sys (tty_fd h') (tty_state h') \<and>
    c_iflag (tty_state h') = 0 \<and> c_oflag (tty_state h') = 0 \<and>
    c_lflag (tty_state h') AND local_flags = 0 \<and>
    c_cflag (tty_state h') AND CSIZE = CS8 \<and> c_cflag (tty_state h') AND PARENB = 0 \<and>
    (VMIN < length (c_cc (tty_state h')) \<longrightarrow> c_cc (tty_state h') ! VMIN = 0 \<and> c_cc (tty_state h') ! VTIME = 0) \<and>
    (\<exists>t0 t1 t2. tcgetattr sys (tty_fd h') = Some t0 \<and> cfsetospeed sys B115200 t0 = Some t1 \<and>
       cfsetispeed sys B115200 t1 = Some t2 \<and> speeds (tty_state h') = speeds t2 \<and>
       c_lflag (tty_state h') = c_lflag t2 AND NOT local_flags)"
proof -
  from Init_line [OF assms] obtain h1 h2 :: "('w, 'e, 'd) harness" where u: "init_uart sys path h1 = Inr h2"
    and h': "tty_fd h' = tty_fd h2" "tty_state h' = tty_state h2" .
  from u obtain fd t0 t1 t2 where "isatty sys fd" "tcgetattr sys fd = Some t0"
    "cfsetospeed sys B115200 t0 = Some t1" "cfsetispeed sys B115200 t1 = Some t2"
    "tcsetattr sys fd (raw_mode t2)" "h2 = h1\<lparr>tty_fd := fd, tty_state := raw_mode t2\<rparr>"
    by (rule init_uart_Inr)
  then show ?thesis using h' raw_mode_flags [of t2] by auto
qed

definition linux_sample :: os where
  "linux_sample = \<lparr>open_tty = (\<lambda>p. (5, 0)), isatty = (\<lambda>fd. fd = 5),
     tcgetattr = (\<lambda>fd. Some \<lparr>c_iflag = 0x500, c_oflag = 5, c_cflag = 0xBF, c_lflag = 0x8A3B,
        c_cc = [3, 28, 127, 21, 4, 0, 1, 0, 17, 19], speeds = (15, 15)\<rparr>),
     cfsetospeed = (\<lambda>v t. Some (t\<lparr>speeds := (fst (speeds t), v)\<rparr>)),
     cfsetispeed = (\<lambda>v t. Some (t\<lparr>speeds := (v, snd (speeds t))\<rparr>)),
     tcsetattr = (\<lambda>fd t. fd = 5)\<rparr>"

theorem Init_raw_line_witness:
  "\<exists>h'. Init linux_sample flag_ahdlc uart_config ''/dev/ttyUltraTarget_X1'' (ahdlc_sample [] []) = Inr h' \<and>
     c_lflag (tty_state h') AND local_flags = 0 \<and> c_cflag (tty_state h') AND CSIZE = CS8 \<and>
     tcsetattr linux_sample (tty_fd h') (tty_state h')"
proof -
  have uart: "\<not> no_uart uart_config" by (simp add: uart_config_def)
  have "\<exists>h'. Init linux_sample flag_ahdlc uart_config ''/dev/ttyUltraTarget_X1'' (ahdlc_sample [] []) = Inr h'"
    by (simp add: Init_def Let_def uart_config_def init_ahdlc_def flag_ahdlc_def init_uart_def linux_sample_def)
  then obtain h' where
    "Init linux_sample flag_ahdlc uart_config ''/dev/ttyUltraTarget_X1'' (ahdlc_sample [] []) = Inr h'" by blast
  with Init_raw_line [OF uart this] show ?thesis by blast
qed

text \<open>The frame library's contract on initialization with buffers of the protocol's size.\<close>

definition ahdlc_inits :: "('e, 'd) ahdlc \<Rightarrow> bool" where
  "ahdlc_inits ops \<longleftrightarrow> (\<forall>bs. length bs = PROTO_BUFFER_MAX_LEN \<longrightarrow>
     (\<forall>e. encoder_ok ops (snd (ahdlcEncoderInit ops (enc_attach ops bs e)))) \<and>
     (\<forall>d. decoder_ok ops (snd (AhdlcDecoderInit ops (dec_attach ops bs d)))))"

lemma ahdlc_initsD:
  assumes "ahdlc_inits ops" "length bs = PROTO_BUFFER_MAX_LEN"
  shows "ahdlcEncoderInit ops (enc_attach ops bs e) = (r, e') \<Longrightarrow> encoder_ok ops e'"
    and "AhdlcDecoderInit ops (dec_attach ops bs d) = (r, d') \<Longrightarrow> decoder_ok ops d'"
  using assms unfolding ahdlc_inits_def by (metis snd_conv)+

lemma Init_ready:
  fixes h h0 :: "('w, 'e, 'd) harness"
  assumes "ahdlc_inits ops" "Init sys ops cfg path (construct v h0\<lparr>serial_flag := s, cout := out\<rparr>) = Inr h"
  shows "harness_ready ops cfg h"
proof -
  let ?h = "print_at INFO (''init() start'' @ [NL]) (construct v h0\<lparr>serial_flag := s, cout := out\<rparr>)"
  have ob: "output_buffer ?h = \<lparr>vdata = replicate PROTO_BUFFER_MAX_LEN 0, vcap = PROTO_BUFFER_MAX_LEN\<rparr>"
    "length (vdata (output_buffer ?h)) = PROTO_BUFFER_MAX_LEN" "length (input_buffer ?h) = PROTO_BUFFER_MAX_LEN"
    by (simp_all add: construct_def)
  have bufs: "length (vdata (output_buffer (construct v h0))) = PROTO_BUFFER_MAX_LEN"
    "length (input_buffer (construct v h0)) = PROTO_BUFFER_MAX_LEN"
    by (simp_all add: construct_def)
  have spi: "spi_ready h'" if "output_buffer h' = output_buffer ?h" for h' :: "('w, 'e, 'd) harness"
    using that ob(1) by (simp add: spi_ready_def vec_wf_def)
  show ?thesis
  proof (cases "uses_ahdlc cfg")
    case True
    with assms(2) obtain h1 h2 where i: "init_ahdlc ops ?h = Inr h1" "init_uart sys path h1 = Inr h2"
      and h: "encoder h = encoder h2" "decoder h = decoder h2"
      by (auto simp: Init_def Let_def bind_res_Inr_iff uses_ahdlc_def split: if_splits)
    from i(1) have "encoder_ok ops (encoder h1)" "decoder_ok ops (decoder h1)"
      by (auto simp: init_ahdlc_def Let_def split: prod.splits if_splits
          dest: ahdlc_initsD(1) [OF assms(1) bufs(1)] ahdlc_initsD(2) [OF assms(1) bufs(2)])
    with init_uart_buffers [OF i(2)] h True show ?thesis by (simp add: harness_ready_def)
  next
    case False
    with assms(2) have "output_buffer h = output_buffer ?h"
      by (auto simp: Init_def Let_def bind_res_Inr_iff uses_ahdlc_def split: if_splits
          dest!: init_uart_buffers)
    with spi False show ?thesis by (simp add: harness_ready_def)
  qed
qed

lemma TestHarness_ready:
  assumes "ahdlc_inits ops" "TestHarness sys ops cfg dir h0 = Inr h"
  shows "harness_ready ops cfg h"
proof (cases "no_uart cfg")
  case True
  let ?v = "GetVerbosityFromFlag (android cfg) (verbosity_flag cfg)"
  have "Init sys ops cfg '''' (construct ?v h0\<lparr>serial_flag := serial_flag h0, cout := cout h0\<rparr>) = Inr h"
    using assms(2) True by (simp add: TestHarness_def Let_def construct_def)
  then show ?thesis by (rule Init_ready [OF assms(1)])
next
  case False
  with assms(2) show ?thesis
    by (auto simp: TestHarness_def Let_def split: prod.splits elim: Init_ready [OF assms(1)])
qed

text \<open>A harness that the constructor returns can be used at once, with either transport: under
  the contracts of the client library and of the frame library, no sequence of \<open>SendData\<close> and
  \<open>GetData\<close> calls, sending back what was received included, leaves a buffer.\<close>

theorem TestHarness_session_safe:
  assumes "replies_fit env" "ahdlc_bounded ops" "ahdlc_inits ops"
    and "TestHarness sys ops cfg dir h0 = Inr h"
    and "sendable m" "list_all sends_sendable xs"
  shows "safe (\<lambda>(es, m', h'). sendable m' \<and> length es = length xs)
    (exchanges (SendData env ops cfg) (\<lambda>m. GetData ops cfg m timeout) xs m h)"
proof -
  have "harness_inv env ops cfg h"
    using TestHarness_ready [OF assms(3,4)] assms(1,2) by (simp add: harness_inv_def)
  from harness.exchanges_safe [OF this assms(5,6), of timeout] show ?thesis
    by (rule safe_mono) auto
qed

lemma flag_ahdlc_contracts: "ahdlc_bounded flag_ahdlc" "ahdlc_inits flag_ahdlc"
  by (auto simp: ahdlc_bounded_def ahdlc_inits_def decoder_ok_def encoder_ok_def flag_ahdlc_def
      PROTO_BUFFER_MAX_LEN_def)

theorem TestHarness_session_safe_witness:
  "\<exists>h. TestHarness linux_sample flag_ahdlc uart_config (Some [''ttyUltraTarget_X1'']) (ahdlc_sample [] []) = Inr h \<and>
     safe (\<lambda>(es, m', h'). sendable m' \<and> length es = length [Send (message_of 7 [1, 2]), Get, Send_back])
       (exchanges (SendData echo_device flag_ahdlc uart_config) (\<lambda>m. GetData flag_ahdlc uart_config m 100)
          [Send (message_of 7 [1, 2]), Get, Send_back] (message_of 0 []) h)"
proof -
  have "\<exists>h. TestHarness linux_sample flag_ahdlc uart_config (Some [''ttyUltraTarget_X1'']) (ahdlc_sample [] []) = Inr h"
    by (simp add: TestHarness_def find_uart_def Init_def Let_def init_ahdlc_def flag_ahdlc_def
        init_uart_def linux_sample_def uart_config_def split: prod.splits)
  then obtain h where
    h: "TestHarness linux_sample flag_ahdlc uart_config (Some [''ttyUltraTarget_X1'']) (ahdlc_sample [] []) = Inr h"
    by blast
  have "sendable (message_of 0 [])" "list_all sends_sendable [Send (message_of 7 [1, 2]), Get, Send_back]"
    by (simp_all add: message_of_simps PROTO_BUFFER_MAX_LEN_def)
  from TestHarness_session_safe [OF echo_replies_fit flag_ahdlc_contracts h this] h show ?thesis by blast
qed

text \<open>After the destructor the line is closed on a UART build, no client is left, and nothing was
  sent.\<close>

lemma destruct_closes:
  "\<not> no_uart cfg \<Longrightarrow> \<not> ttyState (destruct env cfg h) \<and> \<not> print_uart_worker (destruct env cfg h)"
  "hclient (destruct env cfg h) = None" "tx (tty (destruct env cfg h)) = tx (tty h)"
  by (auto simp: destruct_def Let_def ttyState_def split: option.splits)

end
