(* ===== verification/DeviceTest.thy ===== *)
theory DeviceTest
  imports GTest Harness
begin

text \<open>
  What the tests that talk to the chip through \<open>TestHarness\<close> share (\<open>src/runtests.cc\<close>,
  \<open>src/aes-cmac-tests.cc\<close>, \<open>src/cavptests.cc\<close>): sending and receiving with their
  assertions, the checks of a received message's type and subtype, and parsing what it carries.
  The world of such a test is the harness.

  The generated protobuf classes are parameters: how a request is serialized (\<open>pb_message\<close>) and
  how the bytes of an answer are parsed.
\<close>

text \<open>Where the tests run: the parameters of the harness and the contents of the local variables
  of type \<open>raw_message\<close> that are not initialized, by line and round of the enclosing loop.\<close>

record ('w, 'e, 'd) rig =
  rig_env :: "'w nos"
  rig_ops :: "('e, 'd) ahdlc"
  rig_cfg :: config
  uninitialized :: "nat \<Rightarrow> nat \<Rightarrow> raw_message"

type_synonym ('w, 'e, 'd, 'a) hproc = "(('w, 'e, 'd) harness, 'a) proc"

text \<open>The ids of the messages that the tests use.\<close>

record message_ids =
  id_NOTICE :: u16
  id_SEND_SEQUENCE :: u16
  id_ECHO_THIS :: u16
  id_TESTING_API_CALL :: u16
  id_TESTING_API_RESPONSE :: u16

abbreviation MSG_TIME :: int where "MSG_TIME \<equiv> 4096 * BYTE_TIME"

subsection \<open>Sending and receiving\<close>

definition no_error ::
  "string \<Rightarrow> nat \<Rightarrow> (('w, 'e, 'd) harness \<Rightarrow> fault + (int \<times> ('w, 'e, 'd) harness)) \<Rightarrow> ('w, 'e, 'd, unit) hproc" where
  "no_error file line f = and_then (attempt f) (\<lambda>e. ASSERT file line (e = NO_ERROR))"

definition send_data ::
  "('w, 'e, 'd) rig \<Rightarrow> string \<Rightarrow> nat \<Rightarrow> raw_message \<Rightarrow> ('w, 'e, 'd, unit) hproc" where
  "send_data rig file line m = no_error file line (SendData (rig_env rig) (rig_ops rig) (rig_cfg rig) m)"

definition send_proto ::
  "('w, 'e, 'd) rig \<Rightarrow> string \<Rightarrow> nat \<Rightarrow> u16 \<Rightarrow> pb_message \<Rightarrow> ('w, 'e, 'd, unit) hproc" where
  "send_proto rig file line t p = no_error file line
     (SendProto (rig_env rig) (rig_ops rig) (rig_cfg rig) (uninitialized rig line 0) t p)"

definition send_oneof ::
  "('w, 'e, 'd) rig \<Rightarrow> string \<Rightarrow> nat \<Rightarrow> nat \<Rightarrow> u16 \<Rightarrow> u16 \<Rightarrow> pb_message \<Rightarrow> ('w, 'e, 'd, unit) hproc" where
  "send_oneof rig file line turn t sub p = no_error file line
     (SendOneofProto (rig_env rig) (rig_ops rig) (rig_cfg rig) (uninitialized rig line turn) t sub p)"

definition get_data ::
  "('w, 'e, 'd) rig \<Rightarrow> string \<Rightarrow> nat \<Rightarrow> raw_message \<Rightarrow> ('w, 'e, 'd, raw_message) hproc" where
  "get_data rig file line m =
     and_then (attempt (\<lambda>h. bind_res (GetData (rig_ops rig) (rig_cfg rig) m MSG_TIME h)
                              (\<lambda>(e, m, h). Inr ((e, m), h))))
       (\<lambda>(e, m). and_then (ASSERT file line (e = NO_ERROR)) (\<lambda>_. give m))"

definition say :: "string \<Rightarrow> ('w, 'e, 'd, unit) hproc" where
  "say s = act (\<lambda>h. ((), print_at INFO s h))"

subsection \<open>Checking a message\<close>

text \<open>\<open>ParseFromArray(msg.data + off, size)\<close>; a negative \<open>size\<close> reads nothing.\<close>

definition parse_at ::
  "(int \<Rightarrow> byte list \<Rightarrow> 'r option) \<Rightarrow> nat \<Rightarrow> int \<Rightarrow> raw_message \<Rightarrow> fault + 'r option" where
  "parse_at parse off sz m =
     bind_res (read_prefix (off + nat sz) (mdata m)) (\<lambda>bs. Inr (parse sz (drop off bs)))"

text \<open>The macro parses a notice that comes instead of something else, to print it.\<close>

definition assert_msg_type ::
  "message_ids \<Rightarrow> string \<Rightarrow> nat \<Rightarrow> raw_message \<Rightarrow> u16 \<Rightarrow> ('w, 'e, 'd, unit) hproc" where
  "assert_msg_type ids file line m t = block
     [in_bounds (t \<noteq> id_NOTICE ids \<and> mtype m = id_NOTICE ids \<longrightarrow> unat (data_len m) \<le> length (mdata m)),
      ASSERT file line (mtype m = t)]"

definition assert_subtype :: "string \<Rightarrow> nat \<Rightarrow> raw_message \<Rightarrow> u16 \<Rightarrow> ('w, 'e, 'd, unit) hproc" where
  "assert_subtype file line m t = block
     [EXPECT file line (2 < data_len m),
      in_bounds (2 \<le> length (mdata m)),
      EXPECT file line (be16_of (mdata m ! 0) (mdata m ! 1) = t)]"

definition parse_message ::
  "string \<Rightarrow> nat \<Rightarrow> (int \<Rightarrow> byte list \<Rightarrow> 'r option) \<Rightarrow> nat \<Rightarrow> raw_message \<Rightarrow> ('w, 'e, 'd, 'r) hproc" where
  "parse_message file line parse off m =
     and_then (attempt (\<lambda>h. bind_res (parse_at parse off (uint (data_len m) - int off) m) (\<lambda>r. Inr (r, h))))
       (\<lambda>r. case r of None \<Rightarrow> and_then (ASSERT file line False) (\<lambda>_ s. Inr (None, s)) | Some x \<Rightarrow> give x)"

subsection \<open>What passing means\<close>

text \<open>A request was sent without error, and the answer received without error.\<close>

definition asked ::
  "('w, 'e, 'd) rig \<Rightarrow> (('w, 'e, 'd) harness \<Rightarrow> fault + (int \<times> ('w, 'e, 'd) harness)) \<Rightarrow> raw_message \<Rightarrow>
   ('w, 'e, 'd) harness \<Rightarrow> raw_message \<Rightarrow> ('w, 'e, 'd) harness \<Rightarrow> bool" where
  "asked rig send m0 h m h' \<longleftrightarrow>
     (\<exists>h1. send h = Inr (NO_ERROR, h1) \<and>
        GetData (rig_ops rig) (rig_cfg rig) m0 MSG_TIME h1 = Inr (NO_ERROR, m, h'))"

lemma records_None [simp, records_intros]: "records (and_then (ASSERT file line False) (\<lambda>_ s. Inr (None, s)))"
  by (auto simp: records_def and_then_def ASSERT_def)

lemma records_device [simp, records_intros]:
  "records (no_error file line f)" "records (send_data rig file line m)" "records (send_proto rig file line t p)"
  "records (send_oneof rig file line turn t sub p)" "records (get_data rig file line m)" "records (say s)"
  "records (assert_msg_type ids file line m t)" "records (assert_subtype file line m t)"
  by (auto simp: no_error_def send_data_def send_proto_def send_oneof_def get_data_def say_def
      assert_msg_type_def assert_subtype_def intro!: records_intros)

lemma records_parse_message [simp, records_intros]: "records (parse_message file line parse off m)"
  unfolding parse_message_def by (rule records_and_then) (auto split: option.splits)

lemma passed_no_error [passed_simps]:
  "passed (no_error file line f) h u h' \<longleftrightarrow> f h = Inr (NO_ERROR, h')"
  by (simp add: no_error_def passed_simps)

lemma passed_send [passed_simps]:
  "passed (send_data rig file line m) h u h' \<longleftrightarrow>
   SendData (rig_env rig) (rig_ops rig) (rig_cfg rig) m h = Inr (NO_ERROR, h')"
  "passed (send_proto rig file line t p) h u h' \<longleftrightarrow>
   SendProto (rig_env rig) (rig_ops rig) (rig_cfg rig) (uninitialized rig line 0) t p h = Inr (NO_ERROR, h')"
  "passed (send_oneof rig file line turn t sub p) h u h' \<longleftrightarrow>
   SendOneofProto (rig_env rig) (rig_ops rig) (rig_cfg rig) (uninitialized rig line turn) t sub p h = Inr (NO_ERROR, h')"
  by (simp_all add: send_data_def send_proto_def send_oneof_def passed_no_error)

lemma passed_get_data [passed_simps]:
  "passed (get_data rig file line m0) h m h' \<longleftrightarrow>
   GetData (rig_ops rig) (rig_cfg rig) m0 MSG_TIME h = Inr (NO_ERROR, m, h')"
  by (auto simp: get_data_def passed_simps bind_res_Inr_iff split: prod.splits)

lemma passed_say [passed_simps]: "passed (say s) h u h' \<longleftrightarrow> h' = print_at INFO s h"
  by (auto simp: say_def passed_simps)

lemma passed_assert_msg_type [passed_simps]:
  "passed (assert_msg_type ids file line m t) h u h' \<longleftrightarrow> mtype m = t \<and> h' = h"
  by (auto simp: assert_msg_type_def passed_simps)

text \<open>The payload behind the subtype.\<close>

definition oneof_payload :: "raw_message \<Rightarrow> u16 \<Rightarrow> byte list option" where
  "oneof_payload m t =
     (if 2 < data_len m \<and> unat (data_len m) \<le> length (mdata m) \<and> take 2 (payload m) = be16 t
      then Some (drop 2 (payload m)) else None)"

text \<open>A loop whose body only checks.\<close>

lemma passed_for_each_pure:
  assumes "\<And>x. records (body x)" "\<And>x w u w'. passed (body x) w u w' \<longleftrightarrow> P x \<and> w' = w"
  shows "passed (for_each xs body) w u w' \<longleftrightarrow> (\<forall>x \<in> set xs. P x) \<and> w' = w"
proof (induction xs)
  case Nil
  then show ?case by (simp add: for_each_def passed_basic)
next
  case (Cons x xs)
  have "records (for_each xs body)" using assms(1) by (rule records_for_each)
  from passed_and_then [OF assms(1) this] Cons show ?case
    by (auto simp: for_each_def assms(2))
qed

text \<open>The body of the loops that compare: an index that must be in range, and the comparison.\<close>

definition check_at :: "string \<Rightarrow> nat \<Rightarrow> bool \<Rightarrow> bool \<Rightarrow> ('w, unit) proc" where
  "check_at file line inside b = and_then (in_bounds inside) (\<lambda>_. ASSERT file line b)"

lemma records_check_at [simp, records_intros]: "records (check_at file line inside b)"
  by (simp add: check_at_def)

lemma passed_check_at [passed_simps]:
  "passed (check_at file line inside b) w u w' \<longleftrightarrow> inside \<and> b \<and> w' = w"
  by (auto simp: check_at_def passed_simps)

lemma passed_for_each_check_at [passed_simps]:
  "passed (for_each xs (\<lambda>x. check_at file line (Q x) (P x))) w u w' \<longleftrightarrow>
   (\<forall>x \<in> set xs. Q x \<and> P x) \<and> w' = w"
  by (rule passed_for_each_pure) (auto simp: passed_check_at)

lemma completes_for_each_check_at [passed_simps]:
  "completes (for_each xs (\<lambda>x. check_at file line (Q x) (P x))) w u \<longleftrightarrow> (\<forall>x \<in> set xs. Q x \<and> P x)"
  by (simp add: completes_def passed_for_each_check_at)

lemma be16_of_eq_iff: "be16_of hi lo = t \<longleftrightarrow> [hi, lo] = be16 t"
proof -
  obtain t' p where "[hi, lo] = be16 t' @ p" using wire_form [of "[hi, lo]"] by auto
  then have "[hi, lo] = be16 t'" by (auto simp: be16_def)
  moreover from this have "be16_of hi lo = t'" by (auto simp: be16_def)
  ultimately show ?thesis using be16.enc_inj [of t' t] by auto
qed

lemma passed_parse_message [passed_simps]:
  "passed (parse_message file line parse off m) h x h' \<longleftrightarrow>
   parse_at parse off (uint (data_len m) - int off) m = Inr (Some x) \<and> h' = h"
proof -
  have "\<not> passed (and_then (ASSERT file line False) (\<lambda>_ s. Inr (None, s))) h x h'" for h
    by (simp add: passed_def and_then_def ASSERT_def)
  then show ?thesis
    unfolding parse_message_def
    by (subst passed_and_then) (auto simp: passed_basic bind_res_Inr_iff split: option.splits)
qed

lemma passed_assert_subtype [passed_simps]:
  "passed (assert_subtype file line m t) h u h' \<longleftrightarrow>
   2 < data_len m \<and> 2 \<le> length (mdata m) \<and> take 2 (mdata m) = be16 t \<and> h' = h"
proof (cases "2 \<le> length (mdata m)")
  case True
  then obtain a b r where "mdata m = a # b # r" by (cases "mdata m"; cases "tl (mdata m)") auto
  then show ?thesis by (auto simp: assert_subtype_def passed_simps be16_of_eq_iff)
qed (auto simp: assert_subtype_def passed_simps)

lemma parse_after_subtype:
  assumes "2 < data_len m"
  shows "2 \<le> length (mdata m) \<and> take 2 (mdata m) = be16 t \<and>
      parse_at parse 2 (uint (data_len m) - 2) m = Inr (Some x) \<longleftrightarrow>
    (\<exists>bs. oneof_payload m t = Some bs \<and> parse (int (length bs)) bs = Some x)"
proof -
  let ?n = "unat (data_len m)"
  have n: "2 < ?n" using assms by (simp add: word_less_nat_alt)
  have u: "uint (data_len m) = int ?n" by simp
  have size: "2 + nat (uint (data_len m) - 2) = ?n"
    unfolding u using n by linarith
  show ?thesis
  proof (cases "?n \<le> length (mdata m)")
    case True
    let ?p = "take ?n (mdata m)"
    have "parse_at parse 2 (uint (data_len m) - 2) m = Inr (parse (uint (data_len m) - 2) (drop 2 ?p))"
      using True by (simp only: parse_at_def size) (simp add: read_prefix_def)
    moreover have "int (length (drop 2 ?p)) = uint (data_len m) - 2" unfolding u using True n by simp
    moreover have "take 2 ?p = take 2 (mdata m)" using n by (simp add: min_def)
    moreover have "2 \<le> length (mdata m)" using True n by simp
    moreover have "oneof_payload m t = (if take 2 ?p = be16 t then Some (drop 2 ?p) else None)"
      using True assms by (simp add: oneof_payload_def payload_def)
    ultimately show ?thesis by auto
  next
    case False
    then show ?thesis by (simp only: parse_at_def size oneof_payload_def) (simp add: read_prefix_def)
  qed
qed

text \<open>What every test of a \<open>oneof\<close> call does: it sends the request, receives the answer into a
  message variable that is declared at \<open>line\<close>, checks its type and subtype, and parses what
  follows.\<close>

definition open_oneof ::
  "string \<Rightarrow> nat \<Rightarrow> raw_message \<Rightarrow> u16 \<Rightarrow> (int \<Rightarrow> byte list \<Rightarrow> 'r option) \<Rightarrow> ('w, 'e, 'd, 'r) hproc" where
  "open_oneof file line m res parse =
     and_then (assert_subtype file (line + 3) m res) (\<lambda>_. parse_message file (line + 6) parse 2 m)"

definition call_oneof ::
  "('w, 'e, 'd) rig \<Rightarrow> message_ids \<Rightarrow> string \<Rightarrow> nat \<Rightarrow> nat \<Rightarrow> nat \<Rightarrow> u16 \<Rightarrow> pb_message \<Rightarrow> u16 \<Rightarrow>
   (int \<Rightarrow> byte list \<Rightarrow> 'r option) \<Rightarrow> ('w, 'e, 'd, 'r) hproc" where
  "call_oneof rig ids file send_line line turn sub req res parse =
     and_then (send_oneof rig file send_line turn (id_TESTING_API_CALL ids) sub req) (\<lambda>_.
     and_then (get_data rig file (line + 1) (uninitialized rig line turn)) (\<lambda>msg.
     and_then (assert_msg_type ids file (line + 2) msg (id_TESTING_API_RESPONSE ids)) (\<lambda>_.
       open_oneof file line msg res parse)))"

text \<open>The call is answered with \<open>x\<close>.\<close>

definition answered ::
  "('w, 'e, 'd) rig \<Rightarrow> message_ids \<Rightarrow> nat \<Rightarrow> nat \<Rightarrow> nat \<Rightarrow> u16 \<Rightarrow> pb_message \<Rightarrow> u16 \<Rightarrow>
   (int \<Rightarrow> byte list \<Rightarrow> 'r option) \<Rightarrow> ('w, 'e, 'd) harness \<Rightarrow> 'r \<Rightarrow> ('w, 'e, 'd) harness \<Rightarrow> bool" where
  "answered rig ids send_line line turn sub req res parse h x h' \<longleftrightarrow>
     (\<exists>m bs. asked rig (SendOneofProto (rig_env rig) (rig_ops rig) (rig_cfg rig)
          (uninitialized rig send_line turn) (id_TESTING_API_CALL ids) sub req) (uninitialized rig line turn) h m h' \<and>
        mtype m = id_TESTING_API_RESPONSE ids \<and> oneof_payload m res = Some bs \<and>
        parse (int (length bs)) bs = Some x)"

lemma records_oneof [simp, records_intros]:
  "records (open_oneof file line m res parse)"
  "records (call_oneof rig ids file send_line line turn sub req res parse)"
  by (auto simp: open_oneof_def call_oneof_def intro!: records_intros)

lemma passed_open_oneof:
  "passed (open_oneof file line m res parse) h x h' \<longleftrightarrow>
   (\<exists>bs. oneof_payload m res = Some bs \<and> parse (int (length bs)) bs = Some x) \<and> h' = h"
proof (cases "2 < data_len m")
  case True
  have "passed (open_oneof file line m res parse) h x h' \<longleftrightarrow>
      (2 \<le> length (mdata m) \<and> take 2 (mdata m) = be16 res \<and>
        parse_at parse 2 (uint (data_len m) - 2) m = Inr (Some x)) \<and> h' = h"
    using True by (auto simp: open_oneof_def passed_simps)
  then show ?thesis unfolding parse_after_subtype [OF True] .
next
  case False
  then show ?thesis by (auto simp: open_oneof_def passed_simps oneof_payload_def)
qed

lemma passed_call_oneof [passed_simps]:
  "passed (call_oneof rig ids file send_line line turn sub req res parse) h x h' \<longleftrightarrow>
   answered rig ids send_line line turn sub req res parse h x h'"
  by (auto simp: call_oneof_def passed_simps passed_open_oneof answered_def asked_def)

subsection \<open>A rig to evaluate tests on\<close>

definition spi_rig :: "'w nos \<Rightarrow> ('w, byte list, byte list \<times> bool) rig" where
  "spi_rig env = \<lparr>rig_env = env, rig_ops = flag_ahdlc, rig_cfg = uart_config\<lparr>use_ahdlc := False\<rparr>,
     uninitialized = (\<lambda>_ _. message_of 0 [])\<rparr>"

definition spi_harness :: "(unit, byte list, byte list \<times> bool) harness" where
  "spi_harness = (ahdlc_sample [] [])
     \<lparr>output_buffer := \<lparr>vdata = replicate 512 0, vcap = 512\<rparr>, hclient := Some CitadeldProxyClient\<rparr>"

lemma spi_rig_sel [simp]:
  "rig_env (spi_rig env) = env" "uninitialized (spi_rig env) line turn = message_of 0 []"
  by (simp_all add: spi_rig_def)

lemma spi_rig_dispatch:
  "SendData env (rig_ops (spi_rig env)) (rig_cfg (spi_rig env)) = SendSpi env (rig_cfg (spi_rig env))"
  "GetData (rig_ops (spi_rig env)) (rig_cfg (spi_rig env)) = GetSpi"
  by (auto simp: spi_rig_def uart_config_def SendData_def GetData_def intro!: ext)

lemma message_of_nil_wf: "message_wf (message_of t [])"
  using message_of_simps [of "[]" t] by (simp add: sendable_wf)

lemma spi_echo:
  assumes "sendable m" "message_wf m0"
  shows "\<exists>r h'. asked (spi_rig echo_device)
      (SendData (rig_env (spi_rig echo_device)) (rig_ops (spi_rig echo_device)) (rig_cfg (spi_rig echo_device)) m)
      m0 spi_harness r h' \<and>
    mtype r = mtype m \<and> payload r = payload m \<and> data_len r = data_len m"
proof -
  have len: "length (payload m) \<le> 510" using assms(1) length_payload [OF assms(1)]
    by (simp add: sendable_def PROTO_BUFFER_MAX_LEN_def)
  then have fits: "length (payload m) \<le> PROTO_BUFFER_MAX_LEN - 2" by (simp add: PROTO_BUFFER_MAX_LEN_def)
  have client: "hclient spi_harness = Some CitadeldProxyClient" by (simp add: spi_harness_def)
  have call: "call_app echo_device CitadeldProxyClient APP_ID_PROTOBUF (Param (mtype m)) (be16 (mtype m) @ payload m)
      (Some (vec_resize (vcap (output_buffer spi_harness)) (output_buffer spi_harness))) (world spi_harness) =
    (APP_SUCCESS, \<lparr>vdata = be16 (mtype m) @ payload m, vcap = 512\<rparr>, ())"
    using len by (simp add: echo_device_def spi_harness_def vec_resize_def)
  from one_exchange [OF client assms(1,2) call fits] obtain h1 r h2 where
    "SendSpi echo_device (rig_cfg (spi_rig echo_device)) m spi_harness = Inr (APP_SUCCESS, h1)"
    "GetSpi m0 MSG_TIME h1 = Inr (NO_ERROR, r, h2)" "mtype r = mtype m" "payload r = payload m" "sendable r"
    by blast
  moreover from this length_payload [OF \<open>sendable r\<close>] length_payload [OF assms(1)]
  have "data_len r = data_len m" by (simp add: word_unat_eq_iff)
  ultimately show ?thesis by (auto simp: asked_def spi_rig_dispatch)
qed

text \<open>A device that answers every request with the same message.\<close>

definition fixed_device :: "u16 \<Rightarrow> byte list \<Rightarrow> unit nos" where
  "fixed_device t p = echo_device\<lparr>call_app := (\<lambda>c app param req resp w.
     case resp of None \<Rightarrow> (APP_SUCCESS, vec_empty, w)
     | Some v \<Rightarrow> (APP_SUCCESS, v\<lparr>vdata := be16 t @ p\<rparr>, w))\<rparr>"

lemma spi_answered:
  assumes "hclient h = Some c" "length req \<le> 508" "length bs \<le> 508" "bs \<noteq> []"
    and "t = id_TESTING_API_RESPONSE ids" "parse (int (length bs)) bs = Some x"
  shows "\<exists>h'. answered (spi_rig (fixed_device t (be16 res @ bs))) ids send_line line turn sub (pb_of req) res parse h x h' \<and>
    hclient h' = Some c \<and> tty_fd h' = tty_fd h"
proof -
  let ?dev = "fixed_device t (be16 res @ bs)"
  have len: "length req \<le> PROTO_BUFFER_MAX_LEN - 4" "length (be16 res @ bs) \<le> PROTO_BUFFER_MAX_LEN - 2"
    using assms(2,3) by (simp_all add: PROTO_BUFFER_MAX_LEN_def)
  obtain m where send: "SendOneofProto ?dev (rig_ops (spi_rig ?dev)) (rig_cfg (spi_rig ?dev)) (message_of 0 [])
      (id_TESTING_API_CALL ids) sub (pb_of req) h = SendSpi ?dev (rig_cfg (spi_rig ?dev)) m h" and m: "sendable m"
    using SendOneofProto_fits [OF len(1) message_of_nil_wf] by (metis spi_rig_dispatch(1))
  let ?out = "vec_resize (vcap (output_buffer h)) (output_buffer h)"
  have call: "call_app ?dev c APP_ID_PROTOBUF (Param (mtype m)) (be16 (mtype m) @ payload m) (Some ?out) (world h) =
      (APP_SUCCESS, \<lparr>vdata = be16 t @ be16 res @ bs, vcap = vcap ?out\<rparr>, world h)"
    by (simp add: fixed_device_def)
  from one_exchange [OF assms(1) m message_of_nil_wf call len(2), of "rig_cfg (spi_rig ?dev)" 0 MSG_TIME]
  obtain h1 r h2 where ex: "SendSpi ?dev (rig_cfg (spi_rig ?dev)) m h = Inr (APP_SUCCESS, h1)"
    "GetSpi (message_of 0 []) MSG_TIME h1 = Inr (NO_ERROR, r, h2)" "mtype r = t" "payload r = be16 res @ bs" "sendable r"
    by blast
  have n: "unat (data_len r) = length (be16 res @ bs)" using length_payload [OF ex(5)] ex(4) by simp
  have "oneof_payload r res = Some bs"
    using n ex(4,5) assms(4)
    by (cases bs) (auto simp: oneof_payload_def word_less_nat_alt sendable_def message_wf_def)
  moreover have "hclient h2 = Some c \<and> tty_fd h2 = tty_fd h"
  proof -
    have "hclient h1 = Some c \<and> tty_fd h1 = tty_fd h"
      using ex(1) unfolding SendSpi_sendable [OF m] by (auto simp: assms(1) Let_def split: prod.splits)
    then show ?thesis using ex(2)
      by (auto simp: GetSpi_def Let_def bind_res_Inr_iff split: if_splits list.splits)
  qed
  moreover note trans [OF send ex(1)] ex(2) trans [OF ex(3) assms(5)] assms(6)
  ultimately show ?thesis
    unfolding answered_def asked_def spi_rig_sel spi_rig_dispatch by blast
qed

end
