(* ===== verification/OsTests.thy ===== *)
theory OsTests
  imports DeviceTest
begin

text \<open>
  \<open>src/runtests.cc\<close>: the tests of the chip's operating system over the proto API, from pings to
  the statistics of its random numbers. What an \<open>openssl\<close> cipher computes and what the random
  device gives are parameters. The flag that dumps requests to files and the printing of floating
  point numbers are left out.
\<close>

abbreviation OS :: string where "OS \<equiv> ''runtests.cc''"

record os_protos =
  os_ids :: message_ids
  ping_message :: pb_message
  parse_notice :: "int \<Rightarrow> byte list \<Rightarrow> int option"
  notice_string :: "int \<Rightarrow> string"
  PING :: int
  PONG :: int
  UNRECOGNIZED_MESSAGE :: int

subsection \<open>The fixture\<close>

definition OsTest_SetUpTestCase ::
  "os \<Rightarrow> ('w, 'e, 'd) rig \<Rightarrow> string list option \<Rightarrow> ('w, 'e, 'd, unit) hproc" where
  "OsTest_SetUpTestCase sys rig dir =
     (let cfg = rig_cfg rig in block
       [attempt (\<lambda>h. bind_res (TestHarness sys (rig_ops rig) cfg dir h) (\<lambda>h. Inr ((), h))),
        if no_uart cfg \<or> UsingSpi cfg then give ()
        else block
          [and_then (attempt (SwitchFromConsoleToProtoApi cfg)) (EXPECT OS 83),
           and_then (act (\<lambda>h. (ttyState h, h))) (EXPECT OS 84)]])"

definition OsTest_TearDownTestCase ::
  "('w, 'e, 'd) rig \<Rightarrow> switch_api \<Rightarrow> ('w, 'e, 'd, unit) hproc" where
  "OsTest_TearDownTestCase rig api =
     (let cfg = rig_cfg rig in block
       [if no_uart cfg \<or> UsingSpi cfg then give ()
        else block
          [and_then (attempt (ReadUntil cfg (BYTE_TIME * 1024))) (\<lambda>_. give ()),
           and_then (attempt (\<lambda>h. bind_res
               (SwitchFromProtoApiToConsole (rig_ops rig) api cfg (uninitialized rig 93 0) None h)
               (\<lambda>(b, _, h). Inr (b, h))))
             (EXPECT OS 93)],
        act (\<lambda>h. ((), destruct (rig_env rig) cfg h))])"

subsection \<open>\<open>NoticePing\<close> and \<open>InvalidMessageType\<close>\<close>

text \<open>One ping, whose assertions are at the given lines; the message variable is shared by the
  three rounds.\<close>

definition ping ::
  "('w, 'e, 'd) rig \<Rightarrow> os_protos \<Rightarrow> nat \<Rightarrow> nat \<Rightarrow> raw_message \<Rightarrow> ('w, 'e, 'd, raw_message) hproc" where
  "ping rig api line get_line m =
     and_then (send_proto rig OS line (id_NOTICE (os_ids api)) (ping_message api)) (\<lambda>_.
     and_then (say (notice_string api (PING api))) (\<lambda>_.
     and_then (get_data rig OS get_line m) (\<lambda>m.
     and_then (assert_msg_type (os_ids api) OS (get_line + 1) m (id_NOTICE (os_ids api))) (\<lambda>_.
     and_then (parse_message OS (get_line + 3) (parse_notice api) 0 m) (\<lambda>pong.
     and_then (say (notice_string api pong @ [NL])) (\<lambda>_.
     and_then (EXPECT OS (get_line + 8) (pong = PONG api)) (\<lambda>_. give m)))))))"

definition NoticePing :: "('w, 'e, 'd) rig \<Rightarrow> os_protos \<Rightarrow> ('w, 'e, 'd, unit) hproc" where
  "NoticePing rig api =
     and_then (ping rig api 104 109 (uninitialized rig 108 0)) (\<lambda>m.
     and_then (ping rig api 119 123 m) (\<lambda>m.
     and_then (ping rig api 133 137 m) (\<lambda>m. give ())))"

text \<open>A message variable with its first bytes overwritten.\<close>

definition fill :: "u16 \<Rightarrow> byte list \<Rightarrow> raw_message \<Rightarrow> raw_message" where
  "fill t bs m = m\<lparr>mtype := t, data_len := of_nat (length bs), mdata := bs @ drop (length bs) (mdata m)\<rparr>"

definition InvalidMessageType :: "('w, 'e, 'd) rig \<Rightarrow> os_protos \<Rightarrow> ('w, 'e, 'd, unit) hproc" where
  "InvalidMessageType rig api =
     (let msg = fill 0 (bytes_of ''This is a test message.'' @ [0]) (uninitialized rig 151 0) in
      and_then (send_data rig OS 156 msg) (\<lambda>_.
      and_then (get_data rig OS 157 msg) (\<lambda>msg.
      and_then (assert_msg_type (os_ids api) OS 158 msg (id_NOTICE (os_ids api))) (\<lambda>_.
      and_then (parse_message OS 161 (parse_notice api) 0 msg) (\<lambda>notice.
      and_then (say (notice_string api notice @ [NL])) (\<lambda>_.
        EXPECT OS 166 (notice = UNRECOGNIZED_MESSAGE api)))))))"

subsection \<open>\<open>Sequence\<close> and \<open>Echo\<close>\<close>

definition Sequence :: "('w, 'e, 'd) rig \<Rightarrow> os_protos \<Rightarrow> ('w, 'e, 'd, unit) hproc" where
  "Sequence rig api =
     (let msg = fill (id_SEND_SEQUENCE (os_ids api)) (map of_nat [0..<256]) (uninitialized rig 170 0) in
      and_then (send_data rig OS 177 msg) (\<lambda>_.
      and_then (get_data rig OS 178 msg) (\<lambda>msg.
      and_then (assert_msg_type (os_ids api) OS 179 msg (id_SEND_SEQUENCE (os_ids api))) (\<lambda>_.
        for_each [0..<unat (data_len msg)] (\<lambda>x.
          check_at OS 181 (x < length (mdata msg)) (unat (mdata msg ! x) = x))))))"

text \<open>\<open>random x\<close> is the \<open>x\<close>-th number of the random device.\<close>

definition Echo :: "('w, 'e, 'd) rig \<Rightarrow> os_protos \<Rightarrow> (nat \<Rightarrow> u32) \<Rightarrow> ('w, 'e, 'd, unit) hproc" where
  "Echo rig api random =
     (let n = PROTO_BUFFER_MAX_LEN - 2 - 64;
          msg = fill (id_ECHO_THIS (os_ids api)) (map (\<lambda>x. ucast (random x)) [0..<n]) (uninitialized rig 186 0) in
      and_then (send_data rig OS 194 msg) (\<lambda>_.
      and_then (get_data rig OS 197 (uninitialized rig 196 0)) (\<lambda>receive_msg.
      and_then (assert_msg_type (os_ids api) OS 198 msg (id_ECHO_THIS (os_ids api))) (\<lambda>_.
      and_then (ASSERT OS 199 (data_len receive_msg = data_len msg)) (\<lambda>_.
        for_each [0..<unat (data_len msg)] (\<lambda>x.
          check_at OS 202 (x < length (mdata msg) \<and> x < length (mdata receive_msg))
            (mdata msg ! x = mdata receive_msg ! x)))))))"

subsection \<open>What their verdicts mean\<close>

lemma records_os [simp, records_intros]:
  "records (ping rig api line get_line m)" "records (NoticePing rig api)" "records (InvalidMessageType rig api)"
  "records (Sequence rig api)" "records (Echo rig api random)"
  by (auto simp: ping_def NoticePing_def InvalidMessageType_def Sequence_def Echo_def Let_def intro!: records_intros)

lemma fill_message:
  assumes "message_wf m" "length bs \<le> PROTO_BUFFER_MAX_LEN - 2"
  shows "sendable (fill t bs m)" "payload (fill t bs m) = bs" "mtype (fill t bs m) = t"
    "unat (data_len (fill t bs m)) = length bs"
  using received_sendable [OF assms(2,1), of t] assms(2)
  by (cases m; simp add: fill_def unat_of_nat_u16)+

lemma payload_indexed:
  "(\<forall>x < unat (data_len m). x < length (mdata m) \<and> P x (mdata m ! x)) \<longleftrightarrow>
   length (payload m) = unat (data_len m) \<and> (\<forall>x < length (payload m). P x (payload m ! x))"
proof (cases "unat (data_len m) \<le> length (mdata m)")
  case True
  then show ?thesis by (auto simp: payload_def)
next
  case False
  then have "length (mdata m) < unat (data_len m)" by simp
  then show ?thesis by (auto simp: payload_def)
qed

lemma counting_up:
  fixes bs :: "byte list"
  shows "(\<forall>x < length bs. unat (bs ! x) = x) \<longleftrightarrow> length bs \<le> 256 \<and> bs = map of_nat [0..<length bs]"
proof
  assume count: "\<forall>x < length bs. unat (bs ! x) = x"
  have "\<not> 256 < length bs"
  proof
    assume "256 < length bs"
    with count have "unat (bs ! 256) = 256" by blast
    moreover have "unat (bs ! 256) < 256" by (rule unat_byte)
    ultimately show False by simp
  qed
  moreover have "bs = map of_nat [0..<length bs]"
  proof (rule nth_equalityI)
    fix i assume "i < length bs"
    moreover have "bs ! i = of_nat (unat (bs ! i))" by simp
    ultimately show "bs ! i = map of_nat [0..<length bs] ! i" using count by simp
  qed simp
  ultimately show "length bs \<le> 256 \<and> bs = map of_nat [0..<length bs]" by simp
next
  assume bs: "length bs \<le> 256 \<and> bs = map of_nat [0..<length bs]"
  show "\<forall>x < length bs. unat (bs ! x) = x"
  proof (intro allI impI)
    fix x assume x: "x < length bs"
    with bs have "bs ! x = of_nat x" by (metis add_0 nth_map_upt diff_zero)
    with x bs show "unat (bs ! x) = x" by (simp add: unat_of_nat)
  qed
qed

text \<open>A harness that answers, \<open>r\<close> to the message \<open>m\<close>.\<close>

definition answers_data ::
  "('w, 'e, 'd) rig \<Rightarrow> raw_message \<Rightarrow> raw_message \<Rightarrow> ('w, 'e, 'd) harness \<Rightarrow> raw_message \<Rightarrow> bool" where
  "answers_data rig m m0 h r \<longleftrightarrow>
     (\<exists>h'. asked rig (SendData (rig_env rig) (rig_ops rig) (rig_cfg rig) m) m0 h r h')"

lemma Sequence_verdict:
  assumes "message_wf (uninitialized rig 170 0)"
    and "m = fill (id_SEND_SEQUENCE (os_ids api)) (map of_nat [0..<256]) (uninitialized rig 170 0)"
  shows "passes (Sequence rig api) h \<longleftrightarrow>
    (\<exists>r n. answers_data rig m m h r \<and> mtype r = id_SEND_SEQUENCE (os_ids api) \<and>
       n \<le> 256 \<and> unat (data_len r) = n \<and> payload r = map of_nat [0..<n])"
proof -
  have loop: "(\<forall>x \<in> set [0..<unat (data_len r)]. x < length (mdata r) \<and> unat (mdata r ! x) = x) \<longleftrightarrow>
      (\<exists>n \<le> 256. unat (data_len r) = n \<and> payload r = map of_nat [0..<n])" for r
  proof -
    have "(\<forall>x \<in> set [0..<unat (data_len r)]. x < length (mdata r) \<and> unat (mdata r ! x) = x) \<longleftrightarrow>
        length (payload r) = unat (data_len r) \<and> (\<forall>x < length (payload r). unat (payload r ! x) = x)"
      using payload_indexed [of r "\<lambda>x b. unat b = x"] by auto
    also have "\<dots> \<longleftrightarrow> (\<exists>n \<le> 256. unat (data_len r) = n \<and> payload r = map of_nat [0..<n])"
      unfolding counting_up by (auto dest: arg_cong [where f = length])
    finally show ?thesis .
  qed
  show ?thesis
    unfolding passes_completes [OF records_os(4)]
    by (simp add: Sequence_def Let_def passed_simps loop answers_data_def asked_def assms(2) [symmetric] del: set_upt) blast
qed

lemma Echo_verdict:
  assumes "message_wf (uninitialized rig 186 0)"
    and "m = fill (id_ECHO_THIS (os_ids api)) (map (\<lambda>x. ucast (random x)) [0..<446]) (uninitialized rig 186 0)"
  shows "passes (Echo rig api random) h \<longleftrightarrow>
    (\<exists>r. answers_data rig m (uninitialized rig 196 0) h r \<and> data_len r = data_len m \<and> payload r = payload m)"
proof -
  have len: "length (map (\<lambda>x. ucast (random x) :: byte) [0..<446]) \<le> PROTO_BUFFER_MAX_LEN - 2"
    by (simp add: PROTO_BUFFER_MAX_LEN_def)
  note m = fill_message [OF assms(1) len, of "id_ECHO_THIS (os_ids api)", folded assms(2)]
  have size: "PROTO_BUFFER_MAX_LEN - 2 - 64 = 446" by (simp add: PROTO_BUFFER_MAX_LEN_def)
  have inside: "446 \<le> length (mdata m)" "unat (data_len m) = 446"
    using m(1,4) by (simp_all add: sendable_def message_wf_def PROTO_BUFFER_MAX_LEN_def)
  have loop: "(\<forall>x \<in> set [0..<unat (data_len m)]. x < length (mdata m) \<and> x < length (mdata r) \<and> mdata m ! x = mdata r ! x) \<longleftrightarrow>
      payload r = payload m" if "data_len r = data_len m" for r
  proof -
    have "(\<forall>x < unat (data_len r). x < length (mdata r) \<and> payload m ! x = mdata r ! x) \<longleftrightarrow>
        length (payload r) = 446 \<and> (\<forall>x < length (payload r). payload m ! x = payload r ! x)"
      using payload_indexed [of r "\<lambda>x b. payload m ! x = b"] that inside(2) by simp
    also have "\<dots> \<longleftrightarrow> payload r = payload m"
      using inside by (auto simp: payload_def [of m] intro!: nth_equalityI)
    finally show ?thesis using that inside by (auto simp: payload_def [of m])
  qed
  show ?thesis
    unfolding passes_completes [OF records_os(5)] unfolding Echo_def Let_def size assms(2) [symmetric]
    by (auto simp: passed_simps answers_data_def asked_def m(3) loop simp del: set_upt)
qed

text \<open>The tests of notices.\<close>

lemma parse_whole:
  "parse_at parse 0 (uint (data_len m)) m = Inr (Some x) \<longleftrightarrow>
   length (payload m) = unat (data_len m) \<and> parse (int (length (payload m))) (payload m) = Some x"
  by (cases "unat (data_len m) \<le> length (mdata m)")
    (auto simp: parse_at_def read_prefix_def payload_def simp flip: unat_eq_nat_uint)

text \<open>A received message that is the notice \<open>n\<close>.\<close>

definition is_notice :: "os_protos \<Rightarrow> raw_message \<Rightarrow> int \<Rightarrow> bool" where
  "is_notice api m n \<longleftrightarrow> mtype m = id_NOTICE (os_ids api) \<and> length (payload m) = unat (data_len m) \<and>
     parse_notice api (int (length (payload m))) (payload m) = Some n"

text \<open>A ping that is sent, a notice \<open>PONG\<close> that comes back.\<close>

definition pinged ::
  "('w, 'e, 'd) rig \<Rightarrow> os_protos \<Rightarrow> nat \<Rightarrow> raw_message \<Rightarrow> ('w, 'e, 'd) harness \<Rightarrow> raw_message \<Rightarrow> ('w, 'e, 'd) harness \<Rightarrow> bool" where
  "pinged rig api line m h r h' \<longleftrightarrow>
     (\<exists>h1 h2. SendProto (rig_env rig) (rig_ops rig) (rig_cfg rig) (uninitialized rig line 0) (id_NOTICE (os_ids api))
          (ping_message api) h = Inr (NO_ERROR, h1) \<and>
        GetData (rig_ops rig) (rig_cfg rig) m MSG_TIME (print_at INFO (notice_string api (PING api)) h1) =
          Inr (NO_ERROR, r, h2) \<and>
        is_notice api r (PONG api) \<and> h' = print_at INFO (notice_string api (PONG api) @ [NL]) h2)"

lemma passed_ping [passed_simps]: "passed (ping rig api line get_line m) h r h' \<longleftrightarrow> pinged rig api line m h r h'"
  by (auto simp: ping_def passed_simps parse_whole pinged_def is_notice_def)

text \<open>C31: what the tests of sequences and of echoes accept. \<open>Sequence\<close> passes exactly when the
  chip answers with a message of the right type that holds the numbers from 0 up to some length of
  at most 256, so an empty answer passes as well. \<open>Echo\<close> passes exactly when the payload comes
  back: the type that it checks is that of the message it has sent, so an answer of any type passes.\<close>

theorem data_test_verdicts:
  assumes "message_wf (uninitialized rig 170 0)" "message_wf (uninitialized rig 186 0)"
    and "m = fill (id_SEND_SEQUENCE (os_ids api)) (map of_nat [0..<256]) (uninitialized rig 170 0)"
    and "m' = fill (id_ECHO_THIS (os_ids api)) (map (\<lambda>x. ucast (random x)) [0..<446]) (uninitialized rig 186 0)"
  shows "(passes (Sequence rig api) h \<longleftrightarrow>
      (\<exists>r n. answers_data rig m m h r \<and> mtype r = id_SEND_SEQUENCE (os_ids api) \<and>
         n \<le> 256 \<and> unat (data_len r) = n \<and> payload r = map of_nat [0..<n])) \<and>
    (passes (Echo rig api random) h \<longleftrightarrow>
      (\<exists>r. answers_data rig m' (uninitialized rig 196 0) h r \<and> data_len r = data_len m' \<and> payload r = payload m'))"
  by (intro conjI Sequence_verdict [OF assms(1,3)] Echo_verdict [OF assms(2,4)])

definition sample_protos :: os_protos where
  "sample_protos = \<lparr>
     os_ids = \<lparr>id_NOTICE = 1, id_SEND_SEQUENCE = 2, id_ECHO_THIS = 3, id_TESTING_API_CALL = 4,
               id_TESTING_API_RESPONSE = 5\<rparr>,
     ping_message = pb_of [8, 1], parse_notice = (\<lambda>n bs. if n = 2 then Some (uint (bs ! 1)) else None),
     notice_string = (\<lambda>n. ''notice''), PING = 1, PONG = 2, UNRECOGNIZED_MESSAGE = 3\<rparr>"

theorem data_test_verdicts_witness:
  "passes (Echo (spi_rig echo_device) sample_protos (\<lambda>x. of_nat x)) spi_harness"
proof -
  let ?seq = "fill (id_SEND_SEQUENCE (os_ids sample_protos)) (map of_nat [0..<256]) (uninitialized (spi_rig echo_device) 170 0)"
  let ?echo = "fill (id_ECHO_THIS (os_ids sample_protos)) (map (\<lambda>x. ucast (of_nat x :: u32)) [0..<446])
    (uninitialized (spi_rig echo_device) 186 0)"
  have wf: "message_wf (uninitialized (spi_rig echo_device) 170 0)" "message_wf (uninitialized (spi_rig echo_device) 186 0)"
    "message_wf (uninitialized (spi_rig echo_device) 196 0)"
    by (simp_all add: message_of_nil_wf)
  have "sendable ?echo" by (rule fill_message(1) [OF wf(2)]) (simp add: PROTO_BUFFER_MAX_LEN_def)
  from spi_echo [OF this wf(3)] data_test_verdicts [OF wf(1,2) refl refl, of sample_protos spi_harness "\<lambda>x. of_nat x"]
  show ?thesis by (auto simp: answers_data_def)
qed

text \<open>\<open>NoticePing\<close> passes exactly when three pings in a row are answered with the notice
  \<open>PONG\<close>, each into the message variable that holds the answer before; \<open>InvalidMessageType\<close>
  sends the 24 bytes of its text, the final zero included, as a message of type 0, and passes
  exactly when a notice comes back that says the message was not recognized.\<close>

theorem notice_test_verdicts:
  assumes "message_wf (uninitialized rig 151 0)"
  shows "(passes (NoticePing rig api) h \<longleftrightarrow>
      (\<exists>m1 h1 m2 h2 m3 h3. pinged rig api 104 (uninitialized rig 108 0) h m1 h1 \<and>
         pinged rig api 119 m1 h1 m2 h2 \<and> pinged rig api 133 m2 h2 m3 h3)) \<and>
    (\<exists>m. sendable m \<and> mtype m = 0 \<and> payload m = bytes_of ''This is a test message.'' @ [0] \<and> data_len m = 24 \<and>
       (passes (InvalidMessageType rig api) h \<longleftrightarrow>
          (\<exists>r. answers_data rig m m h r \<and> is_notice api r (UNRECOGNIZED_MESSAGE api))))"
proof
  show "passes (NoticePing rig api) h \<longleftrightarrow>
      (\<exists>m1 h1 m2 h2 m3 h3. pinged rig api 104 (uninitialized rig 108 0) h m1 h1 \<and>
         pinged rig api 119 m1 h1 m2 h2 \<and> pinged rig api 133 m2 h2 m3 h3)"
    unfolding passes_completes [OF records_os(2)]
    by (simp add: NoticePing_def passed_simps)
  let ?bs = "bytes_of ''This is a test message.'' @ [0]"
  let ?m = "fill 0 ?bs (uninitialized rig 151 0)"
  have content: "length ?bs = 24"
    by (simp_all add: bytes_of_def)
  then have "length ?bs \<le> PROTO_BUFFER_MAX_LEN - 2" by (simp add: PROTO_BUFFER_MAX_LEN_def)
  note m = fill_message [OF assms this, of 0]
  have "passes (InvalidMessageType rig api) h \<longleftrightarrow>
      (\<exists>r. answers_data rig ?m ?m h r \<and> is_notice api r (UNRECOGNIZED_MESSAGE api))"
    unfolding passes_completes [OF records_os(3)]
    by (auto simp: InvalidMessageType_def Let_def passed_simps parse_whole is_notice_def answers_data_def asked_def m(3))
  moreover have "data_len ?m = 24" using m(4) content by (simp add: word_unat_eq_iff)
  ultimately show "\<exists>m. sendable m \<and> mtype m = 0 \<and> payload m = bytes_of ''This is a test message.'' @ [0] \<and> data_len m = 24 \<and>
       (passes (InvalidMessageType rig api) h \<longleftrightarrow>
          (\<exists>r. answers_data rig m m h r \<and> is_notice api r (UNRECOGNIZED_MESSAGE api)))"
    using m by (intro exI [of _ ?m]) simp
qed

text \<open>A chip that says it did not recognize what it got.\<close>

theorem notice_test_verdicts_witness:
  "passes (InvalidMessageType (spi_rig (fixed_device 1 [8, 3])) sample_protos) spi_harness"
proof -
  let ?rig = "spi_rig (fixed_device 1 [8, 3])"
  have "message_wf (uninitialized ?rig 151 0)" by (simp add: message_of_nil_wf)
  from notice_test_verdicts [OF this, of sample_protos spi_harness]
  obtain m where m: "sendable m"
    and verdict: "passes (InvalidMessageType ?rig sample_protos) spi_harness \<longleftrightarrow>
      (\<exists>r. answers_data ?rig m m spi_harness r \<and> is_notice sample_protos r (UNRECOGNIZED_MESSAGE sample_protos))"
    by blast
  have client: "hclient spi_harness = Some CitadeldProxyClient" by (simp add: spi_harness_def)
  let ?out = "vec_resize (vcap (output_buffer spi_harness)) (output_buffer spi_harness)"
  have call: "call_app (fixed_device 1 [8, 3]) CitadeldProxyClient APP_ID_PROTOBUF (Param (mtype m))
      (be16 (mtype m) @ payload m) (Some ?out) (world spi_harness) =
    (APP_SUCCESS, \<lparr>vdata = be16 1 @ [8, 3], vcap = vcap ?out\<rparr>, world spi_harness)"
    by (simp add: fixed_device_def)
  have wf: "message_wf m" using m by (simp add: sendable_wf)
  have fits: "length ([8, 3] :: byte list) \<le> PROTO_BUFFER_MAX_LEN - 2" by (simp add: PROTO_BUFFER_MAX_LEN_def)
  from one_exchange [OF client m wf call fits, where cfg = "rig_cfg ?rig" and timeout = MSG_TIME] obtain h1 r h2 where
    "SendSpi (fixed_device 1 [8, 3]) (rig_cfg ?rig) m spi_harness = Inr (APP_SUCCESS, h1)"
    "GetSpi m MSG_TIME h1 = Inr (NO_ERROR, r, h2)" and r: "mtype r = 1" "payload r = [8, 3]" "sendable r"
    by blast
  then have "answers_data ?rig m m spi_harness r" by (auto simp: answers_data_def asked_def spi_rig_dispatch)
  moreover have "is_notice sample_protos r (UNRECOGNIZED_MESSAGE sample_protos)"
    unfolding is_notice_def length_payload [OF r(3), symmetric] r by (simp add: sample_protos_def)
  ultimately show ?thesis unfolding verdict by blast
qed

end
