(* ===== verification/AhdlcLink.thy ===== *)
theory AhdlcLink
  imports Ahdlc
begin

text \<open>
  Two ends of a serial line that run the aHDLC transport of \<open>src/util.cc\<close>: what one end sends with
  \<open>SendAhdlc\<close> the other receives with \<open>GetAhdlc\<close>, message by message and in order, if the frame
  library brings a frame's content across; and what becomes of frames that are too short.
\<close>

subsection \<open>The framing\<close>

text \<open>The library's calls that make one frame of some bytes, as \<open>SendAhdlc\<close> makes them, and the
  frame.\<close>

definition framed :: "('e, 'd) ahdlc \<Rightarrow> byte \<Rightarrow> byte \<Rightarrow> byte list \<Rightarrow> 'e \<Rightarrow> 'e \<Rightarrow> bool" where
  "framed ops b c bs e e' \<longleftrightarrow>
     (\<exists>e1 e2 e3. EncodeNewFrame ops e = (AHDLC_OK, e1) \<and>
       EncodeAddByteToFrameBuffer ops b e1 = (AHDLC_OK, e2) \<and>
       EncodeAddByteToFrameBuffer ops c e2 = (AHDLC_OK, e3) \<and> EncodeBuffer ops bs e3 = (AHDLC_OK, e'))"

definition frame_of :: "('e, 'd) ahdlc \<Rightarrow> 'e \<Rightarrow> byte list" where
  "frame_of ops e = take (frame_index ops e) (frame_buffer ops e)"

text \<open>Decoding a frame: only its last byte ends it.\<close>

fun decode_frame :: "('e, 'd) ahdlc \<Rightarrow> byte list \<Rightarrow> 'd \<Rightarrow> (ahdlc_op_return \<times> 'd) option" where
  "decode_frame ops [] d = None"
| "decode_frame ops [b] d = Some (DecodeFrameByte ops b d)"
| "decode_frame ops (b # c # bs) d =
     (let (r, d) = DecodeFrameByte ops b d in
      if frame_over ops r d then None else decode_frame ops (c # bs) d)"

lemma decode_frame_feed: "decode_frame ops bs d = Some x \<Longrightarrow> feed ops n bs d = Some x"
  by (induction ops bs d arbitrary: n rule: decode_frame.induct)
    (auto simp: Let_def split: prod.splits if_splits)

text \<open>
  What the library promises of the contents it can carry: a frame has at least four bytes besides
  its content (two flags and the CRC), and a decoder that is between frames decodes the frame to the
  content with a good CRC and is between frames again.
\<close>

definition carries ::
  "('e, 'd) ahdlc \<Rightarrow> ('d \<Rightarrow> bool) \<Rightarrow> (byte list \<Rightarrow> bool) \<Rightarrow> bool" where
  "carries ops idle fits \<longleftrightarrow>
     (\<forall>b c bs e e' d. framed ops b c bs e e' \<longrightarrow> fits (b # c # bs) \<longrightarrow> idle d \<longrightarrow>
        length bs + 6 \<le> length (frame_of ops e') \<and>
        (\<exists>d'. decode_frame ops (frame_of ops e') d = Some (AHDLC_COMPLETE, d') \<and> idle d' \<and>
           pdu_index ops d' = length bs + 2 \<and> pdu_index ops d' \<le> length (pdu_buffer ops d') \<and>
           take (pdu_index ops d') (pdu_buffer ops d') = b # c # bs))"

subsection \<open>Messages in a row\<close>

fun send_all :: "('m \<Rightarrow> 's \<Rightarrow> fault + (int \<times> 's)) \<Rightarrow> 'm list \<Rightarrow> 's \<Rightarrow> fault + (int list \<times> 's)" where
  "send_all send [] s = Inr ([], s)"
| "send_all send (m # ms) s =
     bind_res (send m s) (\<lambda>(e, s). bind_res (send_all send ms s) (\<lambda>(es, s). Inr (e # es, s)))"

text \<open>Receiving \<open>n\<close> times into the same variable, with the codes and what the variable held.\<close>

fun get_all ::
  "(raw_message \<Rightarrow> 's \<Rightarrow> fault + (int \<times> raw_message \<times> 's)) \<Rightarrow> nat \<Rightarrow> raw_message \<Rightarrow> 's \<Rightarrow>
   fault + ((int \<times> raw_message) list \<times> 's)" where
  "get_all get 0 m s = Inr ([], s)"
| "get_all get (Suc n) m s =
     bind_res (get m s) (\<lambda>(e, m, s). bind_res (get_all get n m s) (\<lambda>(xs, s). Inr ((e, m) # xs, s)))"

text \<open>A message's type and payload, and its content on the wire.\<close>

abbreviation typed_payload :: "raw_message \<Rightarrow> u16 \<times> byte list" where
  "typed_payload m \<equiv> (mtype m, payload m)"

definition content :: "raw_message \<Rightarrow> byte list" where
  "content m = be16 (mtype m) @ payload m"

lemma payload_length: "sendable m \<Longrightarrow> length (payload m) \<le> PROTO_BUFFER_MAX_LEN - 2"
  by (simp add: payload_def sendable_def message_wf_def)

lemma SendAhdlc_framed:
  assumes "sendable m" "SendAhdlc ops m h = Inr (NO_ERROR, h')"
  shows "framed ops (be16 (mtype m) ! 0) (be16 (mtype m) ! 1) (payload m) (encoder h) (encoder h') \<and>
    tx (tty h') = tx (tty h) @ frame_of ops (encoder h')"
  using SendAhdlc_result [OF assms] by (simp add: framed_def frame_of_def)

lemma carried:
  assumes "carries ops idle fits" "sendable m" "SendAhdlc ops m a = Inr (NO_ERROR, a')"
    and "fits (content m)" "2 \<le> length (payload m)"
    and "tx (tty a') = tx (tty a) @ F" "rx (tty b) = map Got F @ rs" "length F \<le> length (clk (tty b))"
    and "idle (decoder b)" "message_wf x"
  shows "\<exists>x' b'. GetAhdlc ops x timeout b = Inr (NO_ERROR, x', b') \<and>
    typed_payload x' = typed_payload m \<and> sendable x' \<and> rx (tty b') = rs \<and> idle (decoder b') \<and>
    clk (tty b') = drop (length F) (clk (tty b))"
proof -
  let ?t = "mtype m"
  from SendAhdlc_framed [OF assms(2,3)] assms(6) have
    fr: "framed ops (be16 ?t ! 0) (be16 ?t ! 1) (payload m) (encoder a) (encoder a')"
    and F: "F = frame_of ops (encoder a')" by auto
  have "fits ((be16 ?t ! 0) # (be16 ?t ! 1) # payload m)"
    using assms(4) by (simp add: content_def be16_def)
  with assms(1,9) fr obtain d where d: "length (payload m) + 6 \<le> length F"
    "decode_frame ops F (decoder b) = Some (AHDLC_COMPLETE, d)" "idle d"
    "pdu_index ops d = length (payload m) + 2" "pdu_index ops d \<le> length (pdu_buffer ops d)"
    "take (pdu_index ops d) (pdu_buffer ops d) = (be16 ?t ! 0) # (be16 ?t ! 1) # payload m"
    unfolding carries_def F by blast
  have pdu: "take (pdu_index ops d) (pdu_buffer ops d) = be16 ?t @ payload m"
    using d(6) by (simp add: be16_def)
  have "7 < length F" "pdu_index ops d = 2 + length (payload m)" using d(1,4) assms(5) by simp_all
  from GetAhdlc_delivers [OF assms(7,8) this(1) decode_frame_feed [OF d(2)] disjI1 [OF refl] this(2) d(5) pdu
      payload_length [OF assms(2)] assms(10), of timeout] d(3)
  show ?thesis by auto
qed

definition carriable :: "(byte list \<Rightarrow> bool) \<Rightarrow> raw_message \<Rightarrow> bool" where
  "carriable fits m \<longleftrightarrow> sendable m \<and> fits (content m) \<and> 2 \<le> length (payload m)"

lemma send_all_wire:
  "list_all (carriable fits) ms \<Longrightarrow>
   send_all (SendAhdlc ops) ms a = Inr (replicate (length ms) NO_ERROR, a') \<Longrightarrow>
   \<exists>wire. tx (tty a') = tx (tty a) @ wire"
proof (induction ms arbitrary: a)
  case (Cons m ms)
  then obtain a1 where "SendAhdlc ops m a = Inr (NO_ERROR, a1)"
    "send_all (SendAhdlc ops) ms a1 = Inr (replicate (length ms) NO_ERROR, a')"
    by (auto simp: bind_res_Inr_iff)
  with Cons.IH [of a1] Cons.prems(1) SendAhdlc_framed [of m ops a a1] show ?case
    by (auto simp: carriable_def)
qed simp

lemma link_delivers:
  assumes "carries ops idle fits"
  shows "list_all (carriable fits) ms \<Longrightarrow>
    send_all (SendAhdlc ops) ms a = Inr (replicate (length ms) NO_ERROR, a') \<Longrightarrow>
    tx (tty a') = tx (tty a) @ wire \<Longrightarrow> rx (tty b) = map Got wire @ rs \<Longrightarrow>
    length wire \<le> length (clk (tty b)) \<Longrightarrow> idle (decoder b) \<Longrightarrow> message_wf x \<Longrightarrow>
    \<exists>xs b'. get_all (\<lambda>m. GetAhdlc ops m timeout) (length ms) x b = Inr (xs, b') \<and>
      map fst xs = replicate (length ms) NO_ERROR \<and>
      map (\<lambda>x. typed_payload (snd x)) xs = map typed_payload ms \<and> rx (tty b') = rs"
proof (induction ms arbitrary: a b x wire)
  case Nil
  then show ?case by simp
next
  case (Cons m ms)
  from Cons.prems(2) obtain a1 where
    first: "SendAhdlc ops m a = Inr (NO_ERROR, a1)" and
    rest: "send_all (SendAhdlc ops) ms a1 = Inr (replicate (length ms) NO_ERROR, a')"
    by (auto simp: bind_res_Inr_iff)
  from Cons.prems(1) have m: "sendable m" "fits (content m)" "2 \<le> length (payload m)"
    by (simp_all add: carriable_def)
  from Cons.prems(1) have ms: "list_all (carriable fits) ms" by simp
  obtain F where F: "tx (tty a1) = tx (tty a) @ F"
    using SendAhdlc_framed [OF m(1) first] by blast
  obtain W where W: "tx (tty a') = tx (tty a1) @ W"
    using send_all_wire [OF ms rest] by blast
  with F Cons.prems(3) have wire: "wire = F @ W" by simp
  with Cons.prems(4,5) have "rx (tty b) = map Got F @ map Got W @ rs" "length F \<le> length (clk (tty b))"
    by simp_all
  from carried [OF assms m(1) first m(2,3) F this Cons.prems(6,7), of timeout] obtain x1 b1 where
    get: "GetAhdlc ops x timeout b = Inr (NO_ERROR, x1, b1)" "typed_payload x1 = typed_payload m" "sendable x1"
      "rx (tty b1) = map Got W @ rs" "idle (decoder b1)" "clk (tty b1) = drop (length F) (clk (tty b))"
    by blast
  then have "length W \<le> length (clk (tty b1))" using Cons.prems(5) wire by simp
  from Cons.IH [OF ms rest W get(4) this get(5) sendable_wf [OF get(3)]] get(1,2) show ?case
    by auto
qed

text \<open>C7: messages sent in a row over aHDLC arrive in that order, each with its type and its payload,
  one per call, and nothing after the last frame is read: for any messages of at least two bytes of
  payload that the frame library carries, any number of them, any splitting of the writes, and any
  timeout.\<close>

theorem Ahdlc_link:
  assumes "carries ops idle fits" "list_all (carriable fits) ms"
    and "send_all (SendAhdlc ops) ms a = Inr (replicate (length ms) NO_ERROR, a')"
    and "tx (tty a') = tx (tty a) @ wire" "rx (tty b) = map Got wire @ rs"
    and "length wire \<le> length (clk (tty b))" "idle (decoder b)" "message_wf x"
  shows "\<exists>xs b'. get_all (\<lambda>m. GetAhdlc ops m timeout) (length ms) x b = Inr (xs, b') \<and>
    map fst xs = replicate (length ms) NO_ERROR \<and>
    map (\<lambda>x. typed_payload (snd x)) xs = map typed_payload ms \<and> rx (tty b') = rs"
  by (rule link_delivers [OF assms])

text \<open>A framing that carries its contents: the content, three bytes and a closing flag.\<close>

definition tail_ahdlc :: "(byte list, byte list \<times> bool) ahdlc" where
  "tail_ahdlc = flag_ahdlc\<lparr>
     EncodeAddByteToFrameBuffer := (\<lambda>b e. (AHDLC_OK, e @ [b])),
     EncodeBuffer := (\<lambda>bs e. (AHDLC_OK, e @ bs @ [0, 0, 0, 126])),
     DecodeFrameByte := (\<lambda>b (buf, over).
       if b = 126 then (AHDLC_COMPLETE, (take (length buf - 3) buf, True))
       else (AHDLC_OK, (if over then [b] else buf @ [b], False))),
     decode_bad_crc := (\<lambda>d. False)\<rparr>"

definition tail_fits :: "byte list \<Rightarrow> bool" where
  "tail_fits bs \<longleftrightarrow> 126 \<notin> set bs \<and> length bs \<le> 500"

definition tail_idle :: "byte list \<times> bool \<Rightarrow> bool" where
  "tail_idle d \<longleftrightarrow> snd d \<or> fst d = []"

lemma tail_sel:
  "EncodeNewFrame tail_ahdlc e = (AHDLC_OK, [])"
  "EncodeAddByteToFrameBuffer tail_ahdlc b e = (AHDLC_OK, e @ [b])"
  "EncodeBuffer tail_ahdlc bs e = (AHDLC_OK, e @ bs @ [0, 0, 0, 126])"
  "frame_of tail_ahdlc e = e"
  "DecodeFrameByte tail_ahdlc 126 (buf, over) = (AHDLC_COMPLETE, (take (length buf - 3) buf, True))"
  "b \<noteq> 126 \<Longrightarrow> DecodeFrameByte tail_ahdlc b (buf, over) = (AHDLC_OK, (if over then [b] else buf @ [b], False))"
  "frame_over tail_ahdlc r (buf, over) \<longleftrightarrow> r = AHDLC_COMPLETE \<or> 512 \<le> length buf"
  "pdu_index tail_ahdlc d = length (fst d)" "pdu_buffer tail_ahdlc d = fst d"
  by (simp_all add: tail_ahdlc_def flag_ahdlc_def frame_of_def frame_over_def PROTO_BUFFER_MAX_LEN_def)

lemma tail_decodes:
  "126 \<notin> set bs \<Longrightarrow> length buf + length bs < 512 \<Longrightarrow>
   decode_frame tail_ahdlc (bs @ [126]) (buf, False) =
     Some (AHDLC_COMPLETE, (take (length (buf @ bs) - 3) (buf @ bs), True))"
proof (induction bs arbitrary: buf)
  case Nil
  then show ?case by (simp add: tail_sel)
next
  case (Cons b bs)
  obtain c cs where bs: "bs @ [126] = c # cs" by (cases "bs @ [126]") auto
  from Cons.IH [of "buf @ [b]"] Cons.prems show ?case
    by (simp add: bs tail_sel)
qed

lemma tail_carries: "carries tail_ahdlc tail_idle tail_fits"
  unfolding carries_def
proof (intro allI impI)
  fix b c :: byte and bs e e' and d :: "byte list \<times> bool"
  assume fr: "framed tail_ahdlc b c bs e e'" and fits: "tail_fits (b # c # bs)" and idle: "tail_idle d"
  have e': "e' = b # c # bs @ [0, 0, 0, 126]"
    using fr by (auto simp: framed_def tail_sel)
  obtain buf over where d: "d = (buf, over)" by (cases d)
  have start: "DecodeFrameByte tail_ahdlc b d = (AHDLC_OK, ([b], False))"
    using fits idle by (auto simp: d tail_sel tail_fits_def tail_idle_def)
  have "126 \<notin> set (c # bs @ [0, 0, 0])" "length [b] + length (c # bs @ [0, 0, 0]) < 512"
    using fits by (auto simp: tail_fits_def)
  from tail_decodes [OF this] have
    "decode_frame tail_ahdlc (b # c # bs @ [0, 0, 0, 126]) d =
     Some (AHDLC_COMPLETE, (b # c # bs, True))"
    using start by (simp add: tail_sel del: decode_frame.simps(2))
  then show "length bs + 6 \<le> length (frame_of tail_ahdlc e') \<and>
    (\<exists>d'. decode_frame tail_ahdlc (frame_of tail_ahdlc e') d = Some (AHDLC_COMPLETE, d') \<and> tail_idle d' \<and>
       pdu_index tail_ahdlc d' = length bs + 2 \<and> pdu_index tail_ahdlc d' \<le> length (pdu_buffer tail_ahdlc d') \<and>
       take (pdu_index tail_ahdlc d') (pdu_buffer tail_ahdlc d') = b # c # bs)"
    by (simp add: e' tail_sel tail_idle_def del: decode_frame.simps)
qed

lemma tail_sends:
  assumes "length p \<le> 100"
  shows "SendAhdlc tail_ahdlc (message_of t p) (sample_harness e ([], False) \<lparr>rx = [], wr = Wrote 200 # ws, clk = [], tx = sent\<rparr>) =
    Inr (NO_ERROR, sample_harness (be16 t @ p @ [0, 0, 0, 126]) ([], False)
      \<lparr>rx = [], wr = ws, clk = [], tx = sent @ be16 t @ p @ [0, 0, 0, 126]\<rparr>)"
proof -
  have len: "length p \<le> PROTO_BUFFER_MAX_LEN - 2" using assms by (simp add: PROTO_BUFFER_MAX_LEN_def)
  note m = message_of_simps [OF len, of t]
  have rd: "read_prefix (unat (data_len (message_of t p))) (mdata (message_of t p)) = Inr p"
    using m by (simp add: sendable_def message_wf_def payload_def fault_simps)
  have "encode_message tail_ahdlc (message_of t p) e = Inr (True, be16 t @ p @ [0, 0, 0, 126])"
    using m by (simp add: encode_message_def tail_sel rd Let_def be16_def)
  moreover have "frame_buffer tail_ahdlc e = e" "frame_index tail_ahdlc e = length e" for e
    by (simp_all add: tail_ahdlc_def flag_ahdlc_def)
  ultimately show ?thesis using assms
    by (simp add: SendAhdlc_def sample_harness_def BlockingWrite_def fault_simps print_at_def Let_def be16_def)
qed

theorem Ahdlc_link_witness:
  "\<exists>xs b'. get_all (\<lambda>m. GetAhdlc tail_ahdlc m 100) 2 (message_of 0 [])
      (sample_harness [] ([], False)
        \<lparr>rx = map Got [0, 7, 1, 2, 0, 0, 0, 126, 0, 8, 5, 6, 7, 0, 0, 0, 126] @ [Got 9],
         wr = [], clk = replicate 17 0, tx = []\<rparr>) = Inr (xs, b') \<and>
    map (\<lambda>x. typed_payload (snd x)) xs = [(7, [1, 2]), (8, [5, 6, 7])] \<and> rx (tty b') = [Got 9]"
proof -
  let ?a = "\<lambda>e ws sent. sample_harness e ([], False) \<lparr>rx = [], wr = ws, clk = [], tx = sent\<rparr>"
  let ?b = "sample_harness [] ([], False)
    \<lparr>rx = map Got [0, 7, 1, 2, 0, 0, 0, 126, 0, 8, 5, 6, 7, 0, 0, 0, 126] @ [Got 9], wr = [], clk = replicate 17 0, tx = []\<rparr>"
  let ?ms = "[message_of 7 [1, 2], message_of 8 [5, 6, 7]]"
  let ?wire = "[0, 7, 1, 2, 0, 0, 0, 126, 0, 8, 5, 6, 7, 0, 0, 0, 126] :: byte list"
  have len: "length [1, 2 :: byte] \<le> PROTO_BUFFER_MAX_LEN - 2" "length [5, 6, 7 :: byte] \<le> PROTO_BUFFER_MAX_LEN - 2"
      "length ([] :: byte list) \<le> PROTO_BUFFER_MAX_LEN - 2"
    by (simp_all add: PROTO_BUFFER_MAX_LEN_def)
  note m = message_of_simps [OF len(1), of 7] message_of_simps [OF len(2), of 8] message_of_simps [OF len(3), of 0]
  have ok: "list_all (carriable tail_fits) ?ms"
    using m by (simp add: carriable_def tail_fits_def content_def be16_def)
  have sent: "send_all (SendAhdlc tail_ahdlc) ?ms (?a [] [Wrote 200, Wrote 200] []) =
      Inr (replicate (length ?ms) NO_ERROR, ?a (be16 8 @ [5, 6, 7] @ [0, 0, 0, 126]) [] ?wire)"
    by (simp add: tail_sends be16_def)
  from Ahdlc_link [OF tail_carries ok sent, of ?wire ?b "[Got 9]" "message_of 0 []" 100] m show ?thesis
    by (auto simp: sample_harness_def tail_idle_def sendable_wf numeral_2_eq_2)
qed

subsection \<open>Short frames\<close>

text \<open>
  \<open>GetAhdlc\<close> looks at the decoder's verdict from the eighth byte on only, so that a frame of at
  most seven bytes passes unnoticed, however the decoder judges it.
\<close>

lemma get_loop_short:
  "n + length bs \<le> 7 \<Longrightarrow> length bs \<le> length ts \<Longrightarrow>
   get_loop ops v timeout n msg (map Got bs @ rs) ts d out =
   get_loop ops v timeout (n + length bs) msg rs (drop (length bs) ts) (decode_all ops bs d) (out @ rx_log v bs)"
proof (induction bs arbitrary: n ts d out)
  case (Cons b bs)
  then obtain t ts1 where ts: "ts = t # ts1" by (cases ts) auto
  obtain r d1 where "DecodeFrameByte ops b d = (r, d1)" by (cases "DecodeFrameByte ops b d")
  with Cons.IH [of "Suc n" ts1 d1 "if INFO \<le> v then out @ log_byte ''RX: '' b else out"] Cons.prems ts
  show ?case by (simp add: get_loop.simps [of ops v timeout n msg "_ # _"] Let_def)
qed simp

text \<open>C9: a frame of at most seven bytes is lost. Whatever the decoder says of it, complete and with a
  good checksum or not, \<open>GetAhdlc\<close> reads it, goes on waiting, and when the line is silent for the
  timeout returns \<open>TIMEOUT\<close> with the caller's message untouched, while the frame is gone.\<close>

theorem short_frame_lost:
  assumes "rx (tty h) = map Got bs @ Nothing err # rs" "length bs \<le> 7"
    and "clk (tty h) = before @ start # now # ts" "length before = length bs"
    and "0 \<le> timeout" "timeout < elapsed_us start now"
  shows "\<exists>h'. GetAhdlc ops msg timeout h = Inr (TIMEOUT, msg, h') \<and>
    rx (tty h') = rs \<and> decoder h' = decode_all ops bs (decoder h)"
  using assms get_loop_short [of 0 bs "clk (tty h)" ops "verbosity h" timeout msg "Nothing err # rs" "decoder h"]
  by (simp add: GetAhdlc_def Let_def get_loop.simps)

theorem short_frame_lost_witness:
  "\<exists>h'. GetAhdlc tail_ahdlc (message_of 0 []) 100
      (sample_harness [] ([], False)
        \<lparr>rx = map Got [0, 7, 9, 0, 0, 0, 126] @ [Nothing 11], wr = [], clk = replicate 8 0 @ [200000], tx = []\<rparr>) =
      Inr (TIMEOUT, message_of 0 [], h') \<and>
    decode_frame tail_ahdlc [0, 7, 9, 0, 0, 0, 126] ([], False) = Some (AHDLC_COMPLETE, decoder h')"
proof -
  let ?h = "sample_harness [] ([], False)
    \<lparr>rx = map Got [0, 7, 9, 0, 0, 0, 126] @ [Nothing 11], wr = [], clk = replicate 8 0 @ [200000], tx = []\<rparr>"
  have h: "rx (tty ?h) = map Got [0, 7, 9, 0, 0, 0, 126] @ Nothing 11 # []"
    "length [0, 7, 9, 0, 0, 0, 126 :: byte] \<le> 7"
    "clk (tty ?h) = replicate 7 0 @ 0 # 200000 # []" "length (replicate 7 (0 :: int)) = length [0, 7, 9, 0, 0, 0, 126 :: byte]"
    by (simp_all add: sample_harness_def numeral_eq_Suc)
  have "(100 :: int) < elapsed_us 0 200000" by (simp add: elapsed_us_def signed_divide_int_def)
  from short_frame_lost [OF h _ this, of tail_ahdlc "message_of 0 []"] show ?thesis
    by (auto simp: sample_harness_def tail_sel)
qed

end
