(* ===== verification/OsLink.thy ===== *)
theory OsLink
  imports OsTests AhdlcLink
begin

text \<open>
  The tests \<open>Sequence\<close> and \<open>Echo\<close> of \<open>src/runtests.cc\<close> run over the aHDLC transport of
  \<open>src/util.cc\<close>: from the bytes of the chip's answer on the line to the verdict.
\<close>

text \<open>Sending leaves what the receiving side uses.\<close>

lemma BlockingWrite_decoder: "BlockingWrite bs n h = Inr h' \<Longrightarrow> decoder h' = decoder h"
  by (auto simp: BlockingWrite_def Let_def bind_res_Inr_iff)

lemma SendAhdlc_frame:
  assumes "SendAhdlc ops m h = Inr (e, h')"
  shows "rx (tty h') = rx (tty h) \<and> clk (tty h') = clk (tty h) \<and> decoder h' = decoder h"
proof -
  from assms obtain good e1 where
    run: "(if \<not> good then Inr (TRANSPORT_ERROR, h\<lparr>encoder := e1\<rparr>)
      else bind_res (BlockingWrite (frame_buffer ops e1) (frame_index ops e1) (h\<lparr>encoder := e1\<rparr>))
        (\<lambda>h. Inr (NO_ERROR, h))) = Inr (e, h')"
    by (auto simp: SendAhdlc_def Let_def bind_res_Inr_iff)
  show ?thesis
  proof (cases good)
    case True
    with run have "BlockingWrite (frame_buffer ops e1) (frame_index ops e1) (h\<lparr>encoder := e1\<rparr>) = Inr h'"
      by (auto simp: bind_res_Inr_iff)
    from BlockingWrite_sent [OF this] BlockingWrite_decoder [OF this] show ?thesis by simp
  qed (use run in auto)
qed

text \<open>The bytes \<open>bs\<close> are a frame of at least eight bytes that the decoder turns into a message of
  type \<open>t\<close> with the payload \<open>p\<close>, its checksum good or bad.\<close>

definition arrives :: "('e, 'd) ahdlc \<Rightarrow> byte list \<Rightarrow> 'd \<Rightarrow> u16 \<Rightarrow> byte list \<Rightarrow> bool" where
  "arrives ops bs d t p \<longleftrightarrow> 7 < length bs \<and> length p \<le> PROTO_BUFFER_MAX_LEN - 2 \<and>
     (\<exists>r d'. feed ops 0 bs d = Some (r, d') \<and> (r = AHDLC_COMPLETE \<or> decode_bad_crc ops d') \<and>
        pdu_index ops d' = 2 + length p \<and> pdu_index ops d' \<le> length (pdu_buffer ops d') \<and>
        take (pdu_index ops d') (pdu_buffer ops d') = be16 t @ p)"

lemma arrives_delivers:
  assumes "arrives ops bs (decoder h) t p" "rx (tty h) = map Got bs @ rs" "length bs \<le> length (clk (tty h))"
    and "message_wf m0"
  obtains r h' where "GetAhdlc ops m0 timeout h = Inr (NO_ERROR, r, h')" "mtype r = t" "payload r = p"
    "unat (data_len r) = length p"
proof -
  from assms(1) obtain x d where a: "7 < length bs" "length p \<le> PROTO_BUFFER_MAX_LEN - 2"
    "feed ops 0 bs (decoder h) = Some (x, d)" "x = AHDLC_COMPLETE \<or> decode_bad_crc ops d"
    "pdu_index ops d = 2 + length p" "pdu_index ops d \<le> length (pdu_buffer ops d)"
    "take (pdu_index ops d) (pdu_buffer ops d) = be16 t @ p"
    unfolding arrives_def by blast
  from GetAhdlc_delivers [OF assms(2,3) a(1,3-7,2) assms(4), of timeout] obtain r h' where
    "GetAhdlc ops m0 timeout h = Inr (NO_ERROR, r, h')" "mtype r = t" "payload r = p" "sendable r" by blast
  with length_payload [of r] that show thesis by simp
qed

text \<open>The answer that a test sees over aHDLC is the message that arrives.\<close>

lemma answers_over_ahdlc:
  assumes "uses_ahdlc (rig_cfg rig)" "SendAhdlc (rig_ops rig) m h = Inr (NO_ERROR, h1)"
    and "rx (tty h) = map Got bs @ rs" "length bs \<le> length (clk (tty h))"
    and "arrives (rig_ops rig) bs (decoder h) t p" "message_wf m0"
  obtains r where "answers_data rig m m0 h = (\<lambda>r'. r' = r)" "mtype r = t" "payload r = p"
    "unat (data_len r) = length p"
proof -
  from SendAhdlc_frame [OF assms(2)] assms(3-5) have
    "arrives (rig_ops rig) bs (decoder h1) t p" "rx (tty h1) = map Got bs @ rs" "length bs \<le> length (clk (tty h1))"
    by simp_all
  from arrives_delivers [OF this assms(6), of MSG_TIME] obtain r h' where
    r: "GetAhdlc (rig_ops rig) m0 MSG_TIME h1 = Inr (NO_ERROR, r, h')" "mtype r = t" "payload r = p"
      "unat (data_len r) = length p" .
  then have "answers_data rig m m0 h = (\<lambda>r'. r' = r)"
    using assms(2) by (auto intro!: ext simp: answers_data_def asked_def dispatch(1,2) [OF assms(1)])
  with r that show thesis by blast
qed

text \<open>C8: over aHDLC, from the bytes on the line to the verdict. When the test's message can be sent and
  a frame arrives, \<open>Echo\<close> passes exactly if the frame's payload is the one sent, and \<open>Sequence\<close>
  exactly if the frame has the right type and counts up from 0, from no byte at all to 256 of them;
  and whether the checksum of the frame is good or bad makes no difference to either.\<close>

theorem data_tests_over_ahdlc:
  assumes "uses_ahdlc (rig_cfg rig)" "rx (tty h) = map Got bs @ rs" "length bs \<le> length (clk (tty h))"
    and "arrives (rig_ops rig) bs (decoder h) t p"
    and "message_wf (uninitialized rig 170 0)" "message_wf (uninitialized rig 186 0)" "message_wf (uninitialized rig 196 0)"
    and "m = fill (id_SEND_SEQUENCE (os_ids api)) (map of_nat [0..<256]) (uninitialized rig 170 0)"
    and "m' = fill (id_ECHO_THIS (os_ids api)) (map (\<lambda>x. ucast (random x)) [0..<446]) (uninitialized rig 186 0)"
    and "SendAhdlc (rig_ops rig) m h = Inr (NO_ERROR, h1)" "SendAhdlc (rig_ops rig) m' h = Inr (NO_ERROR, h2)"
  shows "(passes (Sequence rig api) h \<longleftrightarrow>
      t = id_SEND_SEQUENCE (os_ids api) \<and> length p \<le> 256 \<and> p = map of_nat [0..<length p]) \<and>
    (passes (Echo rig api random) h \<longleftrightarrow> p = payload m')"
proof
  have wf: "message_wf m"
    unfolding assms(8) by (rule sendable_wf [OF fill_message(1) [OF assms(5)]]) (simp add: PROTO_BUFFER_MAX_LEN_def)
  obtain r where r: "answers_data rig m m h = (\<lambda>r'. r' = r)" "mtype r = t" "payload r = p"
      "unat (data_len r) = length p"
    using answers_over_ahdlc [OF assms(1,10,2-4) wf] .
  show "passes (Sequence rig api) h \<longleftrightarrow>
      t = id_SEND_SEQUENCE (os_ids api) \<and> length p \<le> 256 \<and> p = map of_nat [0..<length p]"
    unfolding Sequence_verdict [OF assms(5,8)] by (auto simp: r)
next
  have len: "length (map (\<lambda>x. ucast (random x) :: byte) [0..<446]) \<le> PROTO_BUFFER_MAX_LEN - 2"
    by (simp add: PROTO_BUFFER_MAX_LEN_def)
  note m' = fill_message [OF assms(6) len, of "id_ECHO_THIS (os_ids api)", folded assms(9)]
  obtain r where r: "answers_data rig m' (uninitialized rig 196 0) h = (\<lambda>r'. r' = r)" "payload r = p"
      "unat (data_len r) = length p"
    using answers_over_ahdlc [OF assms(1,11,2-4,7)] .
  have "data_len r = data_len m'" if "p = payload m'"
    using that r(3) m'(2,4) by (simp add: word_unat_eq_iff)
  then show "passes (Echo rig api random) h \<longleftrightarrow> p = payload m'"
    unfolding Echo_verdict [OF assms(6,9)] by (auto simp: r)
qed

text \<open>A rig on a line, and a frame with a bad checksum that holds a sequence.\<close>

definition line_rig :: "(unit, byte list, byte list \<times> bool) rig" where
  "line_rig = (spi_rig echo_device)\<lparr>rig_cfg := uart_config\<rparr>"

definition line_harness :: "(unit, byte list, byte list \<times> bool) harness" where
  "line_harness = sample_harness [] ([], False)
     \<lparr>rx = map Got [0, 2, 0, 1, 2, 3, 99, 126] @ [], wr = [Wrote 1000], clk = replicate 8 0, tx = []\<rparr>"

lemma flag_sends:
  assumes "sendable m" "length (payload m) \<le> 446"
  shows "\<exists>h'. SendAhdlc flag_ahdlc m line_harness = Inr (NO_ERROR, h')"
proof -
  have rd: "read_prefix (unat (data_len m)) (mdata m) = Inr (payload m)"
    using assms(1) by (simp add: sendable_def message_wf_def payload_def fault_simps)
  let ?e = "[ucast (drop_bit 8 (mtype m)), ucast (mtype m)] @ payload m @ [0, 126] :: byte list"
  have enc: "encode_message flag_ahdlc m (encoder line_harness) = Inr (True, ?e)"
    using assms(2) by (simp add: encode_message_def flag_ahdlc_def Let_def rd)
  have sel: "frame_buffer flag_ahdlc e = e" "frame_index flag_ahdlc e = length e" for e
    by (simp_all add: flag_ahdlc_def)
  let ?h = "line_harness\<lparr>encoder := ?e\<rparr>"
  have "\<exists>ws'. write_loop ?e (wr (tty ?h)) (tx (tty ?h)) = Inr (ws', tx (tty ?h) @ ?e)"
    by (rule write_loop_returns) (use assms(2) in \<open>simp_all add: line_harness_def sample_harness_def write_retries_def\<close>)
  then have "\<exists>h'. BlockingWrite ?e (length ?e) ?h = Inr h'"
    by (auto simp: BlockingWrite_def fault_simps Let_def)
  with enc show ?thesis by (auto simp: SendAhdlc_def sel Let_def bind_res_Inr_iff)
qed

theorem data_tests_over_ahdlc_witness:
  "passes (Sequence line_rig sample_protos) line_harness \<and>
   \<not> passes (Echo line_rig sample_protos (\<lambda>x. of_nat x)) line_harness"
proof -
  let ?bs = "[0, 2, 0, 1, 2, 3, 99, 126] :: byte list"
  let ?m = "fill (id_SEND_SEQUENCE (os_ids sample_protos)) (map of_nat [0..<256]) (uninitialized line_rig 170 0)"
  let ?m' = "fill (id_ECHO_THIS (os_ids sample_protos)) (map (\<lambda>x. ucast (of_nat x :: u32)) [0..<446]) (uninitialized line_rig 186 0)"
  have wf: "message_wf (uninitialized line_rig line turn)" for line turn
    by (simp add: line_rig_def message_of_nil_wf)
  have m: "sendable ?m" "length (payload ?m) \<le> 446" "sendable ?m'" "length (payload ?m') \<le> 446"
    using fill_message [OF wf [of 170 0], where bs = "map of_nat [0..<256]" and t = "id_SEND_SEQUENCE (os_ids sample_protos)"]
      fill_message [OF wf [of 186 0], where bs = "map (\<lambda>x. ucast (of_nat x :: u32)) [0..<446]"
        and t = "id_ECHO_THIS (os_ids sample_protos)"]
    by (simp_all add: PROTO_BUFFER_MAX_LEN_def)
  have ops: "rig_ops line_rig = flag_ahdlc" "uses_ahdlc (rig_cfg line_rig)"
    by (simp_all add: line_rig_def spi_rig_def uses_ahdlc_def uart_config_def)
  from flag_sends [OF m(1,2)] flag_sends [OF m(3,4)] obtain h1 h2 where
    sent: "SendAhdlc (rig_ops line_rig) ?m line_harness = Inr (NO_ERROR, h1)"
      "SendAhdlc (rig_ops line_rig) ?m' line_harness = Inr (NO_ERROR, h2)"
    unfolding ops by blast
  have fed: "feed flag_ahdlc 0 ?bs ([], False) = Some (AHDLC_other 2, ([0, 2, 0, 1, 2, 3], True))"
    by (simp add: flag_ahdlc_def frame_over_def)
  have arr: "arrives (rig_ops line_rig) ?bs (decoder line_harness) 2 [0, 1, 2, 3]"
    unfolding arrives_def ops using fed
    by (intro conjI exI [of _ "AHDLC_other 2"] exI [of _ "([0, 2, 0, 1, 2, 3], True)"])
      (simp_all add: line_harness_def sample_harness_def flag_ahdlc_def be16_def PROTO_BUFFER_MAX_LEN_def)
  have line: "rx (tty line_harness) = map Got ?bs @ []" "length ?bs \<le> length (clk (tty line_harness))"
    by (simp_all add: line_harness_def sample_harness_def)
  have up: "[0, 1, 2, 3 :: byte] = map of_nat [0..<length [0, 1, 2, 3 :: byte]]" by (simp add: numeral_eq_Suc)
  have "length (payload ?m') = 446"
    using fill_message(2) [OF wf [of 186 0], where bs = "map (\<lambda>x. ucast (of_nat x :: u32)) [0..<446]"]
    by (simp add: PROTO_BUFFER_MAX_LEN_def)
  then have "[0, 1, 2, 3] \<noteq> payload ?m'" by (auto dest: arg_cong [where f = length])
  with data_tests_over_ahdlc [OF ops(2) line arr wf wf wf refl refl sent] up show ?thesis
    by (simp add: sample_protos_def)
qed

end
