(* ===== verification/Runner.thy ===== *)
theory Runner
  imports Console
begin

text \<open>
  The test runner (\<open>src/gtest_with_gflags_main.cc\<close>): it lists the slow tests and exits, or
  builds a filter that excludes the slow tests, the tests that fail on release firmware, or both,
  and hands over to the test framework, whose own work (command line parsing, \<open>RUN_ALL_TESTS\<close>)
  is outside the repository.
\<close>

subsection \<open>The lists\<close>

definition slow_tests :: "string list" where
  "slow_tests =
     [''AvbTest.*'',
      ''ImportKeyTest.RSASuccess'',
      ''NuggetCoreTest.EnterDeepSleep'',
      ''NuggetCoreTest.HardRebootTest'',
      ''WeaverTest.ReadAttemptCounterPersistsDeepSleep'',
      ''WeaverTest.ReadAttemptCounterPersistsHardReboot'',
      ''WeaverTest.ReadThrottleAfterDeepSleep'',
      ''WeaverTest.ReadThrottleAfterHardReboot'',
      ''WeaverTest.ReadThrottleAfterSleep'',
      ''WeaverTest.WriteDeepSleepRead'',
      ''WeaverTest.WriteHardRebootRead'']"

definition disabled_for_release_tests :: "string list" where
  "disabled_for_release_tests =
     [''DcryptoTest.AesCmacRfc4493Test'',
      ''KeymasterProvisionTest.ProvisionDeviceIdsSuccess'',
      ''KeymasterProvisionTest.ReProvisionDeviceIdsSuccess'',
      ''KeymasterProvisionTest.ProductionModeProvisionFails'',
      ''KeymasterProvisionTest.InvalidDeviceIdFails'',
      ''KeymasterProvisionTest.MaxDeviceIdSuccess'',
      ''KeymasterProvisionTest.NoMeidSuccess'',
      ''NuggetCoreTest.GetUartPassthruInBootloader'',
      ''NuggetCoreTest.EnableUartPassthruInBootloader'',
      ''NuggetCoreTest.DisableUartPassthruInBootloader'',
      ''NuggetOsTest.NoticePing'',
      ''NuggetOsTest.InvalidMessageType'',
      ''NuggetOsTest.Sequence'',
      ''NuggetOsTest.Echo'',
      ''NuggetOsTest.AesCbc'',
      ''NuggetOsTest.Trng'',
      ''WeaverTest.ProductionResetWipesUserData'',
      ''AvbTest.*'',
      ''ImportKeyTest.*'',
      ''ImportWrappedKeyTest.ImportSuccess'']"

subsection \<open>The filter\<close>

fun generate_disabled_test_list :: "string list \<Rightarrow> sstream \<Rightarrow> sstream" where
  "generate_disabled_test_list [] ss = ss"
| "generate_disabled_test_list (test # tests) ss =
     generate_disabled_test_list tests
       (ss_write test (ss_write (if ss_tellp ss = 0 then ''-'' else '':'') ss))"

record runner_flags =
  list_slow_tests :: bool
  disable_slow_tests :: bool
  release_tests :: bool

definition android_flags :: runner_flags where
  "android_flags = \<lparr>list_slow_tests = False, disable_slow_tests = False, release_tests = True\<rparr>"

text \<open>The runner prints the list and exits with 0, or runs the tests under a filter.\<close>

datatype runner = Listed string | Run string

definition main :: "runner_flags \<Rightarrow> string \<Rightarrow> runner" where
  "main flags filter_flag =
     (if list_slow_tests flags
      then Listed (''Slow tests:'' @ [NL] @ concat (map (\<lambda>test. ''  '' @ test @ [NL]) slow_tests))
      else
        (let ss = ss_new '''';
             ss = (if disable_slow_tests flags then generate_disabled_test_list slow_tests ss else ss);
             ss = (if release_tests flags then generate_disabled_test_list disabled_for_release_tests ss else ss)
         in Run (if disable_slow_tests flags \<or> release_tests flags then ss_str ss else filter_flag)))"

subsection \<open>Reading the filter back\<close>

text \<open>Splitting at every separator, as the framework reads a list of patterns.\<close>

fun split_on :: "char \<Rightarrow> string \<Rightarrow> string list" where
  "split_on c [] = [[]]"
| "split_on c (x # xs) =
     (if x = c then [] # split_on c xs
      else (case split_on c xs of [] \<Rightarrow> [[x]] | y # ys \<Rightarrow> (x # y) # ys))"

definition excluding :: "string list \<Rightarrow> string" where
  "excluding tests = (case tests of [] \<Rightarrow> [] | t # ts \<Rightarrow> ''-'' @ t @ concat (map (\<lambda>t. CHR '':'' # t) ts))"

lemma split_on_nonempty: "split_on c xs \<noteq> []"
  by (induction xs) (auto split: list.splits)

lemma split_on_append:
  "c \<notin> set t \<Longrightarrow> split_on c (t @ c # rest) = t # split_on c rest"
  by (induction t) auto

lemma split_on_last: "c \<notin> set t \<Longrightarrow> split_on c t = [t]"
  by (induction t) auto

lemma split_on_excluding:
  assumes "tests \<noteq> []" "\<forall>t \<in> set tests. CHR '':'' \<notin> set t"
  shows "excluding tests = CHR ''-'' # tl (excluding tests) \<and> split_on (CHR '':'') (tl (excluding tests)) = tests"
proof -
  have "split_on (CHR '':'') (t @ concat (map (\<lambda>t. CHR '':'' # t) ts)) = t # ts"
    if "\<forall>u \<in> set (t # ts). CHR '':'' \<notin> set u" for t ts
    using that by (induction ts arbitrary: t) (auto simp: split_on_last split_on_append)
  with assms show ?thesis by (cases tests) (auto simp: excluding_def)
qed

text \<open>The stream holds the exclusion of what has been added to it, and its put position is at the
  end: that is what makes \<open>tellp() == 0\<close> mean that nothing has been added.\<close>

lemma generate_excluding:
  assumes "ss_at_end ss" "ss_str ss = excluding before"
  shows "ss_at_end (generate_disabled_test_list tests ss) \<and>
    ss_str (generate_disabled_test_list tests ss) = excluding (before @ tests)"
  using assms
proof (induction tests arbitrary: ss before)
  case Nil
  then show ?case by simp
next
  case (Cons t tests)
  let ?sep = "if ss_tellp ss = 0 then ''-'' else '':''"
  have "ss_tellp ss = 0 \<longleftrightarrow> before = []"
    using Cons.prems by (cases before) (auto simp: ss_at_end_def ss_tellp_def ss_str_def excluding_def)
  then have "excluding before @ ?sep @ t = excluding (before @ [t])"
    by (cases before) (auto simp: excluding_def)
  with Cons.prems ss_write_at_end [of ss ?sep] ss_write_at_end [of "ss_write ?sep ss" t]
  have "ss_at_end (ss_write t (ss_write ?sep ss))"
    "ss_str (ss_write t (ss_write ?sep ss)) = excluding (before @ [t])" by auto
  from Cons.IH [OF this] show ?case by simp
qed

lemma generate_from_empty:
  "ss_at_end (generate_disabled_test_list tests (ss_new ''''))"
  "ss_str (generate_disabled_test_list tests (ss_new '''')) = excluding tests"
proof -
  have "ss_at_end (ss_new '''')" "ss_str (ss_new '''') = excluding []"
    by (simp_all add: ss_str_def ss_new_def excluding_def ss_at_end_def)
  from generate_excluding [OF this, of tests]
  show "ss_at_end (generate_disabled_test_list tests (ss_new ''''))"
    "ss_str (generate_disabled_test_list tests (ss_new '''')) = excluding tests" by simp_all
qed

lemma test_names:
  "slow_tests \<noteq> []" "disabled_for_release_tests \<noteq> []"
  "\<forall>t \<in> set slow_tests. CHR '':'' \<notin> set t" "\<forall>t \<in> set disabled_for_release_tests. CHR '':'' \<notin> set t"
  by (simp_all add: slow_tests_def disabled_for_release_tests_def)

lemma main_filter:
  assumes "\<not> list_slow_tests flags" "disable_slow_tests flags \<or> release_tests flags"
  shows "main flags f = Run (excluding ((if disable_slow_tests flags then slow_tests else []) @
    (if release_tests flags then disabled_for_release_tests else [])))"
  using assms generate_excluding [OF generate_from_empty] generate_from_empty
  by (auto simp: main_def Let_def)

text \<open>C23: the filter that the runner installs is one list of exclusions whatever flags are given:
  a minus sign, then exactly the names of the chosen lists, in order, separated by single colons;
  with neither flag the filter of the command line stays as it is.\<close>

theorem runner_filter:
  assumes "\<not> list_slow_tests flags"
  shows "(disable_slow_tests flags \<or> release_tests flags \<longrightarrow>
      (\<exists>names. main flags f = Run (CHR ''-'' # names) \<and>
         split_on (CHR '':'') names =
           (if disable_slow_tests flags then slow_tests else []) @
           (if release_tests flags then disabled_for_release_tests else []))) \<and>
    (\<not> disable_slow_tests flags \<and> \<not> release_tests flags \<longrightarrow> main flags f = Run f)"
proof (intro conjI impI)
  assume any: "disable_slow_tests flags \<or> release_tests flags"
  let ?tests = "(if disable_slow_tests flags then slow_tests else []) @
    (if release_tests flags then disabled_for_release_tests else [])"
  have "?tests \<noteq> []" "\<forall>t \<in> set ?tests. CHR '':'' \<notin> set t"
    using any test_names by auto
  from split_on_excluding [OF this] main_filter [OF assms any, of f]
  show "\<exists>names. main flags f = Run (CHR ''-'' # names) \<and> split_on (CHR '':'') names = ?tests"
    by metis
next
  assume "\<not> disable_slow_tests flags \<and> \<not> release_tests flags"
  with assms show "main flags f = Run f" by (simp add: main_def Let_def)
qed

theorem runner_filter_witness:
  "\<exists>names. main android_flags ''*'' = Run (CHR ''-'' # names) \<and>
     split_on (CHR '':'') names = disabled_for_release_tests"
  using runner_filter [of android_flags "''*''"] by (simp add: android_flags_def)

end
