(* ===== verification/AvbTools.thy ===== *)
theory AvbTools
  imports GTest NuggetTools
begin

text \<open>
  \<open>tools/avb_tools.cc\<close> and \<open>tools/keymaster_tools.cc\<close>: calls of the verified boot and
  keymaster applications that the tests share.

  The service stubs (\<open>Avb.client.h\<close>, \<open>Keymaster.client.h\<close>) are generated and not in the
  repository: a service is a record of its calls over the world. The two sizes of \<open>avb.h\<close> are
  parameters. Where a function writes through pointers, it takes the previous contents and returns
  the new ones; \<open>None\<close> stands for a null pointer.
\<close>

datatype reset_kind = LOCKS | PRODUCTION
datatype reset_selector = CURRENT

record reset_request =
  kind :: reset_kind
  token_selector :: reset_selector
  token_signature :: "byte list"

record get_state_response =
  bootloader :: bool
  production :: bool
  number_of_locks :: u32
  locks :: "byte list"

record reset_challenge_response =
  challenge_selector :: u32
  challenge_nonce :: u64
  challenge_data :: "byte list"

record set_production_request =
  set_production :: bool
  production_data :: "byte list option"

record 'w avb =
  avb_BootloaderDone :: "client \<Rightarrow> 'w \<Rightarrow> int \<times> 'w"
  avb_GetState :: "client \<Rightarrow> 'w \<Rightarrow> int \<times> get_state_response \<times> 'w"
  avb_Reset :: "client \<Rightarrow> reset_request \<Rightarrow> 'w \<Rightarrow> int \<times> 'w"
  avb_GetResetChallenge :: "client \<Rightarrow> 'w \<Rightarrow> int \<times> reset_challenge_response \<times> 'w"
  avb_SetProduction :: "client \<Rightarrow> set_production_request \<Rightarrow> 'w \<Rightarrow> int \<times> 'w"
  avb_signature_size :: nat
  avb_device_data_size :: nat

abbreviation AVB :: string where "AVB \<equiv> ''avb_tools.cc''"

subsection \<open>Bootloader\<close>

definition SetBootloader :: "'w nos \<Rightarrow> client \<Rightarrow> ('w, unit) proc" where
  "SetBootloader env c =
     and_then (act (\<lambda>w. case call_app env c APP_ID_AVB_TEST (Param 0) [] (Some vec_empty) w of
                 (retval, _, w) \<Rightarrow> (retval, w)))
       (\<lambda>retval. EXPECT AVB 38 (retval = APP_SUCCESS))"

definition BootloaderDone :: "'w avb \<Rightarrow> client \<Rightarrow> ('w, unit) proc" where
  "BootloaderDone svc c =
     and_then (act (avb_BootloaderDone svc c)) (\<lambda>value. ASSERT AVB 46 (value = APP_SUCCESS))"

subsection \<open>\<open>GetState\<close>\<close>

text \<open>The loop that copies the locks: entry \<open>i\<close> of the response to entry \<open>i\<close> of the caller's
  array.\<close>

fun copy_locks :: "nat \<Rightarrow> byte list \<Rightarrow> byte list \<Rightarrow> fault + byte list" where
  "copy_locks i [] dst = Inr dst"
| "copy_locks i (b # bs) dst =
     (if i < length dst then copy_locks (Suc i) bs (dst[i := b]) else Inl Out_of_bounds)"

text \<open>An early return leaves the caller's variables as they were, so the outcome always has
  their contents.\<close>

definition GetState ::
  "'w avb \<Rightarrow> client \<Rightarrow> bool option \<Rightarrow> bool option \<Rightarrow> byte list option \<Rightarrow>
   ('w, bool option \<times> bool option \<times> byte list option) proc" where
  "GetState svc c bl pr lks s =
     (let (value, response, w) = avb_GetState svc c (tworld s); s = s\<lparr>tworld := w\<rparr> in
      if value \<noteq> APP_SUCCESS then Inr (Some (bl, pr, lks), s\<lparr>failed := failed s @ [Fatal AVB 55]\<rparr>)
      else
        (let s = (if number_of_locks response = 4 then s else s\<lparr>failed := failed s @ [Nonfatal AVB 56]\<rparr>);
             bl = map_option (\<lambda>_. bootloader response) bl;
             pr = map_option (\<lambda>_. production response) pr in
         case lks of
           None \<Rightarrow> Inr (Some (bl, pr, None), s)
         | Some dst \<Rightarrow>
             bind_res (copy_locks 0 (locks response) dst) (\<lambda>dst. Inr (Some (bl, pr, Some dst), s))))"

subsection \<open>Reset\<close>

text \<open>\<open>sig\<close> is the pointer, \<open>sz\<close> the size that goes with it.\<close>

definition Reset ::
  "'w avb \<Rightarrow> client \<Rightarrow> reset_kind \<Rightarrow> byte list option \<Rightarrow> nat \<Rightarrow> 'w \<Rightarrow> fault + (int \<times> 'w)" where
  "Reset svc c k sig sz w =
     bind_res
       (case sig of
          Some bs \<Rightarrow> if sz \<noteq> 0 then read_prefix sz bs else Inr (replicate (avb_signature_size svc) 0)
        | None \<Rightarrow> Inr (replicate (avb_signature_size svc) 0))
       (\<lambda>bs. Inr (avb_Reset svc c \<lparr>kind = k, token_selector = CURRENT, token_signature = bs\<rparr> w))"

text \<open>The outcome: the code, and the contents of \<open>*selector\<close>, \<open>*nonce\<close>, \<open>device_data\<close> and
  \<open>*len\<close>.\<close>

definition GetResetChallenge ::
  "'w avb \<Rightarrow> client \<Rightarrow> u32 \<Rightarrow> u64 \<Rightarrow> byte list \<Rightarrow> nat \<Rightarrow> 'w \<Rightarrow>
   fault + ((int \<times> u32 \<times> u64 \<times> byte list \<times> nat) \<times> 'w)" where
  "GetResetChallenge svc c selector nonce device_data len w =
     (let (ret, response, w) = avb_GetResetChallenge svc c w in
      if ret \<noteq> APP_SUCCESS then Inr ((ret, selector, nonce, device_data, len), w)
      else
        (let data = challenge_data response;
             n = (if len < length data then len else length data) in
         bind_res (write_at 0 (take n data) device_data) (\<lambda>device_data.
           Inr ((ret, challenge_selector response, challenge_nonce response, device_data, length data), w))))"

definition SetProduction ::
  "'w avb \<Rightarrow> client \<Rightarrow> bool \<Rightarrow> byte list option \<Rightarrow> nat \<Rightarrow> 'w \<Rightarrow> fault + (int \<times> 'w)" where
  "SetProduction svc c pr data sz w =
     bind_res
       (case data of
          Some bs \<Rightarrow> if sz \<noteq> 0 then bind_res (read_prefix sz bs) (\<lambda>bs. Inr (Some bs)) else Inr None
        | None \<Rightarrow> Inr None)
       (\<lambda>field.
         let field = (if pr \<and> data = None then Some (replicate (avb_device_data_size svc) 0) else field)
         in Inr (avb_SetProduction svc c \<lparr>set_production = pr, production_data = field\<rparr> w))"

subsection \<open>\<open>ResetProduction\<close>\<close>

text \<open>\<open>junk\<close> is the uninitialized value of the local \<open>production\<close> (and \<open>bootloader\<close>), which the
  last assertion reads when \<open>GetState\<close> has returned early.\<close>

definition ResetProduction :: "'w avb \<Rightarrow> client \<Rightarrow> bool \<Rightarrow> ('w, unit) proc" where
  "ResetProduction svc c junk =
     (let data = replicate (avb_device_data_size svc) 0 in
      and_then (attempt (GetResetChallenge svc c 0 0 data (length data))) (\<lambda>(code, selector, nonce, data, len).
      and_then (ASSERT AVB 141 (code = APP_SUCCESS)) (\<lambda>_.
      and_then (attempt (Reset svc c PRODUCTION (Some (replicate (avb_signature_size svc) 0)) (avb_signature_size svc))) (\<lambda>_.
      and_then (GetState svc c (Some junk) (Some junk) (Some [0, 0, 0, 0])) (\<lambda>(_, pr, _).
      ASSERT AVB 149 (pr = Some False))))))"

subsection \<open>\<open>SetRootOfTrust\<close>\<close>

record 'w keymaster_root =
  km_SetRootOfTrust :: "client \<Rightarrow> byte list \<Rightarrow> 'w \<Rightarrow> int \<times> int \<times> 'w"
  km_OK :: int

abbreviation KM :: string where "KM \<equiv> ''keymaster_tools.cc''"

definition SetRootOfTrust ::
  "'w nos \<Rightarrow> 'w avb \<Rightarrow> 'w keymaster_root \<Rightarrow> client \<Rightarrow> ('w, unit) proc" where
  "SetRootOfTrust env svc km c =
     block
       [invoke (SetBootloader env c),
        and_then (act (\<lambda>w. case km_SetRootOfTrust km c (replicate 32 0) w of (value, code, w) \<Rightarrow> ((value, code), w)))
          (\<lambda>(value, code). block
             [ASSERT KM 40 (value = APP_SUCCESS),
              EXPECT KM 41 (code = km_OK km),
              invoke (BootloaderDone svc c)])]"

subsection \<open>What these functions do\<close>

lemma copy_locks_fits:
  "length bs \<le> length dst - i \<Longrightarrow> i \<le> length dst \<Longrightarrow>
   copy_locks i bs dst = Inr (take i dst @ bs @ drop (i + length bs) dst)"
proof (induction i bs dst rule: copy_locks.induct)
  case (2 i b bs dst)
  then have i: "i < length dst" by simp
  with 2 have "copy_locks (Suc i) bs (dst[i := b]) =
      Inr (take (Suc i) (dst[i := b]) @ bs @ drop (Suc i + length bs) (dst[i := b]))" by simp
  with i show ?case by (simp add: take_Suc_conv_app_nth)
qed simp

lemma copy_locks_overflows:
  "length dst - i < length bs \<Longrightarrow> i \<le> length dst \<Longrightarrow> copy_locks i bs dst = Inl Out_of_bounds"
  by (induction i bs dst rule: copy_locks.induct) auto

text \<open>C24: \<open>GetState\<close> is told how many locks the device reports but copies as many as the response
  holds: into the four-entry array that the callers pass, a response with more entries is written
  past the end, whatever number it reports.\<close>

theorem GetState_trusts_response:
  assumes "avb_GetState svc c w = (APP_SUCCESS, r, w')" "length dst = 4"
  shows "(4 < length (locks r) \<longrightarrow> GetState svc c bl pr (Some dst) \<lparr>tworld = w, failed = fs\<rparr> = Inl Out_of_bounds) \<and>
    (length (locks r) \<le> 4 \<longrightarrow>
       GetState svc c bl pr (Some dst) \<lparr>tworld = w, failed = fs\<rparr> =
         Inr (Some (map_option (\<lambda>_. bootloader r) bl, map_option (\<lambda>_. production r) pr,
                    Some (locks r @ drop (length (locks r)) dst)),
              \<lparr>tworld = w', failed = (if number_of_locks r = 4 then fs else fs @ [Nonfatal AVB 56])\<rparr>))"
  using assms copy_locks_fits [of "locks r" dst 0] copy_locks_overflows [of dst 0 "locks r"]
  by (simp add: GetState_def Let_def)

lemma records_GetState [simp, records_intros]: "records (GetState svc c bl pr lks)"
  by (auto simp: records_def GetState_def Let_def bind_res_Inr_iff split: prod.splits if_splits option.splits)

lemma records_avb [simp, records_intros]:
  "records (SetBootloader env c)" "records (BootloaderDone svc c)" "records (ResetProduction svc c junk)"
  by (auto simp: SetBootloader_def BootloaderDone_def ResetProduction_def Let_def
      intro!: records_intros split: prod.splits)

text \<open>What it takes for \<open>GetState\<close> to pass.\<close>

lemma passed_GetState:
  "passed (GetState svc c bl pr lks) w x w' \<longleftrightarrow>
    (\<exists>r. avb_GetState svc c w = (APP_SUCCESS, r, w') \<and> number_of_locks r = 4 \<and>
       (\<forall>dst. lks = Some dst \<longrightarrow> length (locks r) \<le> length dst) \<and>
       x = (map_option (\<lambda>_. bootloader r) bl, map_option (\<lambda>_. production r) pr,
            map_option (\<lambda>dst. locks r @ drop (length (locks r)) dst) lks))"
proof -
  obtain st r w1 where call: "avb_GetState svc c w = (st, r, w1)" by (cases "avb_GetState svc c w")
  show ?thesis
  proof (cases "st = APP_SUCCESS")
    case True
    have "copy_locks 0 (locks r) dst =
        (if length (locks r) \<le> length dst then Inr (locks r @ drop (length (locks r)) dst) else Inl Out_of_bounds)" for dst
      using copy_locks_fits [of "locks r" dst 0] copy_locks_overflows [of dst 0 "locks r"] by auto
    with True call show ?thesis
      by (cases lks) (auto simp: passed_def GetState_def Let_def fresh_def)
  next
    case False
    with call show ?thesis by (auto simp: passed_def GetState_def Let_def fresh_def)
  qed
qed

text \<open>\<open>GetResetChallenge\<close> never writes more than the caller has room for: with a buffer of the
  given length it copies what fits of the challenge, leaves the rest of the buffer alone, and
  reports the challenge's full length; after an error it leaves every output alone.\<close>

theorem GetResetChallenge_bounded:
  assumes "avb_GetResetChallenge svc c w = (ret, r, w')" "length buf = len"
  shows "GetResetChallenge svc c sel nonce buf len w =
    (if ret \<noteq> APP_SUCCESS then Inr ((ret, sel, nonce, buf, len), w')
     else Inr ((APP_SUCCESS, challenge_selector r, challenge_nonce r,
       take len (challenge_data r) @ drop (length (challenge_data r)) buf, length (challenge_data r)), w'))"
  using assms
  by (cases "len < length (challenge_data r)") (auto simp: GetResetChallenge_def Let_def fault_simps)

text \<open>A passing \<open>ResetProduction\<close> is evidence for what its name says: it passes exactly when
  the challenge could be fetched and the state that the device reports after the reset request has
  four locks and is not in production; the status of the reset request itself is not looked at.\<close>

definition left_production :: "'w avb \<Rightarrow> client \<Rightarrow> 'w \<Rightarrow> 'w \<Rightarrow> bool" where
  "left_production svc c w w' \<longleftrightarrow>
    (\<exists>ch w1 st w2 r. avb_GetResetChallenge svc c w = (APP_SUCCESS, ch, w1) \<and>
       avb_Reset svc c \<lparr>kind = PRODUCTION, token_selector = CURRENT,
         token_signature = replicate (avb_signature_size svc) 0\<rparr> w1 = (st, w2) \<and>
       avb_GetState svc c w2 = (APP_SUCCESS, r, w') \<and> number_of_locks r = 4 \<and> length (locks r) \<le> 4 \<and>
       \<not> production r)"

lemma passed_ResetProduction:
  "passed (ResetProduction svc c junk) w u w' \<longleftrightarrow> left_production svc c w w'"
proof -
  let ?zeros = "replicate (avb_signature_size svc) (0 :: byte)"
  let ?req = "\<lparr>kind = PRODUCTION, token_selector = CURRENT, token_signature = ?zeros\<rparr>"
  let ?buf = "replicate (avb_device_data_size svc) (0 :: byte)"
  have reset: "Reset svc c PRODUCTION (Some ?zeros) (avb_signature_size svc) w = Inr (avb_Reset svc c ?req w)" for w
    by (simp add: Reset_def fault_simps)
  have challenge: "(\<exists>sel nonce data len. GetResetChallenge svc c 0 0 ?buf (length ?buf) w =
        Inr ((APP_SUCCESS, sel, nonce, data, len), w')) \<longleftrightarrow>
      (\<exists>ch. avb_GetResetChallenge svc c w = (APP_SUCCESS, ch, w'))" for w w'
    by (cases "avb_GetResetChallenge svc c w") (auto simp: GetResetChallenge_def Let_def fault_simps)
  have "passed (ResetProduction svc c junk) w u w' \<longleftrightarrow>
    (\<exists>w1. (\<exists>sel nonce data len. GetResetChallenge svc c 0 0 ?buf (length ?buf) w =
        Inr ((APP_SUCCESS, sel, nonce, data, len), w1)) \<and>
      (\<exists>st w2. avb_Reset svc c ?req w1 = (st, w2) \<and>
        (\<exists>r. avb_GetState svc c w2 = (APP_SUCCESS, r, w') \<and> number_of_locks r = 4 \<and>
           length (locks r) \<le> 4 \<and> \<not> production r)))"
    unfolding ResetProduction_def Let_def
    by (simp add: passed_simps passed_GetState reset numeral_eq_Suc) blast
  then show ?thesis unfolding challenge left_production_def by blast
qed

theorem ResetProduction_verdict:
  "passes (ResetProduction svc c junk) w \<longleftrightarrow> (\<exists>w'. left_production svc c w w')"
  by (simp add: passes_passed passed_ResetProduction)

text \<open>A device with fixed answers, to evaluate the functions on.\<close>

definition fixed_avb :: "byte list \<Rightarrow> byte list \<Rightarrow> unit avb" where
  "fixed_avb lks data = \<lparr>
     avb_BootloaderDone = (\<lambda>c w. (APP_SUCCESS, w)),
     avb_GetState = (\<lambda>c w. (APP_SUCCESS,
        \<lparr>bootloader = False, production = False, number_of_locks = 4, locks = lks\<rparr>, w)),
     avb_Reset = (\<lambda>c r w. (APP_SUCCESS, w)),
     avb_GetResetChallenge = (\<lambda>c w. (APP_SUCCESS,
        \<lparr>challenge_selector = 0, challenge_nonce = 9, challenge_data = data\<rparr>, w)),
     avb_SetProduction = (\<lambda>c r w. (APP_SUCCESS, w)),
     avb_signature_size = 4, avb_device_data_size = 3\<rparr>"

theorem GetState_trusts_response_witness:
  "GetState (fixed_avb [0, 0, 0, 0, 1] []) CitadeldProxyClient None None (Some [0, 0, 0, 0])
     \<lparr>tworld = (), failed = []\<rparr> = Inl Out_of_bounds"
  using GetState_trusts_response [of "fixed_avb [0, 0, 0, 0, 1] []" CitadeldProxyClient "()"
      "\<lparr>bootloader = False, production = False, number_of_locks = 4, locks = [0, 0, 0, 0, 1]\<rparr>" "()"
      "[0, 0, 0, 0]" None None "[]"]
  by (simp add: fixed_avb_def)

theorem GetResetChallenge_bounded_witness:
  "GetResetChallenge (fixed_avb [] [1, 2, 3, 4]) CitadeldProxyClient 5 5 [0, 0] 2 () =
     Inr ((APP_SUCCESS, 0, 9, [1, 2], 4), ())"
  using GetResetChallenge_bounded [of "fixed_avb [] [1, 2, 3, 4]" CitadeldProxyClient "()" APP_SUCCESS
      "\<lparr>challenge_selector = 0, challenge_nonce = 9, challenge_data = [1, 2, 3, 4]\<rparr>" "()" "[0, 0]" 2 5 5]
  by (simp add: fixed_avb_def)

end
