(* ===== verification/Fixture.thy ===== *)
theory Fixture
  imports AvbTools Harness
begin

text \<open>
  What the test classes that talk to applications share: \<open>SetUpTestCase\<close> makes a harness, whose
  only purpose is to print what comes over the UART, and a client; \<open>TearDownTestCase\<close> closes the
  client and destroys both. The tests themselves then run on the world that the client acts on.
\<close>

record ('w, 'p) fixture =
  fx_client :: "client option"
  fx_printer :: "'p option"
  fx_serial :: string
  fx_world :: 'w

text \<open>\<open>printer\<close> is the outcome of \<open>TestHarness::MakeUnique()\<close>; the place is that of the check that
  the client is open.\<close>

definition connect ::
  "'w nos \<Rightarrow> config \<Rightarrow> fault + 'p \<Rightarrow> string \<Rightarrow> nat \<Rightarrow> (('w, 'p) fixture, unit) proc" where
  "connect env cfg printer file line =
     and_then (attempt (\<lambda>fx. bind_res printer (\<lambda>p. Inr ((), fx\<lparr>fx_printer := Some p\<rparr>)))) (\<lambda>_.
     and_then (act (\<lambda>fx.
       let (c, serial, w) = MakeNuggetClient env (android cfg) (citadel_device cfg) (fx_serial fx) (fx_world fx);
           w = client_open env c w
       in (client_is_open env c w, fx\<lparr>fx_client := Some c, fx_serial := serial, fx_world := w\<rparr>))) (\<lambda>up.
     EXPECT file line up))"

definition disconnect :: "'w nos \<Rightarrow> (('w, 'p) fixture, unit) proc" where
  "disconnect env = attempt (\<lambda>fx.
     case fx_client fx of
       None \<Rightarrow> Inl Out_of_bounds
     | Some c \<Rightarrow> Inr ((), fx\<lparr>fx_client := None, fx_printer := None, fx_world := client_close env c (fx_world fx)\<rparr>))"

lemma records_fixture [simp, records_intros]:
  "records (connect env cfg printer file line)" "records (disconnect env)"
  by (auto simp: connect_def disconnect_def intro!: records_intros)

text \<open>After a passing \<open>SetUpTestCase\<close> there is an open client, and tearing down works.\<close>

lemma passed_connect:
  "passed (connect env cfg printer file line) fx u fx' \<Longrightarrow>
   (\<exists>c. fx_client fx' = Some c \<and> client_is_open env c (fx_world fx')) \<and> fx_printer fx' \<noteq> None"
  by (auto simp: connect_def passed_simps bind_res_Inr_iff Let_def case_prod_beta)

lemma disconnect_after_connect:
  "passed (connect env cfg printer file line) fx u fx' \<Longrightarrow>
   \<exists>fx''. passed (disconnect env) fx' () fx'' \<and> fx_client fx'' = None \<and> fx_printer fx'' = None"
  by (drule passed_connect) (auto simp: disconnect_def passed_simps)

text \<open>Setting up goes on on the world of the client that was made.\<close>

definition with_client :: "(client \<Rightarrow> ('w, 'a) proc) \<Rightarrow> (('w, 'p) fixture, 'a) proc" where
  "with_client f s =
     (case fx_client (tworld s) of
        None \<Rightarrow> Inl Out_of_bounds
      | Some c \<Rightarrow>
          bind_res (f c \<lparr>tworld = fx_world (tworld s), failed = failed s\<rparr>) (\<lambda>(r, s').
            Inr (r, \<lparr>tworld = (tworld s)\<lparr>fx_world := tworld s'\<rparr>, failed = failed s'\<rparr>)))"

lemma records_with_client [simp, records_intros]:
  assumes "\<And>c. records (f c)"
  shows "records (with_client f)"
  unfolding records_def
  by (auto simp: with_client_def bind_res_Inr_iff split: option.splits dest!: recordsD [OF assms])

lemma passed_with_client [passed_simps]:
  "passed (with_client f) fx x fx' \<longleftrightarrow>
   (\<exists>c w'. fx_client fx = Some c \<and> passed (f c) (fx_world fx) x w' \<and> fx' = fx\<lparr>fx_world := w'\<rparr>)"
proof -
  have "\<lparr>tworld = w, failed = []\<rparr> = fresh w" for w :: 'a by (simp add: fresh_def)
  then show ?thesis
    by (auto simp: passed_def with_client_def bind_res_Inr_iff fresh_def split: option.splits)
      (metis tst.surjective unit.exhaust)
qed

end
