(* ===== verification/Provision.thy ===== *)
theory Provision
  imports Fixture Scripts
begin

text \<open>
  \<open>src/keymaster-provision-tests.cc\<close>: provisioning of the device ids, which production mode
  must disallow. \<open>KM_MNF_MAX_ENTRY_SIZE\<close> and the error codes are the firmware's and parameters.
\<close>

record provision_request =
  product_brand :: "string option"
  product_device :: "string option"
  product_name :: "string option"
  serialno :: "string option"
  product_manufacturer :: "string option"
  product_model :: "string option"
  imei :: "string option"
  meid :: "string option"

definition empty_provision_request :: provision_request where
  "empty_provision_request = \<lparr>product_brand = None, product_device = None, product_name = None,
     serialno = None, product_manufacturer = None, product_model = None, imei = None, meid = None\<rparr>"

text \<open>The call returns the status, the error code of the response and the world.\<close>

record 'w keymaster_provision =
  km_ProvisionDeviceIds :: "client \<Rightarrow> provision_request \<Rightarrow> 'w \<Rightarrow> int \<times> int \<times> 'w"
  KM_OK :: int
  PRODUCTION_MODE_PROVISIONING :: int
  INVALID_DEVICE_IDS :: int
  KM_MNF_MAX_ENTRY_SIZE :: nat

abbreviation PROV :: string where "PROV \<equiv> ''keymaster-provision-tests.cc''"

subsection \<open>The fixture\<close>

definition Provision_SetUpTestCase ::
  "'w nos \<Rightarrow> config \<Rightarrow> fault + 'p \<Rightarrow> (('w, 'p) fixture, unit) proc" where
  "Provision_SetUpTestCase env cfg printer = connect env cfg printer PROV 49"

definition Provision_TearDownTestCase :: "'w nos \<Rightarrow> (('w, 'p) fixture, unit) proc" where
  "Provision_TearDownTestCase env = disconnect env"

definition Provision_SetUp :: "'w avb \<Rightarrow> client \<Rightarrow> bool \<Rightarrow> ('w, unit) proc" where
  "Provision_SetUp svc c junk = invoke (ResetProduction svc c junk)"

definition PopulateDefaultRequest :: "provision_request \<Rightarrow> provision_request" where
  "PopulateDefaultRequest r = r\<lparr>product_brand := Some ''Pixel'', product_device := Some ''3'',
     product_name := Some ''Pixel'', serialno := Some ''12345678'', product_manufacturer := Some ''Google'',
     product_model := Some ''3'', imei := Some ''12345678'', meid := Some ''12345678''\<rparr>"

subsection \<open>The tests\<close>

text \<open>The two assertions that follow every request.\<close>

definition provision ::
  "'w keymaster_provision \<Rightarrow> client \<Rightarrow> provision_request \<Rightarrow> int \<Rightarrow> nat \<Rightarrow> nat \<Rightarrow> ('w, unit) proc" where
  "provision km c req code line line' =
     and_then (act (\<lambda>w. case km_ProvisionDeviceIds km c req w of (value, e, w) \<Rightarrow> ((value, e), w)))
       (\<lambda>(value, e). block [ASSERT PROV line (value = APP_SUCCESS), ASSERT PROV line' (e = code)])"

definition default_request :: provision_request where
  "default_request = PopulateDefaultRequest empty_provision_request"

definition ProvisionDeviceIdsSuccess :: "'w keymaster_provision \<Rightarrow> client \<Rightarrow> ('w, unit) proc" where
  "ProvisionDeviceIdsSuccess km c = provision km c default_request (KM_OK km) 84 85"

definition ReProvisionDeviceIdsSuccess :: "'w keymaster_provision \<Rightarrow> client \<Rightarrow> ('w, unit) proc" where
  "ReProvisionDeviceIdsSuccess km c = block
     [provision km c default_request (KM_OK km) 97 98,
      provision km c default_request (KM_OK km) 101 102]"

definition ProductionModeProvisionFails ::
  "'w avb \<Rightarrow> 'w keymaster_provision \<Rightarrow> client \<Rightarrow> ('w, unit) proc" where
  "ProductionModeProvisionFails svc km c = block
     [and_then (attempt (SetProduction svc c True None 0)) (\<lambda>_. give ()),
      provision km c default_request (PRODUCTION_MODE_PROVISIONING km) 117 118]"

definition InvalidDeviceIdFails :: "'w keymaster_provision \<Rightarrow> client \<Rightarrow> ('w, unit) proc" where
  "InvalidDeviceIdFails km c =
     (let bad_serialno = replicate (KM_MNF_MAX_ENTRY_SIZE km + 1) (CHR ''5'') in
      provision km c (default_request\<lparr>serialno := Some bad_serialno\<rparr>) (INVALID_DEVICE_IDS km) 134 135)"

definition MaxDeviceIdSuccess :: "'w keymaster_provision \<Rightarrow> client \<Rightarrow> ('w, unit) proc" where
  "MaxDeviceIdSuccess km c =
     (let max_serialno = replicate (KM_MNF_MAX_ENTRY_SIZE km) (CHR ''5'') in
      provision km c (default_request\<lparr>serialno := Some max_serialno\<rparr>) (KM_OK km) 151 152)"

definition NoMeidSuccess :: "'w keymaster_provision \<Rightarrow> client \<Rightarrow> ('w, unit) proc" where
  "NoMeidSuccess km c = provision km c (default_request\<lparr>meid := None\<rparr>) (KM_OK km) 166 167"

subsection \<open>What a verdict means\<close>

lemma records_provision [simp, records_intros]: "records (provision km c req code line line')"
  by (simp add: provision_def)

lemma records_provision_tests [simp, records_intros]:
  "records (ProvisionDeviceIdsSuccess km c)" "records (ReProvisionDeviceIdsSuccess km c)"
  "records (ProductionModeProvisionFails svc km c)" "records (InvalidDeviceIdFails km c)"
  "records (MaxDeviceIdSuccess km c)" "records (NoMeidSuccess km c)" "records (Provision_SetUp svc c junk)"
  by (auto simp: ProvisionDeviceIdsSuccess_def ReProvisionDeviceIdsSuccess_def ProductionModeProvisionFails_def
      InvalidDeviceIdFails_def MaxDeviceIdSuccess_def NoMeidSuccess_def Provision_SetUp_def Let_def
      intro!: records_intros)

lemma passed_provision [passed_simps]:
  "passed (provision km c req code line line') w u w' \<longleftrightarrow>
   km_ProvisionDeviceIds km c req w = (APP_SUCCESS, code, w')"
  by (auto simp: provision_def passed_simps split: prod.splits)

text \<open>
  The tests as scripts: the device answers a request with a code, or is switched to production with
  zeros for its data, whatever status that has.
\<close>

datatype provision_step = Provisions provision_request int | Enters_production

fun provision_takes ::
  "'w avb \<Rightarrow> 'w keymaster_provision \<Rightarrow> client \<Rightarrow> provision_step \<Rightarrow> 'w \<Rightarrow> 'w \<Rightarrow> bool" where
  "provision_takes svc km c (Provisions req code) w w' \<longleftrightarrow>
     km_ProvisionDeviceIds km c req w = (APP_SUCCESS, code, w')"
| "provision_takes svc km c Enters_production w w' \<longleftrightarrow>
     (\<exists>st. avb_SetProduction svc c \<lparr>set_production = True,
        production_data = Some (replicate (avb_device_data_size svc) 0)\<rparr> w = (st, w'))"

text \<open>The ids that the tests send, for a serial number and a MEID.\<close>

definition ids_request :: "string \<Rightarrow> string option \<Rightarrow> provision_request" where
  "ids_request serial m = \<lparr>product_brand = Some ''Pixel'', product_device = Some ''3'',
     product_name = Some ''Pixel'', serialno = Some serial, product_manufacturer = Some ''Google'',
     product_model = Some ''3'', imei = Some ''12345678'', meid = m\<rparr>"

lemma tests_provision:
  "req = req' \<Longrightarrow> tests (provision_takes svc km c) (provision km c req code line line') [Provisions req' code]"
  by (simp add: tests_def passed_provision)

lemma tests_to_production:
  "tests (provision_takes svc km c) (and_then (attempt (SetProduction svc c True None 0)) (\<lambda>_. give ()))
     [Enters_production]"
  by (auto simp: tests_def passed_simps SetProduction_def intro!: records_intros)

lemma sent_requests:
  "default_request = ids_request ''12345678'' (Some ''12345678'')"
  "default_request\<lparr>serialno := Some s\<rparr> = ids_request s (Some ''12345678'')"
  "default_request\<lparr>meid := None\<rparr> = ids_request ''12345678'' None"
  by (simp_all add: default_request_def empty_provision_request_def PopulateDefaultRequest_def ids_request_def)

text \<open>Each test runs after the fixture's \<open>SetUp\<close>, on a device that has just left production mode.\<close>

lemma passes_provision_test:
  assumes "tests (provision_takes svc km c) body script"
  shows "passes (run_test (Provision_SetUp svc c junk) body) w \<longleftrightarrow>
    (\<exists>w0 w'. left_production svc c w w0 \<and> plays (provision_takes svc km c) script w0 w')"
  using tests_passes [OF assms]
  unfolding passes_run_test [OF records_provision_tests(7) testsD(1) [OF assms]]
  by (simp add: Provision_SetUp_def passed_simps passed_ResetProduction)

text \<open>C26: what a pass of each of the six provisioning tests says, its \<open>SetUp\<close> included. The device
  has given a reset challenge and then reports four locks and no production mode; and after that it
  accepts the eight ids that the test sends, spelled out here; accepts them twice in a row; refuses
  them as soon as it has been switched to production, whatever the status of that; refuses a serial
  number of one character more than the maximal entry and accepts one of the maximal entry; and
  accepts the ids without a MEID.\<close>

theorem provision_verdicts:
  "list_all (\<lambda>(test, script). \<forall>w.
      passes (run_test (Provision_SetUp svc c junk) test) w \<longleftrightarrow>
      (\<exists>w0 w'. left_production svc c w w0 \<and> plays (provision_takes svc km c) script w0 w'))
    [(ProvisionDeviceIdsSuccess km c,
       [Provisions (ids_request ''12345678'' (Some ''12345678'')) (KM_OK km)]),
     (ReProvisionDeviceIdsSuccess km c,
       [Provisions (ids_request ''12345678'' (Some ''12345678'')) (KM_OK km),
        Provisions (ids_request ''12345678'' (Some ''12345678'')) (KM_OK km)]),
     (ProductionModeProvisionFails svc km c,
       [Enters_production,
        Provisions (ids_request ''12345678'' (Some ''12345678'')) (PRODUCTION_MODE_PROVISIONING km)]),
     (InvalidDeviceIdFails km c,
       [Provisions (ids_request (replicate (Suc (KM_MNF_MAX_ENTRY_SIZE km)) (CHR ''5'')) (Some ''12345678''))
          (INVALID_DEVICE_IDS km)]),
     (MaxDeviceIdSuccess km c,
       [Provisions (ids_request (replicate (KM_MNF_MAX_ENTRY_SIZE km) (CHR ''5'')) (Some ''12345678''))
          (KM_OK km)]),
     (NoMeidSuccess km c, [Provisions (ids_request ''12345678'' None) (KM_OK km)])]"
proof -
  let ?tests = "tests (provision_takes svc km c)"
  have "?tests (ProvisionDeviceIdsSuccess km c) [Provisions (ids_request ''12345678'' (Some ''12345678'')) (KM_OK km)]"
    unfolding ProvisionDeviceIdsSuccess_def by (rule tests_provision [OF sent_requests(1)])
  moreover have "?tests (ReProvisionDeviceIdsSuccess km c)
      [Provisions (ids_request ''12345678'' (Some ''12345678'')) (KM_OK km),
       Provisions (ids_request ''12345678'' (Some ''12345678'')) (KM_OK km)]"
    unfolding ReProvisionDeviceIdsSuccess_def by (intro tests_blockI(1,3) tests_provision sent_requests)
  moreover have "?tests (ProductionModeProvisionFails svc km c)
      [Enters_production,
       Provisions (ids_request ''12345678'' (Some ''12345678'')) (PRODUCTION_MODE_PROVISIONING km)]"
    unfolding ProductionModeProvisionFails_def
    by (intro tests_blockI(1,3) tests_to_production tests_provision sent_requests)
  moreover have "?tests (InvalidDeviceIdFails km c)
      [Provisions (ids_request (replicate (Suc (KM_MNF_MAX_ENTRY_SIZE km)) (CHR ''5'')) (Some ''12345678''))
         (INVALID_DEVICE_IDS km)]"
    unfolding InvalidDeviceIdFails_def Let_def Suc_eq_plus1 by (rule tests_provision [OF sent_requests(2)])
  moreover have "?tests (MaxDeviceIdSuccess km c)
      [Provisions (ids_request (replicate (KM_MNF_MAX_ENTRY_SIZE km) (CHR ''5'')) (Some ''12345678'')) (KM_OK km)]"
    unfolding MaxDeviceIdSuccess_def Let_def by (rule tests_provision [OF sent_requests(2)])
  moreover have "?tests (NoMeidSuccess km c) [Provisions (ids_request ''12345678'' None) (KM_OK km)]"
    unfolding NoMeidSuccess_def by (rule tests_provision [OF sent_requests(3)])
  ultimately show ?thesis
    by (simp only: list.pred_inject prod.case passes_provision_test simp_thms)
qed

end
