(* ===== verification/Blob.thy ===== *)
theory Blob
  imports Prelude
begin

text \<open>
  The key blob of \<open>src/blob.h\<close>: its packed structures, how they lie in memory (little endian, no
  padding), and what a reader that casts bytes to \<open>struct km_blob\<close> finds where. The union of the
  key kinds is its bytes, with the structures as views of it.
\<close>

subsection \<open>Structures\<close>

record LITE_BIGNUM =
  dmax :: u32
  bn_d :: u32

record LITE_RSA =
  rsa_e :: u32
  rsa_N :: LITE_BIGNUM
  rsa_d :: LITE_BIGNUM

record blob_params =
  param_tag :: u32
  param_integer :: u32
  param_long_integer :: u64

record blob_enforcements =
  params_count :: u32
  params :: "blob_params list"

record blob_rsa =
  rsa :: LITE_RSA
  N_bytes :: "byte list"
  d_bytes :: "byte list"

record blob_ec =
  curve :: u32
  ec_d :: "byte list"
  ec_x :: "byte list"
  ec_y :: "byte list"

record blob_sym =
  key_bits :: u32
  sym_bytes :: "byte list"

datatype blob_alg = BLOB_RSA | BLOB_EC | BLOB_AES | BLOB_DES | BLOB_HMAC

fun blob_alg_code :: "blob_alg \<Rightarrow> u32" where
  "blob_alg_code BLOB_RSA = 1"
| "blob_alg_code BLOB_EC = 2"
| "blob_alg_code BLOB_AES = 3"
| "blob_alg_code BLOB_DES = 4"
| "blob_alg_code BLOB_HMAC = 5"

definition KM_BLOB_MAGIC :: u32 where "KM_BLOB_MAGIC = 0x474F4F47"
definition KM_BLOB_VERSION :: u32 where "KM_BLOB_VERSION = 1"

record km_blob =
  magic :: u32
  version :: u32
  blob_id :: u32
  iv :: "u32 list"
  sw_enforced :: blob_enforcements
  tee_enforced :: blob_enforcements
  algorithm :: u32
  key :: "byte list"
  hmac :: "byte list"

text \<open>The lengths of the arrays.\<close>

abbreviation "n_params \<equiv> 20 :: nat"
abbreviation "rsa_max \<equiv> 384 :: nat"
abbreviation "sym_max \<equiv> 256 :: nat"
abbreviation "key_area \<equiv> 788 :: nat"

definition enforcements_wf :: "blob_enforcements \<Rightarrow> bool" where
  "enforcements_wf e \<longleftrightarrow> length (params e) = n_params"

definition rsa_wf :: "blob_rsa \<Rightarrow> bool" where
  "rsa_wf r \<longleftrightarrow> length (N_bytes r) = rsa_max \<and> length (d_bytes r) = rsa_max"

definition sym_wf :: "blob_sym \<Rightarrow> bool" where
  "sym_wf k \<longleftrightarrow> length (sym_bytes k) = sym_max"

definition ec_wf :: "blob_ec \<Rightarrow> bool" where
  "ec_wf k \<longleftrightarrow> length (ec_d k) = 32 \<and> length (ec_x k) = 32 \<and> length (ec_y k) = 32"

definition km_blob_wf :: "km_blob \<Rightarrow> bool" where
  "km_blob_wf b \<longleftrightarrow> length (iv b) = 4 \<and> enforcements_wf (sw_enforced b) \<and> enforcements_wf (tee_enforced b) \<and>
     length (key b) = key_area \<and> length (hmac b) = 32"

subsection \<open>Memory\<close>

definition put_bignum :: "LITE_BIGNUM \<Rightarrow> byte list" where
  "put_bignum n = le32 (dmax n) @ le32 (bn_d n)"

definition put_lite_rsa :: "LITE_RSA \<Rightarrow> byte list" where
  "put_lite_rsa r = le32 (rsa_e r) @ put_bignum (rsa_N r) @ put_bignum (rsa_d r)"

definition put_params :: "blob_params \<Rightarrow> byte list" where
  "put_params p = le32 (param_tag p) @ le32 (param_integer p) @ le64 (param_long_integer p)"

definition put_enforcements :: "blob_enforcements \<Rightarrow> byte list" where
  "put_enforcements e = le32 (params_count e) @ concat (map put_params (params e))"

definition put_rsa :: "blob_rsa \<Rightarrow> byte list" where
  "put_rsa r = put_lite_rsa (rsa r) @ N_bytes r @ d_bytes r"

definition put_ec :: "blob_ec \<Rightarrow> byte list" where
  "put_ec k = le32 (curve k) @ ec_d k @ ec_x k @ ec_y k"

definition put_sym :: "blob_sym \<Rightarrow> byte list" where
  "put_sym k = le32 (key_bits k) @ sym_bytes k"

definition put_km_blob :: "km_blob \<Rightarrow> byte list" where
  "put_km_blob b =
     le32 (magic b) @ le32 (version b) @ le32 (blob_id b) @ concat (map le32 (iv b)) @
     put_enforcements (sw_enforced b) @ put_enforcements (tee_enforced b) @
     le32 (algorithm b) @ key b @ hmac b"

text \<open>Reading \<open>n\<close> raw bytes, and the structures.\<close>

definition get_bytes :: "nat \<Rightarrow> byte list \<Rightarrow> (byte list \<times> byte list) option" where
  "get_bytes n bs = (if n \<le> length bs then Some (take n bs, drop n bs) else None)"

definition get_bignum :: "byte list \<Rightarrow> (LITE_BIGNUM \<times> byte list) option" where
  "get_bignum bs = do { (m, bs) \<leftarrow> le_read 4 bs; (d, bs) \<leftarrow> le_read 4 bs; Some (\<lparr>dmax = m, bn_d = d\<rparr>, bs) }"

definition get_lite_rsa :: "byte list \<Rightarrow> (LITE_RSA \<times> byte list) option" where
  "get_lite_rsa bs =
     do { (e, bs) \<leftarrow> le_read 4 bs; (N, bs) \<leftarrow> get_bignum bs; (d, bs) \<leftarrow> get_bignum bs;
          Some (\<lparr>rsa_e = e, rsa_N = N, rsa_d = d\<rparr>, bs) }"

definition get_params :: "byte list \<Rightarrow> (blob_params \<times> byte list) option" where
  "get_params bs =
     do { (t, bs) \<leftarrow> le_read 4 bs; (i, bs) \<leftarrow> le_read 4 bs; (l, bs) \<leftarrow> le_read 8 bs;
          Some (\<lparr>param_tag = t, param_integer = i, param_long_integer = l\<rparr>, bs) }"

definition get_enforcements :: "byte list \<Rightarrow> (blob_enforcements \<times> byte list) option" where
  "get_enforcements bs =
     do { (n, bs) \<leftarrow> le_read 4 bs; (ps, bs) \<leftarrow> dec_times n_params get_params bs;
          Some (\<lparr>params_count = n, params = ps\<rparr>, bs) }"

definition get_rsa :: "byte list \<Rightarrow> (blob_rsa \<times> byte list) option" where
  "get_rsa bs =
     do { (r, bs) \<leftarrow> get_lite_rsa bs; (N, bs) \<leftarrow> get_bytes rsa_max bs; (d, bs) \<leftarrow> get_bytes rsa_max bs;
          Some (\<lparr>rsa = r, N_bytes = N, d_bytes = d\<rparr>, bs) }"

definition get_ec :: "byte list \<Rightarrow> (blob_ec \<times> byte list) option" where
  "get_ec bs =
     do { (c, bs) \<leftarrow> le_read 4 bs; (d, bs) \<leftarrow> get_bytes 32 bs; (x, bs) \<leftarrow> get_bytes 32 bs;
          (y, bs) \<leftarrow> get_bytes 32 bs; Some (\<lparr>curve = c, ec_d = d, ec_x = x, ec_y = y\<rparr>, bs) }"

definition get_sym :: "byte list \<Rightarrow> (blob_sym \<times> byte list) option" where
  "get_sym bs =
     do { (n, bs) \<leftarrow> le_read 4 bs; (ks, bs) \<leftarrow> get_bytes sym_max bs; Some (\<lparr>key_bits = n, sym_bytes = ks\<rparr>, bs) }"

definition get_km_blob :: "byte list \<Rightarrow> (km_blob \<times> byte list) option" where
  "get_km_blob bs =
     do { (m, bs) \<leftarrow> le_read 4 bs; (v, bs) \<leftarrow> le_read 4 bs; (i, bs) \<leftarrow> le_read 4 bs;
          (ivs, bs) \<leftarrow> dec_times 4 (le_read 4) bs;
          (sw, bs) \<leftarrow> get_enforcements bs; (tee, bs) \<leftarrow> get_enforcements bs;
          (alg, bs) \<leftarrow> le_read 4 bs; (k, bs) \<leftarrow> get_bytes key_area bs; (h, bs) \<leftarrow> get_bytes 32 bs;
          Some (\<lparr>magic = m, version = v, blob_id = i, iv = ivs, sw_enforced = sw, tee_enforced = tee,
                 algorithm = alg, key = k, hmac = h\<rparr>, bs) }"

subsection \<open>Every structure reads back\<close>

lemma get_bytes_append [simp]: "length xs = n \<Longrightarrow> get_bytes n (xs @ rest) = Some (xs, rest)"
  by (simp add: get_bytes_def)

lemmas read_back = le32.dec_enc le64.dec_enc

interpretation bignum: stream_codec put_bignum get_bignum "\<lambda>_. True"
  by unfold_locales (simp add: put_bignum_def get_bignum_def read_back)

interpretation lite_rsa: stream_codec put_lite_rsa get_lite_rsa "\<lambda>_. True"
  by unfold_locales (simp add: put_lite_rsa_def get_lite_rsa_def read_back bignum.dec_enc)

interpretation blob_params: stream_codec put_params get_params "\<lambda>_. True"
  by unfold_locales (simp add: put_params_def get_params_def read_back)

interpretation enforcements: stream_codec put_enforcements get_enforcements enforcements_wf
  by unfold_locales
    (simp add: put_enforcements_def get_enforcements_def read_back enforcements_wf_def
      blob_params.dec_times_concat list_all_iff)

interpretation blob_rsa: stream_codec put_rsa get_rsa rsa_wf
  by unfold_locales (simp add: put_rsa_def get_rsa_def rsa_wf_def lite_rsa.dec_enc)

interpretation blob_ec: stream_codec put_ec get_ec ec_wf
  by unfold_locales (simp add: put_ec_def get_ec_def ec_wf_def read_back)

interpretation blob_sym: stream_codec put_sym get_sym sym_wf
  by unfold_locales (simp add: put_sym_def get_sym_def sym_wf_def read_back)

interpretation km_blob: stream_codec put_km_blob get_km_blob km_blob_wf
  by unfold_locales
    (simp add: put_km_blob_def get_km_blob_def km_blob_wf_def read_back enforcements.dec_enc
      le32.dec_times_concat list_all_iff)

subsection \<open>Where the fields lie\<close>

lemma length_concat_const: "(\<And>x. length (f x) = n) \<Longrightarrow> length (concat (map f xs)) = n * length xs"
  by (induction xs) auto

lemma length_put [simp]:
  "length (put_params p) = 16"
  "enforcements_wf e \<Longrightarrow> length (put_enforcements e) = 324"
  "length (put_lite_rsa r) = 20"
  "rsa_wf q \<Longrightarrow> length (put_rsa q) = key_area"
  by (simp_all add: put_params_def put_enforcements_def put_lite_rsa_def put_bignum_def put_rsa_def
      enforcements_wf_def rsa_wf_def length_concat_const)

definition blob_header :: "km_blob \<Rightarrow> byte list" where
  "blob_header b = le32 (magic b) @ le32 (version b) @ le32 (blob_id b) @ concat (map le32 (iv b)) @
     put_enforcements (sw_enforced b) @ put_enforcements (tee_enforced b) @ le32 (algorithm b)"

lemma put_km_blob_parts: "put_km_blob b = blob_header b @ key b @ hmac b"
  by (simp add: put_km_blob_def blob_header_def)

lemma length_blob_header: "km_blob_wf b \<Longrightarrow> length (blob_header b) = 680"
  by (simp add: blob_header_def km_blob_wf_def length_concat_const)

abbreviation "sizeof_km_blob \<equiv> 1500 :: nat"
abbreviation "N_offset \<equiv> 700 :: nat"
abbreviation "d_offset \<equiv> 1084 :: nat"

lemma km_blob_key_slice: "km_blob_wf b \<Longrightarrow> slice 680 key_area (put_km_blob b) = key b"
  by (simp add: put_km_blob_parts length_blob_header km_blob_wf_def)

lemma rsa_view_slices:
  assumes "rsa_wf r"
  shows "slice 20 rsa_max (put_rsa r) = N_bytes r" "slice 404 rsa_max (put_rsa r) = d_bytes r"
proof -
  show "slice 20 rsa_max (put_rsa r) = N_bytes r" using assms by (simp add: put_rsa_def rsa_wf_def)
  have "slice 404 rsa_max ((put_lite_rsa (rsa r) @ N_bytes r) @ d_bytes r) = d_bytes r"
    by (rule slice_append(2)) (use assms in \<open>simp_all add: rsa_wf_def\<close>)
  then show "slice 404 rsa_max (put_rsa r) = d_bytes r" by (simp add: put_rsa_def)
qed

lemma km_blob_layout_at:
  assumes "km_blob_wf b" "rsa_wf r" "key b = put_rsa r"
  shows "length (put_km_blob b) = sizeof_km_blob"
    "get_km_blob (put_km_blob b) = Some (b, [])"
    "get_rsa (key b) = Some (r, [])"
    "slice N_offset rsa_max (put_km_blob b) = N_bytes r"
    "slice d_offset rsa_max (put_km_blob b) = d_bytes r"
    "slice 1468 32 (put_km_blob b) = hmac b"
proof -
  have parts: "put_km_blob b = (blob_header b @ key b) @ hmac b" by (simp add: put_km_blob_parts)
  from assms(1) have lens: "length (key b) = key_area" "length (hmac b) = 32" by (auto simp: km_blob_wf_def)
  show "slice 1468 32 (put_km_blob b) = hmac b"
    unfolding parts by (rule slice_append(2)) (simp_all add: lens length_blob_header [OF assms(1)])
  show "length (put_km_blob b) = sizeof_km_blob"
    unfolding parts using lens by (simp add: length_blob_header [OF assms(1)])
  show "slice N_offset rsa_max (put_km_blob b) = N_bytes r"
    using rsa_view_slices(1) [OF assms(2)] slice_slice [of 20 rsa_max key_area 680 "put_km_blob b"]
    by (simp add: km_blob_key_slice [OF assms(1)] assms(3))
  show "slice d_offset rsa_max (put_km_blob b) = d_bytes r"
    using rsa_view_slices(2) [OF assms(2)] slice_slice [of 404 rsa_max key_area 680 "put_km_blob b"]
    by (simp add: km_blob_key_slice [OF assms(1)] assms(3))
  show "get_km_blob (put_km_blob b) = Some (b, [])" by (rule km_blob.dec_enc_all [OF assms(1)])
  show "get_rsa (key b) = Some (r, [])" unfolding assms(3) by (rule blob_rsa.dec_enc_all [OF assms(2)])
qed

text \<open>C25: a key blob takes 1500 bytes, reads back as itself, and a reader that casts its bytes to
  \<open>struct km_blob\<close> finds the modulus of an RSA key at offset 700, its private exponent at 1084 and
  the tag that authenticates the blob at 1468.\<close>

theorem km_blob_layout:
  assumes "km_blob_wf b" "rsa_wf r" "key b = put_rsa r"
  shows "length (put_km_blob b) = sizeof_km_blob \<and> get_km_blob (put_km_blob b) = Some (b, []) \<and>
    get_rsa (key b) = Some (r, []) \<and>
    slice N_offset rsa_max (put_km_blob b) = N_bytes r \<and>
    slice d_offset rsa_max (put_km_blob b) = d_bytes r \<and>
    slice 1468 32 (put_km_blob b) = hmac b"
  by (intro conjI km_blob_layout_at [OF assms])

text \<open>A blob with an RSA key, written out with its repeated parts.\<close>

definition sample_rsa :: blob_rsa where
  "sample_rsa = \<lparr>rsa = \<lparr>rsa_e = 3, rsa_N = \<lparr>dmax = 16, bn_d = 0\<rparr>, rsa_d = \<lparr>dmax = 16, bn_d = 0\<rparr>\<rparr>,
     N_bytes = replicate 384 1, d_bytes = replicate 384 2\<rparr>"

definition sample_blob :: km_blob where
  "sample_blob =
     (let none = \<lparr>params_count = 0,
            params = replicate 20 \<lparr>param_tag = 0, param_integer = 0, param_long_integer = 0\<rparr>\<rparr> in
      \<lparr>magic = KM_BLOB_MAGIC, version = KM_BLOB_VERSION, blob_id = 0, iv = [1, 2, 3, 4],
       sw_enforced = none, tee_enforced = none, algorithm = blob_alg_code BLOB_RSA,
       key = put_rsa sample_rsa, hmac = replicate 32 7\<rparr>)"

lemma sample_blob_wf: "km_blob_wf sample_blob" "rsa_wf sample_rsa" "key sample_blob = put_rsa sample_rsa"
proof -
  show r: "rsa_wf sample_rsa" by (simp add: rsa_wf_def sample_rsa_def)
  show "key sample_blob = put_rsa sample_rsa" by (simp add: sample_blob_def Let_def)
  from r show "km_blob_wf sample_blob"
    by (simp add: km_blob_wf_def sample_blob_def Let_def enforcements_wf_def)
qed

theorem km_blob_layout_witness:
  "length (put_km_blob sample_blob) = 1500 \<and> slice 700 384 (put_km_blob sample_blob) = replicate 384 1"
  using km_blob_layout [OF sample_blob_wf] by (simp add: sample_rsa_def)

end
