(* ===== verification/ImportKey.thy ===== *)
theory ImportKey
  imports Fixture Blob TestKeys
begin

text \<open>
  \<open>src/keymaster-import-key-tests.cc\<close>: import of RSA and EC keys into keymaster. The requests
  that the tests build, the calls, and what the tests check of the responses, the comparison of the
  returned key blob with the key included.

  The generated messages are records of the fields that the tests set (\<open>None\<close>: not set); the
  numbers of the enumerations, the service call and the elliptic curve functions of the crypto
  library are parameters.
\<close>

subsection \<open>Messages\<close>

datatype km_tag = ALGORITHM | KEY_SIZE | RSA_PUBLIC_EXPONENT | EC_CURVE
datatype km_algorithm = RSA | EC | AES

record key_parameter =
  tag :: "km_tag option"
  integer :: "u32 option"
  long_integer :: "u64 option"

record rsa_material =
  material_e :: u32
  material_d :: "byte list"
  material_n :: "byte list"

record ec_material =
  curve_id :: u32
  point_d :: "byte list option"
  point_x :: "byte list option"
  point_y :: "byte list option"

record import_key_request =
  key_params :: "key_parameter list"
  rsa_key :: "rsa_material option"
  ec_key :: "ec_material option"

text \<open>\<open>km_ImportKey\<close> gives the status, the error code and the blob of the response, and the
  world. The other fields are numbers of the enumerations.\<close>

record 'w keymaster_import =
  km_ImportKey :: "client \<Rightarrow> import_key_request \<Rightarrow> 'w \<Rightarrow> int \<times> (int \<times> byte list) \<times> 'w"
  import_OK :: int
  INVALID_ARGUMENT :: int
  UNSUPPORTED_KEY_SIZE :: int
  IMPORT_PARAMETER_MISMATCH :: int
  algorithm_number :: "km_algorithm \<Rightarrow> u32"
  P_256 :: u32

abbreviation IMP :: string where "IMP \<equiv> ''keymaster-import-key-tests.cc''"

definition integer_param :: "km_tag \<Rightarrow> u32 \<Rightarrow> key_parameter" where
  "integer_param t v = \<lparr>tag = Some t, integer = Some v, long_integer = None\<rparr>"

definition long_param :: "km_tag \<Rightarrow> u64 \<Rightarrow> key_parameter" where
  "long_param t v = \<lparr>tag = Some t, integer = None, long_integer = Some v\<rparr>"

definition add_param :: "key_parameter \<Rightarrow> import_key_request \<Rightarrow> import_key_request" where
  "add_param p r = r\<lparr>key_params := key_params r @ [p]\<rparr>"

definition empty_request :: import_key_request where
  "empty_request = \<lparr>key_params = [], rsa_key = None, ec_key = None\<rparr>"

text \<open>The overloads of \<open>initRSARequest\<close>; a negative size or exponent leaves its parameter out.\<close>

definition initRSARequest :: "'w keymaster_import \<Rightarrow> km_algorithm \<Rightarrow> import_key_request \<Rightarrow> import_key_request" where
  "initRSARequest km alg r = add_param (integer_param ALGORITHM (algorithm_number km alg)) r"

definition initRSARequest_size ::
  "'w keymaster_import \<Rightarrow> km_algorithm \<Rightarrow> int \<Rightarrow> import_key_request \<Rightarrow> import_key_request" where
  "initRSARequest_size km alg sz r =
     (let r = initRSARequest km alg r in
      if 0 \<le> sz then add_param (integer_param KEY_SIZE (word_of_int sz)) r else r)"

definition initRSARequest_exponent ::
  "'w keymaster_import \<Rightarrow> km_algorithm \<Rightarrow> int \<Rightarrow> int \<Rightarrow> import_key_request \<Rightarrow> import_key_request" where
  "initRSARequest_exponent km alg sz exponent_tag r =
     (let r = initRSARequest_size km alg sz r in
      if 0 \<le> exponent_tag then add_param (long_param RSA_PUBLIC_EXPONENT (word_of_int exponent_tag)) r else r)"

definition initRSARequest_key ::
  "'w keymaster_import \<Rightarrow> km_algorithm \<Rightarrow> int \<Rightarrow> int \<Rightarrow> u32 \<Rightarrow> byte list \<Rightarrow> byte list \<Rightarrow>
   import_key_request \<Rightarrow> import_key_request" where
  "initRSARequest_key km alg sz exponent_tag e d n r =
     (initRSARequest_exponent km alg sz exponent_tag r)
       \<lparr>rsa_key := Some \<lparr>material_e = e, material_d = d, material_n = n\<rparr>\<rparr>"

subsection \<open>The fixture\<close>

definition ImportKey_SetUpTestCase ::
  "'w nos \<Rightarrow> config \<Rightarrow> fault + 'p \<Rightarrow> 'w avb \<Rightarrow> 'w keymaster_root \<Rightarrow> (('w, 'p) fixture, unit) proc" where
  "ImportKey_SetUpTestCase env cfg printer svc km = block
     [connect env cfg printer IMP 91, invoke (with_client (SetRootOfTrust env svc km))]"

definition ImportKey_TearDownTestCase :: "'w nos \<Rightarrow> (('w, 'p) fixture, unit) proc" where
  "ImportKey_TearDownTestCase env = disconnect env"

subsection \<open>Failing imports\<close>

text \<open>The call, the assertion on its status and the one on the error code.\<close>

definition import_key ::
  "'w keymaster_import \<Rightarrow> client \<Rightarrow> import_key_request \<Rightarrow> nat \<Rightarrow> ('w, int \<times> byte list) proc" where
  "import_key km c req line =
     and_then (act (\<lambda>w. case km_ImportKey km c req w of (value, resp, w) \<Rightarrow> ((value, resp), w)))
       (\<lambda>(value, resp). and_then (ASSERT IMP line (value = APP_SUCCESS)) (\<lambda>_. give resp))"

definition import_fails ::
  "'w keymaster_import \<Rightarrow> client \<Rightarrow> import_key_request \<Rightarrow> int \<Rightarrow> nat \<Rightarrow> nat \<Rightarrow> ('w, unit) proc" where
  "import_fails km c req code line line' =
     and_then (import_key km c req line) (\<lambda>(e, blob). EXPECT IMP line' (e = code))"

definition AlgorithmMissingFails :: "'w keymaster_import \<Rightarrow> client \<Rightarrow> ('w, unit) proc" where
  "AlgorithmMissingFails km c = import_fails km c
     (add_param (long_param RSA_PUBLIC_EXPONENT 3) (add_param (integer_param KEY_SIZE 512) empty_request))
     (INVALID_ARGUMENT km) 124 125"

definition RSAInvalidKeySizeFails :: "'w keymaster_import \<Rightarrow> client \<Rightarrow> ('w, unit) proc" where
  "RSAInvalidKeySizeFails km c = import_fails km c
     (initRSARequest_exponent km RSA 256 3 empty_request) (UNSUPPORTED_KEY_SIZE km) 136 137"

definition RSAInvalidPublicExponentFails :: "'w keymaster_import \<Rightarrow> client \<Rightarrow> ('w, unit) proc" where
  "RSAInvalidPublicExponentFails km c = import_fails km c
     (initRSARequest_key km RSA 512 2 2 (zeros 64) (zeros 64) empty_request) (UNSUPPORTED_KEY_SIZE km) 148 149"

definition RSAKeySizeTagMisatchNFails :: "'w keymaster_import \<Rightarrow> client \<Rightarrow> ('w, unit) proc" where
  "RSAKeySizeTagMisatchNFails km c = import_fails km c
     (initRSARequest_key km RSA 512 3 3 (zeros 64) (zeros 63) empty_request) (IMPORT_PARAMETER_MISMATCH km) 160 161"

definition RSAKeySizeTagMisatchDFails :: "'w keymaster_import \<Rightarrow> client \<Rightarrow> ('w, unit) proc" where
  "RSAKeySizeTagMisatchDFails km c = import_fails km c
     (initRSARequest_key km RSA 512 3 3 (zeros 63) (zeros 64) empty_request) (IMPORT_PARAMETER_MISMATCH km) 172 173"

definition RSAPublicExponentTagMisatchFails :: "'w keymaster_import \<Rightarrow> client \<Rightarrow> ('w, unit) proc" where
  "RSAPublicExponentTagMisatchFails km c = import_fails km c
     (initRSARequest_key km RSA 512 3 2 (zeros 64) (zeros 64) empty_request) (IMPORT_PARAMETER_MISMATCH km) 184 185"

definition RSA1024BadEFails :: "'w keymaster_import \<Rightarrow> client \<Rightarrow> ('w, unit) proc" where
  "RSA1024BadEFails km c = import_fails km c
     (initRSARequest_key km RSA 1024 3 3 RSA_1024_D RSA_1024_N empty_request) (INVALID_ARGUMENT km) 198 199"

text \<open>What the comments call a twiddled number: a byte in front, and all but the last of it.\<close>

definition twiddled :: "byte list \<Rightarrow> byte list" where
  "twiddled bs = 1 # take (length bs - 1) bs"

definition RSA1024BadDFails :: "'w keymaster_import \<Rightarrow> client \<Rightarrow> ('w, unit) proc" where
  "RSA1024BadDFails km c = import_fails km c
     (initRSARequest_key km RSA 1024 65537 65537 (twiddled RSA_1024_D) RSA_1024_N empty_request)
     (INVALID_ARGUMENT km) 211 212"

definition RSA1024BadNFails :: "'w keymaster_import \<Rightarrow> client \<Rightarrow> ('w, unit) proc" where
  "RSA1024BadNFails km c = import_fails km c
     (initRSARequest_key km RSA 1024 65537 65537 RSA_1024_D (twiddled RSA_1024_N) empty_request)
     (INVALID_ARGUMENT km) 224 225"

subsection \<open>Successful imports\<close>

text \<open>\<open>memcmp(blob + off, expected, n) == 0\<close>, where \<open>blob\<close> is as long as what was
  received.\<close>

definition same_at :: "nat \<Rightarrow> nat \<Rightarrow> byte list \<Rightarrow> byte list \<Rightarrow> fault + bool" where
  "same_at off n blob expected =
     (if off + n \<le> length blob \<and> n \<le> length expected then Inr (slice off n blob = take n expected)
      else Inl Out_of_bounds)"

text \<open>The three checks of a returned blob, with the lines of the assertions.\<close>

definition check_rsa_blob :: "byte list \<Rightarrow> byte list \<Rightarrow> byte list \<Rightarrow> nat \<Rightarrow> nat list \<Rightarrow> ('w, unit) proc" where
  "check_rsa_blob blob n d sz lines = block
     [EXPECT IMP (lines ! 0) (sizeof_km_blob = length blob),
      and_then (attempt (\<lambda>w. bind_res (same_at N_offset sz blob n) (\<lambda>b. Inr (b, w)))) (EXPECT IMP (lines ! 1)),
      and_then (attempt (\<lambda>w. bind_res (same_at d_offset sz blob d) (\<lambda>b. Inr (b, w)))) (EXPECT IMP (lines ! 2))]"

text \<open>The parameter that the loop reuses is the second of the request.\<close>

definition set_exponent :: "u32 \<Rightarrow> import_key_request \<Rightarrow> import_key_request" where
  "set_exponent e r = r\<lparr>key_params :=
     (key_params r)[1 := (key_params r ! 1)\<lparr>tag := Some RSA_PUBLIC_EXPONENT, long_integer := Some (ucast e)\<rparr>]\<rparr>"

definition set_test_key :: "rsa_test_key \<Rightarrow> import_key_request \<Rightarrow> import_key_request" where
  "set_test_key k r = (set_exponent (test_e k) r)
     \<lparr>rsa_key := Some \<lparr>material_e = test_e k, material_d = take (test_size k) (test_d k),
                        material_n = take (test_size k) (test_n k)\<rparr>\<rparr>"

fun rsa_success_loop ::
  "'w keymaster_import \<Rightarrow> client \<Rightarrow> import_key_request \<Rightarrow> rsa_test_key list \<Rightarrow> ('w, unit) proc" where
  "rsa_success_loop km c r [] = give ()"
| "rsa_success_loop km c r (k # ks) =
     (let r = set_test_key k r in
      and_then (import_key km c r 245) (\<lambda>(e, blob). block
        [EXPECT IMP 246 (e = import_OK km),
         check_rsa_blob blob (test_n k) (test_d k) (test_size k) [250, 253, 255],
         rsa_success_loop km c r ks]))"

definition empty_param :: key_parameter where
  "empty_param = \<lparr>tag = None, integer = None, long_integer = None\<rparr>"

definition RSASuccess :: "'w keymaster_import \<Rightarrow> client \<Rightarrow> ('w, unit) proc" where
  "RSASuccess km c =
     rsa_success_loop km c (add_param empty_param (initRSARequest km RSA empty_request)) TEST_RSA_KEYS"

definition RSA1024OptionalParamsAbsentSuccess :: "'w keymaster_import \<Rightarrow> client \<Rightarrow> ('w, unit) proc" where
  "RSA1024OptionalParamsAbsentSuccess km c =
     and_then (import_key km c (initRSARequest_key km RSA (-1) (-1) 65537 RSA_1024_D RSA_1024_N empty_request) 268)
       (\<lambda>(e, blob). block
         [EXPECT IMP 269 (e = import_OK km),
          check_rsa_blob blob RSA_1024_N RSA_1024_D 128 [271, 274, 276]])"

subsection \<open>Elliptic curves\<close>

abbreviation ec_algorithm :: "'w keymaster_import \<Rightarrow> import_key_request" where
  "ec_algorithm km \<equiv> add_param (integer_param ALGORITHM (algorithm_number km EC)) empty_request"

abbreviation ec_curve_tag :: "'w keymaster_import \<Rightarrow> import_key_request" where
  "ec_curve_tag km \<equiv> add_param (integer_param EC_CURVE (P_256 km)) (ec_algorithm km)"

definition ec_of :: "u32 \<Rightarrow> byte list option \<Rightarrow> byte list option \<Rightarrow> byte list option \<Rightarrow> ec_material" where
  "ec_of cid d x y = \<lparr>curve_id = cid, point_d = d, point_x = x, point_y = y\<rparr>"

definition ECMissingCurveIdTagFails :: "'w keymaster_import \<Rightarrow> client \<Rightarrow> ('w, unit) proc" where
  "ECMissingCurveIdTagFails km c = import_fails km c (ec_algorithm km) (INVALID_ARGUMENT km) 291 292"

definition ECMisMatchedCurveIdTagFails :: "'w keymaster_import \<Rightarrow> client \<Rightarrow> ('w, unit) proc" where
  "ECMisMatchedCurveIdTagFails km c = import_fails km c
     ((ec_curve_tag km)\<lparr>ec_key := Some (ec_of (P_256 km + 1) None None None)\<rparr>) (INVALID_ARGUMENT km) 310 311"

definition ECMisMatchedKeySizeTagCurveTagFails :: "'w keymaster_import \<Rightarrow> client \<Rightarrow> ('w, unit) proc" where
  "ECMisMatchedKeySizeTagCurveTagFails km c = import_fails km c
     ((add_param (integer_param KEY_SIZE 384) (ec_curve_tag km))\<lparr>ec_key := Some (ec_of (P_256 km) None None None)\<rparr>)
     (INVALID_ARGUMENT km) 333 334"

definition ECMisMatchedP256KeySizeFails :: "'w keymaster_import \<Rightarrow> client \<Rightarrow> ('w, unit) proc" where
  "ECMisMatchedP256KeySizeFails km c = import_fails km c
     ((ec_curve_tag km)\<lparr>ec_key := Some (ec_of (P_256 km) (Some (zeros (256 div 8 - 1)))
        (Some (zeros (256 div 8))) (Some (zeros (256 div 8))))\<rparr>)
     (INVALID_ARGUMENT km) 355 356"

definition ECP256BadKeyFails :: "'w keymaster_import \<Rightarrow> client \<Rightarrow> ('w, unit) proc" where
  "ECP256BadKeyFails km c = import_fails km c
     ((ec_curve_tag km)\<lparr>ec_key := Some (ec_of (P_256 km) (Some (zeros (256 div 8)))
        (Some (zeros (256 div 8))) (Some (zeros (256 div 8))))\<rparr>)
     (INVALID_ARGUMENT km) 378 379"

text \<open>What the crypto library did: the status of the key generation and of the read of the public
  point, the numbers, the degree of the curve's field, and \<open>BN_bn2le_padded\<close>, which gives a
  status and the bytes.\<close>

record ec_library =
  generate_status :: int
  coordinates_status :: int
  private_key :: nat
  public_x :: nat
  public_y :: nat
  group_degree :: nat
  BN_bn2le_padded :: "nat \<Rightarrow> nat \<Rightarrow> int \<times> byte list"

definition ImportECP256KeySuccess :: "'w keymaster_import \<Rightarrow> ec_library \<Rightarrow> client \<Rightarrow> ('w, unit) proc" where
  "ImportECP256KeySuccess km lib c =
     (let field_size = (group_degree lib + 7) div 8;
          (ds, d) = BN_bn2le_padded lib field_size (private_key lib);
          (xs, x) = BN_bn2le_padded lib field_size (public_x lib);
          (ys, y) = BN_bn2le_padded lib field_size (public_y lib);
          r = (add_param (integer_param KEY_SIZE 256) (ec_curve_tag km))
                \<lparr>ec_key := Some (ec_of (P_256 km) (Some d) (Some x) (Some y))\<rparr>
      in block
        [EXPECT IMP 386 (generate_status lib = 1),
         EXPECT IMP 392 (coordinates_status lib = 1),
         EXPECT IMP 401 (ds = 1), EXPECT IMP 402 (xs = 1), EXPECT IMP 403 (ys = 1),
         and_then (import_key km c r 426) (\<lambda>(e, blob). EXPECT IMP 427 (e = import_OK km))])"

subsection \<open>What the failing tests ask for\<close>

lemma records_import [simp, records_intros]:
  "records (import_key km c r line)" "records (import_fails km c r code line line')"
  "records (check_rsa_blob blob n d sz lines)"
  by (auto simp: import_key_def import_fails_def check_rsa_blob_def intro!: records_intros)

lemma passed_import_key [passed_simps]:
  "passed (import_key km c r line) w x w' \<longleftrightarrow> km_ImportKey km c r w = (APP_SUCCESS, x, w')"
  by (auto simp: import_key_def passed_simps split: prod.splits)

text \<open>The device answers with an error code, whatever blob comes with it.\<close>

definition refuses :: "'w keymaster_import \<Rightarrow> client \<Rightarrow> 'w \<Rightarrow> import_key_request \<Rightarrow> int \<Rightarrow> bool" where
  "refuses km c w r code \<longleftrightarrow> (\<exists>blob w'. km_ImportKey km c r w = (APP_SUCCESS, (code, blob), w'))"

lemma passes_import_fails:
  "passes (import_fails km c r code line line') w \<longleftrightarrow> refuses km c w r code"
  unfolding passes_completes [OF records_import(2)]
  by (auto simp: import_fails_def passed_simps completes_def refuses_def)

lemmas failing_tests =
  AlgorithmMissingFails_def RSAInvalidKeySizeFails_def RSAInvalidPublicExponentFails_def
  RSAKeySizeTagMisatchNFails_def RSAKeySizeTagMisatchDFails_def RSAPublicExponentTagMisatchFails_def
  RSA1024BadEFails_def RSA1024BadDFails_def RSA1024BadNFails_def ECMissingCurveIdTagFails_def
  ECMisMatchedCurveIdTagFails_def ECMisMatchedKeySizeTagCurveTagFails_def ECMisMatchedP256KeySizeFails_def
  ECP256BadKeyFails_def

lemmas request_building =
  initRSARequest_key_def initRSARequest_exponent_def initRSARequest_size_def initRSARequest_def
  add_param_def integer_param_def long_param_def empty_request_def ec_of_def Let_def

lemma length_twiddled [simp]: "bs \<noteq> [] \<Longrightarrow> length (twiddled bs) = length bs"
  by (simp add: twiddled_def)

lemma RSA_1024_nonempty [simp]: "RSA_1024_D \<noteq> []" "RSA_1024_N \<noteq> []"
  using RSA_lengths by force+

text \<open>Parameters of a request, spelled out.\<close>

abbreviation int_tag :: "km_tag \<Rightarrow> u32 \<Rightarrow> key_parameter" where
  "int_tag t v \<equiv> \<lparr>tag = Some t, integer = Some v, long_integer = None\<rparr>"

abbreviation exponent_tag :: "u64 \<Rightarrow> key_parameter" where
  "exponent_tag v \<equiv> \<lparr>tag = Some RSA_PUBLIC_EXPONENT, integer = None, long_integer = Some v\<rparr>"

abbreviation rsa_request :: "'w keymaster_import \<Rightarrow> key_parameter list \<Rightarrow> rsa_material option \<Rightarrow> import_key_request" where
  "rsa_request km ps k \<equiv> \<lparr>key_params = int_tag ALGORITHM (algorithm_number km RSA) # ps, rsa_key = k, ec_key = None\<rparr>"

abbreviation rsa_numbers :: "u32 \<Rightarrow> byte list \<Rightarrow> byte list \<Rightarrow> rsa_material option" where
  "rsa_numbers e d n \<equiv> Some \<lparr>material_e = e, material_d = d, material_n = n\<rparr>"

abbreviation ec_request :: "'w keymaster_import \<Rightarrow> key_parameter list \<Rightarrow> ec_material option \<Rightarrow> import_key_request" where
  "ec_request km ps k \<equiv> \<lparr>key_params = int_tag ALGORITHM (algorithm_number km EC) # ps, rsa_key = None, ec_key = k\<rparr>"

abbreviation ec_point :: "u32 \<Rightarrow> byte list option \<Rightarrow> byte list option \<Rightarrow> byte list option \<Rightarrow> ec_material option" where
  "ec_point cid d x y \<equiv> Some \<lparr>curve_id = cid, point_d = d, point_x = x, point_y = y\<rparr>"

text \<open>A failing test by its request.\<close>

lemma import_fails_asks:
  "test = import_fails km c r code line line' \<Longrightarrow> r = r' \<Longrightarrow>
   \<forall>w. passes test w \<longleftrightarrow> refuses km c w r' code"
  by (simp add: passes_import_fails)

text \<open>C27: each of the fourteen tests of failing imports passes exactly when the device answers one
  particular request with the expected error code, whatever the blob. The requests, spelled out:
  no algorithm; an RSA key of 256 bits; an even exponent; a modulus, or a private exponent, one byte
  short of the size; an exponent other than the key's; a good RSA key with the exponent 3 in place
  of its own, with its private exponent or with its modulus replaced by a one in front of all but
  its last byte, which is not the good one; no curve; another curve than the key's; another size
  than the curve's; a private number one byte short; and an elliptic curve key of zeros.\<close>

theorem failing_imports:
  "list_all (\<lambda>(test, request, code). \<forall>w.
      passes test w \<longleftrightarrow> (\<exists>blob w'. km_ImportKey km c request w = (APP_SUCCESS, (code, blob), w')))
    [(AlgorithmMissingFails km c,
       \<lparr>key_params = [int_tag KEY_SIZE 512, exponent_tag 3], rsa_key = None, ec_key = None\<rparr>, INVALID_ARGUMENT km),
     (RSAInvalidKeySizeFails km c,
       rsa_request km [int_tag KEY_SIZE 256, exponent_tag 3] None, UNSUPPORTED_KEY_SIZE km),
     (RSAInvalidPublicExponentFails km c,
       rsa_request km [int_tag KEY_SIZE 512, exponent_tag 2] (rsa_numbers 2 (replicate 64 0) (replicate 64 0)),
       UNSUPPORTED_KEY_SIZE km),
     (RSAKeySizeTagMisatchNFails km c,
       rsa_request km [int_tag KEY_SIZE 512, exponent_tag 3] (rsa_numbers 3 (replicate 64 0) (replicate 63 0)),
       IMPORT_PARAMETER_MISMATCH km),
     (RSAKeySizeTagMisatchDFails km c,
       rsa_request km [int_tag KEY_SIZE 512, exponent_tag 3] (rsa_numbers 3 (replicate 63 0) (replicate 64 0)),
       IMPORT_PARAMETER_MISMATCH km),
     (RSAPublicExponentTagMisatchFails km c,
       rsa_request km [int_tag KEY_SIZE 512, exponent_tag 3] (rsa_numbers 2 (replicate 64 0) (replicate 64 0)),
       IMPORT_PARAMETER_MISMATCH km),
     (RSA1024BadEFails km c,
       rsa_request km [int_tag KEY_SIZE 1024, exponent_tag 3] (rsa_numbers 3 RSA_1024_D RSA_1024_N),
       INVALID_ARGUMENT km),
     (RSA1024BadDFails km c,
       rsa_request km [int_tag KEY_SIZE 1024, exponent_tag 65537]
         (rsa_numbers 65537 (1 # butlast RSA_1024_D) RSA_1024_N),
       INVALID_ARGUMENT km),
     (RSA1024BadNFails km c,
       rsa_request km [int_tag KEY_SIZE 1024, exponent_tag 65537]
         (rsa_numbers 65537 RSA_1024_D (1 # butlast RSA_1024_N)),
       INVALID_ARGUMENT km),
     (ECMissingCurveIdTagFails km c, ec_request km [] None, INVALID_ARGUMENT km),
     (ECMisMatchedCurveIdTagFails km c,
       ec_request km [int_tag EC_CURVE (P_256 km)] (ec_point (P_256 km + 1) None None None), INVALID_ARGUMENT km),
     (ECMisMatchedKeySizeTagCurveTagFails km c,
       ec_request km [int_tag EC_CURVE (P_256 km), int_tag KEY_SIZE 384] (ec_point (P_256 km) None None None),
       INVALID_ARGUMENT km),
     (ECMisMatchedP256KeySizeFails km c,
       ec_request km [int_tag EC_CURVE (P_256 km)]
         (ec_point (P_256 km) (Some (replicate 31 0)) (Some (replicate 32 0)) (Some (replicate 32 0))),
       INVALID_ARGUMENT km),
     (ECP256BadKeyFails km c,
       ec_request km [int_tag EC_CURVE (P_256 km)]
         (ec_point (P_256 km) (Some (replicate 32 0)) (Some (replicate 32 0)) (Some (replicate 32 0))),
       INVALID_ARGUMENT km)] \<and>
   1 # butlast RSA_1024_D \<noteq> RSA_1024_D \<and> 1 # butlast RSA_1024_N \<noteq> RSA_1024_N"
proof (intro conjI)
  show "1 # butlast RSA_1024_D \<noteq> RSA_1024_D" "1 # butlast RSA_1024_N \<noteq> RSA_1024_N"
    by (simp_all add: RSA_1024_D_def RSA_1024_N_def)
qed (unfold list.pred_inject case_prod_conv refuses_def [symmetric],
  intro conjI TrueI,
  (rule import_fails_asks, simp only: failing_tests,
    simp add: request_building twiddled_def butlast_conv_take)+, simp)

text \<open>A device that answers every request with the same code and blob.\<close>

definition fixed_import :: "int \<Rightarrow> byte list \<Rightarrow> unit keymaster_import" where
  "fixed_import code blob = \<lparr>
     km_ImportKey = (\<lambda>c r w. (APP_SUCCESS, (code, blob), w)),
     import_OK = 0, INVALID_ARGUMENT = 1, UNSUPPORTED_KEY_SIZE = 2, IMPORT_PARAMETER_MISMATCH = 3,
     algorithm_number = case_km_algorithm 1 3 32, P_256 = 1\<rparr>"

subsection \<open>What the successful tests check\<close>

text \<open>The number that bytes stand for, little endian.\<close>

fun le_nat :: "byte list \<Rightarrow> nat" where
  "le_nat [] = 0"
| "le_nat (b # bs) = unat b + 256 * le_nat bs"

lemma le_nat_take: "le_nat (take n bs) = le_nat bs mod 256 ^ n"
proof (induction n arbitrary: bs)
  case (Suc n)
  show ?case
  proof (cases bs)
    case (Cons b bs')
    have "(unat b + 256 * le_nat bs') mod (256 * 256 ^ n) = unat b + 256 * (le_nat bs' mod 256 ^ n)"
      by (simp add: mod_mult2_eq unat_byte)
    with Cons Suc show ?thesis by simp
  qed simp
qed simp

text \<open>The twiddled numbers of two failing tests are not, as their comments have it, numbers
  with a changed lowest bit: little endian, a twiddled number is the number shifted up by a byte,
  with a one below it and its highest byte lost.\<close>

theorem twiddled_is_shifted:
  assumes "bs \<noteq> []"
  shows "length (twiddled bs) = length bs \<and> le_nat (twiddled bs) = (256 * le_nat bs + 1) mod 256 ^ length bs \<and>
    twiddled RSA_1024_D \<noteq> RSA_1024_D[0 := hd RSA_1024_D XOR 1] \<and>
    twiddled RSA_1024_N \<noteq> RSA_1024_N[0 := hd RSA_1024_N XOR 1]"
proof -
  from assms have "twiddled bs = take (length bs) (1 # bs)"
    by (cases bs rule: rev_cases) (simp_all add: twiddled_def)
  then have "le_nat (twiddled bs) = (256 * le_nat bs + 1) mod 256 ^ length bs"
    by (simp add: le_nat_take)
  moreover have "twiddled RSA_1024_D \<noteq> RSA_1024_D[0 := hd RSA_1024_D XOR 1]"
    "twiddled RSA_1024_N \<noteq> RSA_1024_N[0 := hd RSA_1024_N XOR 1]"
    by (simp_all add: twiddled_def RSA_1024_D_def RSA_1024_N_def)
  ultimately show ?thesis using assms by simp
qed

theorem twiddled_is_shifted_witness:
  "le_nat (twiddled [3, 4]) = (256 * le_nat [3, 4] + 1) mod 256 ^ 2"
  using twiddled_is_shifted [of "[3, 4]"] by (simp add: numeral_2_eq_2)

text \<open>A blob that a success test accepts for a key.\<close>

definition blob_holds :: "byte list \<Rightarrow> byte list \<Rightarrow> byte list \<Rightarrow> nat \<Rightarrow> bool" where
  "blob_holds blob n d sz \<longleftrightarrow> length blob = sizeof_km_blob \<and>
     slice N_offset sz blob = take sz n \<and> slice d_offset sz blob = take sz d"

lemma same_at_Inr:
  "same_at off n blob expected = Inr b \<longleftrightarrow>
     off + n \<le> length blob \<and> n \<le> length expected \<and> b = (slice off n blob = take n expected)"
  by (auto simp: same_at_def)

lemma passed_check_rsa_blob [passed_simps]:
  assumes "sz \<le> 384" "sz \<le> length n" "sz \<le> length d"
  shows "passed (check_rsa_blob blob n d sz lines) w u w' \<longleftrightarrow> blob_holds blob n d sz \<and> w' = w"
  using assms
  by (auto simp: check_rsa_blob_def passed_simps bind_res_Inr_iff same_at_Inr blob_holds_def)

text \<open>The request of one round of the loop: two parameters, and the key.\<close>

definition rsa_success_request :: "'w keymaster_import \<Rightarrow> rsa_test_key \<Rightarrow> import_key_request" where
  "rsa_success_request km k = \<lparr>
     key_params = [integer_param ALGORITHM (algorithm_number km RSA), long_param RSA_PUBLIC_EXPONENT (ucast (test_e k))],
     rsa_key = Some \<lparr>material_e = test_e k, material_d = test_d k, material_n = test_n k\<rparr>,
     ec_key = None\<rparr>"

text \<open>The device accepts one key after the other, each with a blob that holds it.\<close>

fun accepts_all :: "'w keymaster_import \<Rightarrow> client \<Rightarrow> rsa_test_key list \<Rightarrow> 'w \<Rightarrow> bool" where
  "accepts_all km c [] w = True"
| "accepts_all km c (k # ks) w =
     (case km_ImportKey km c (rsa_success_request km k) w of
        (value, (e, blob), w') \<Rightarrow> value = APP_SUCCESS \<and> e = import_OK km \<and>
          blob_holds blob (test_n k) (test_d k) (test_size k) \<and> accepts_all km c ks w')"

definition key_fits :: "rsa_test_key \<Rightarrow> bool" where
  "key_fits k \<longleftrightarrow> length (test_d k) = test_size k \<and> length (test_n k) = test_size k \<and> test_size k \<le> 384"

definition loop_request :: "'w keymaster_import \<Rightarrow> import_key_request \<Rightarrow> bool" where
  "loop_request km r \<longleftrightarrow> ec_key r = None \<and>
     (\<exists>p. key_params r = [integer_param ALGORITHM (algorithm_number km RSA), p] \<and> integer p = None)"

lemma set_test_key_request:
  "loop_request km r \<Longrightarrow> key_fits k \<Longrightarrow> set_test_key k r = rsa_success_request km k"
  by (auto simp: loop_request_def key_fits_def set_test_key_def set_exponent_def rsa_success_request_def long_param_def)

lemma loop_request_again: "loop_request km (rsa_success_request km k)"
  by (simp add: loop_request_def rsa_success_request_def long_param_def)

lemma records_rsa_success_loop [simp, records_intros]: "records (rsa_success_loop km c r ks)"
  by (induction ks arbitrary: r) (auto simp: Let_def intro!: records_intros)

lemma completes_rsa_success_loop:
  "loop_request km r \<Longrightarrow> list_all key_fits ks \<Longrightarrow>
   completes (rsa_success_loop km c r ks) w () \<longleftrightarrow> accepts_all km c ks w"
proof (induction ks arbitrary: r w)
  case (Cons k ks)
  have r: "set_test_key k r = rsa_success_request km k"
    using Cons.prems by (simp add: set_test_key_request)
  have fits: "test_size k \<le> 384" "test_size k \<le> length (test_n k)" "test_size k \<le> length (test_d k)"
    using Cons.prems by (auto simp: key_fits_def)
  obtain st e blob w1 where call: "km_ImportKey km c (rsa_success_request km k) w = (st, (e, blob), w1)"
    by (metis prod.exhaust)
  have "completes (rsa_success_loop km c (rsa_success_request km k) ks) w1 () \<longleftrightarrow> accepts_all km c ks w1"
    using Cons.IH [OF loop_request_again] Cons.prems(2) by simp
  then show ?case
    by (auto simp: r Let_def passed_simps passed_check_rsa_blob [OF fits] call completes_def)
qed (simp add: passed_simps)

lemma RSASuccess_verdict:
  "passes (RSASuccess km c) w \<longleftrightarrow> accepts_all km c TEST_RSA_KEYS w"
proof -
  have rec: "records (RSASuccess km c)" by (simp add: RSASuccess_def)
  have "loop_request km (add_param empty_param (initRSARequest km RSA empty_request))"
    by (simp add: loop_request_def request_building empty_param_def)
  moreover have "list_all key_fits TEST_RSA_KEYS"
    by (simp add: TEST_RSA_KEYS_def rsa_row_def key_fits_def)
  ultimately show ?thesis
    by (simp only: passes_completes [OF rec] RSASuccess_def [symmetric]) (simp only: RSASuccess_def completes_rsa_success_loop)
qed

lemma OptionalParamsAbsent_verdict:
  "passes (RSA1024OptionalParamsAbsentSuccess km c) w \<longleftrightarrow>
   (\<exists>blob w'. blob_holds blob RSA_1024_N RSA_1024_D 128 \<and>
      km_ImportKey km c
        \<lparr>key_params = [integer_param ALGORITHM (algorithm_number km RSA)],
         rsa_key = Some \<lparr>material_e = 65537, material_d = RSA_1024_D, material_n = RSA_1024_N\<rparr>, ec_key = None\<rparr> w =
        (APP_SUCCESS, (import_OK km, blob), w'))"
proof -
  have rec: "records (RSA1024OptionalParamsAbsentSuccess km c)"
    by (auto simp: RSA1024OptionalParamsAbsentSuccess_def intro!: records_intros)
  have fits: "(128::nat) \<le> 384" "128 \<le> length RSA_1024_N" "128 \<le> length RSA_1024_D" by simp_all
  show ?thesis
    unfolding passes_completes [OF rec]
    by (auto simp: RSA1024OptionalParamsAbsentSuccess_def completes_def passed_simps
        passed_check_rsa_blob [OF fits] request_building)
qed

lemma ImportECP256_verdict:
  "passes (ImportECP256KeySuccess km lib c) w \<longleftrightarrow>
   (\<exists>d x y blob w'. generate_status lib = 1 \<and> coordinates_status lib = 1 \<and>
      BN_bn2le_padded lib ((group_degree lib + 7) div 8) (private_key lib) = (1, d) \<and>
      BN_bn2le_padded lib ((group_degree lib + 7) div 8) (public_x lib) = (1, x) \<and>
      BN_bn2le_padded lib ((group_degree lib + 7) div 8) (public_y lib) = (1, y) \<and>
      km_ImportKey km c
        \<lparr>key_params = [integer_param ALGORITHM (algorithm_number km EC), integer_param EC_CURVE (P_256 km),
                       integer_param KEY_SIZE 256],
         rsa_key = None, ec_key = Some (ec_of (P_256 km) (Some d) (Some x) (Some y))\<rparr> w =
        (APP_SUCCESS, (import_OK km, blob), w'))"
proof -
  let ?padded = "BN_bn2le_padded lib ((group_degree lib + 7) div 8)"
  have rec: "records (ImportECP256KeySuccess km lib c)"
    by (auto simp: ImportECP256KeySuccess_def Let_def intro!: records_intros split: prod.splits)
  obtain ds d xs x ys y where "?padded (private_key lib) = (ds, d)" "?padded (public_x lib) = (xs, x)"
    "?padded (public_y lib) = (ys, y)" by fastforce
  then show ?thesis
    unfolding passes_completes [OF rec]
    by (auto simp: ImportECP256KeySuccess_def completes_def passed_simps request_building)
qed

text \<open>C28: the tests of successful imports. The RSA test, which changes one request in place from
  round to round, passes exactly when the device accepts every key of the table in turn, asked with
  the algorithm, the key's own exponent and the key and no key size, and returns each time a blob of
  the right size that holds that key's modulus and private exponent. The one without optional
  parameters passes exactly when the algorithm and the key alone suffice. The test of an elliptic
  curve key passes exactly when the library made the key and the device accepts it.\<close>

theorem import_success_verdicts:
  "(passes (RSASuccess km c) w \<longleftrightarrow> accepts_all km c TEST_RSA_KEYS w) \<and>
   (passes (RSA1024OptionalParamsAbsentSuccess km c) w \<longleftrightarrow>
     (\<exists>blob w'. blob_holds blob RSA_1024_N RSA_1024_D 128 \<and>
        km_ImportKey km c
          \<lparr>key_params = [integer_param ALGORITHM (algorithm_number km RSA)],
           rsa_key = Some \<lparr>material_e = 65537, material_d = RSA_1024_D, material_n = RSA_1024_N\<rparr>, ec_key = None\<rparr> w =
          (APP_SUCCESS, (import_OK km, blob), w'))) \<and>
   (passes (ImportECP256KeySuccess km lib c) w \<longleftrightarrow>
     (\<exists>d x y blob w'. generate_status lib = 1 \<and> coordinates_status lib = 1 \<and>
        BN_bn2le_padded lib ((group_degree lib + 7) div 8) (private_key lib) = (1, d) \<and>
        BN_bn2le_padded lib ((group_degree lib + 7) div 8) (public_x lib) = (1, x) \<and>
        BN_bn2le_padded lib ((group_degree lib + 7) div 8) (public_y lib) = (1, y) \<and>
        km_ImportKey km c
          \<lparr>key_params = [integer_param ALGORITHM (algorithm_number km EC), integer_param EC_CURVE (P_256 km),
                         integer_param KEY_SIZE 256],
           rsa_key = None, ec_key = Some (ec_of (P_256 km) (Some d) (Some x) (Some y))\<rparr> w =
          (APP_SUCCESS, (import_OK km, blob), w')))"
  by (intro conjI RSASuccess_verdict OptionalParamsAbsent_verdict ImportECP256_verdict)

text \<open>C29: the check of the returned blob's size does not stop the test before it looks into the
  blob: when the device answers with a blob that ends before the key does, the test reads past the
  end of the response, whatever the error code.\<close>

theorem short_blob_overread:
  assumes "km_ImportKey km c (initRSARequest_key km RSA (-1) (-1) 65537 RSA_1024_D RSA_1024_N empty_request) w =
      (APP_SUCCESS, (e, blob), w')" "length blob < 828"
  shows "RSA1024OptionalParamsAbsentSuccess km c \<lparr>tworld = w, failed = fs\<rparr> = Inl Out_of_bounds"
  using assms
  by (simp add: RSA1024OptionalParamsAbsentSuccess_def import_key_def and_then_def act_def ASSERT_def give_def
      EXPECT_def check_rsa_blob_def attempt_def same_at_def)

theorem short_blob_overread_witness:
  "RSA1024OptionalParamsAbsentSuccess (fixed_import 1 []) CitadeldProxyClient \<lparr>tworld = (), failed = []\<rparr> =
     Inl Out_of_bounds"
  by (rule short_blob_overread [of "fixed_import 1 []" CitadeldProxyClient "()" 1 "[]" "()"])
    (simp_all add: fixed_import_def)

end
