(* ===== verification/WrappedKey.thy ===== *)
theory WrappedKey
  imports ImportKey
begin

text \<open>
  \<open>src/keymaster-import-wrapped-key-tests.cc\<close>: import of an AES key that is wrapped for an RSA
  key. The test makes the blob of the wrapping key itself: the structure of \<open>src/blob.h\<close> with
  the key, its padding and its purpose, and a digest of all of it at the end.
\<close>

subsection \<open>Test data\<close>

text \<open>The wrapped key that a comment keeps for reference, and the fields.\<close>

definition WRAPPED_KEY_DER :: "byte list" where
  "WRAPPED_KEY_DER =
   [0x30, 0x82, 0x01, 0x5f, 0x02, 0x01, 0x00, 0x04, 0x82, 0x01, 0x00, 0x5e,
    0x46, 0xac, 0x96, 0x21, 0x12, 0x0e, 0x1f, 0x4c, 0x45, 0x92, 0x5f, 0xe2,
    0x43, 0x5c, 0xac, 0x77, 0xc7, 0x71, 0x62, 0xdb, 0x0c, 0xda, 0xc4, 0x89,
    0xac, 0x2c, 0xfd, 0x7a, 0x88, 0xb7, 0x04, 0x46, 0x74, 0x4b, 0x76, 0x68,
    0x65, 0xf9, 0x32, 0xd5, 0xa5, 0xaf, 0xe5, 0x7f, 0xaf, 0x94, 0x89, 0x73,
    0x7a, 0x51, 0xca, 0x9c, 0x42, 0xd5, 0x5d, 0x0a, 0xe9, 0x94, 0x8f, 0x01,
    0x54, 0xd7, 0x4a, 0x78, 0x72, 0x05, 0xea, 0x67, 0x70, 0xf7, 0xc8, 0x61,
    0x9f, 0xa2, 0xdf, 0x16, 0xbe, 0x4b, 0x42, 0xd5, 0xe1, 0xf4, 0x18, 0x93,
    0x41, 0xd8, 0x2e, 0x53, 0x0c, 0xfd, 0x6c, 0x3d, 0x5a, 0x3b, 0x4a, 0x01,
    0xa9, 0x8c, 0x6c, 0x58, 0x55, 0x95, 0xc5, 0x19, 0xa8, 0x72, 0x4d, 0xc7,
    0x87, 0x90, 0xe6, 0x2b, 0x8f, 0x8d, 0xc3, 0x91, 0x1d, 0xc7, 0x56, 0xd7,
    0xb9, 0x3a, 0xea, 0x46, 0x43, 0xdf, 0x26, 0x50, 0x83, 0xf1, 0x13, 0xf7,
    0xd5, 0x2c, 0xb1, 0x20, 0xf5, 0xee, 0xb2, 0xdc, 0xc1, 0x0d, 0xfe, 0x4e,
    0x08, 0x5a, 0x66, 0x89, 0xfa, 0x67, 0x00, 0x94, 0xc5, 0xe3, 0x54, 0xb7,
    0x0b, 0x69, 0x84, 0x1a, 0x55, 0xf8, 0x2a, 0xaf, 0x13, 0x0b, 0x4b, 0x67,
    0x2a, 0xd4, 0xb1, 0x59, 0x9c, 0x74, 0x49, 0x93, 0x5b, 0x25, 0x0b, 0x0d,
    0xf7, 0x71, 0x2e, 0x60, 0x0e, 0x5d, 0x52, 0x76, 0x2b, 0xc2, 0xb9, 0x42,
    0x74, 0x7c, 0xa2, 0x83, 0xde, 0xe3, 0x30, 0xcb, 0xab, 0xf4, 0x27, 0xea,
    0xe0, 0xdd, 0x33, 0x07, 0x06, 0x7e, 0x11, 0xa4, 0xfd, 0xe4, 0x7e, 0xd5,
    0xea, 0xb0, 0x2c, 0x83, 0xd2, 0xad, 0x33, 0x91, 0x6d, 0xe6, 0xe9, 0x09,
    0x9f, 0x24, 0x33, 0xbf, 0x74, 0xf0, 0xfd, 0xcf, 0x1e, 0x34, 0x65, 0x4d,
    0x73, 0x72, 0x0a, 0xfa, 0x8d, 0x69, 0xe1, 0x68, 0xc6, 0xb8, 0x05, 0x0b,
    0x37, 0x2e, 0x86, 0x04, 0x0c, 0xd7, 0x96, 0xb0, 0x2c, 0x37, 0x0f, 0x1f,
    0xa4, 0xcc, 0x01, 0x24, 0xf1, 0x30, 0x14, 0x02, 0x01, 0x03, 0x30, 0x0f,
    0xa1, 0x02, 0x31, 0x00, 0xa2, 0x03, 0x02, 0x01, 0x20, 0xa3, 0x04, 0x02,
    0x02, 0x01, 0x00, 0x04, 0x20, 0xcc, 0xd5, 0x40, 0x85, 0x5f, 0x83, 0x3a,
    0x5e, 0x14, 0x80, 0xbf, 0xd2, 0xd3, 0x6f, 0xaf, 0x3a, 0xee, 0xe1, 0x5d,
    0xf5, 0xbe, 0xab, 0xe2, 0x69, 0x1b, 0xc8, 0x2d, 0xde, 0x2a, 0x7a, 0xa9,
    0x10, 0x04, 0x10, 0x0a, 0xa4, 0x6a, 0x14, 0xa0, 0x24, 0x90, 0xea, 0xf5,
    0xef, 0x32, 0x86, 0x2e, 0x4c, 0x03, 0x4e]"

definition RSA_ENVELOPE :: "byte list" where
  "RSA_ENVELOPE =
   [0x99, 0xb0, 0xad, 0xd4, 0xe4, 0x0c, 0x82, 0x37, 0x33, 0x0c, 0x12, 0xe1,
    0x2a, 0x5c, 0x22, 0x5b, 0xdc, 0xb4, 0x36, 0xae, 0xb5, 0xb1, 0x90, 0xbb,
    0xc7, 0x09, 0x13, 0xe4, 0x12, 0xf2, 0x5b, 0x20, 0x3e, 0xe5, 0xd2, 0x6d,
    0x69, 0x25, 0xa8, 0x3e, 0x59, 0x43, 0x31, 0x3a, 0x29, 0x06, 0x97, 0xae,
    0x0f, 0x30, 0x38, 0x18, 0x6e, 0x3a, 0xac, 0x6a, 0xb7, 0xa4, 0x36, 0x87,
    0xc4, 0xde, 0xdb, 0xa3, 0x46, 0x78, 0x64, 0xd7, 0x2b, 0x51, 0x51, 0x34,
    0x36, 0x98, 0x66, 0x72, 0xd2, 0x48, 0x98, 0x61, 0x67, 0x87, 0xcf, 0x29,
    0xba, 0x9b, 0xf7, 0xcd, 0x14, 0x33, 0xd2, 0x67, 0x9b, 0x9c, 0x55, 0x3b,
    0xf0, 0x72, 0x13, 0x75, 0xbc, 0x55, 0x95, 0xd9, 0x0d, 0xb3, 0xe5, 0x6b,
    0x88, 0x4a, 0xae, 0xe5, 0xc0, 0xf2, 0x17, 0x01, 0x92, 0xfb, 0x68, 0x08,
    0x8e, 0x91, 0x96, 0x5f, 0x2f, 0x19, 0x63, 0xeb, 0x95, 0xb2, 0xd2, 0x89,
    0x5b, 0xb5, 0x96, 0xa6, 0x6f, 0x50, 0x63, 0x6d, 0x05, 0x9f, 0x06, 0x29,
    0x81, 0xc2, 0x85, 0x3a, 0xd0, 0x63, 0x78, 0xc8, 0x78, 0x95, 0xde, 0x49,
    0xa1, 0xb7, 0xdd, 0xde, 0xaf, 0x6a, 0xa2, 0xf6, 0xb5, 0xe2, 0x51, 0x21,
    0xad, 0x5e, 0x81, 0xa3, 0x2c, 0xf4, 0xb5, 0x5d, 0x1f, 0x7e, 0x45, 0xe8,
    0xdc, 0x7c, 0xab, 0x3b, 0xaa, 0x49, 0xee, 0xa9, 0xd5, 0x9d, 0xe1, 0x78,
    0x39, 0xe9, 0xb4, 0x91, 0xf7, 0x2e, 0xbf, 0xc5, 0xbc, 0xb5, 0x26, 0x48,
    0x05, 0x9f, 0x49, 0x31, 0xa7, 0xa2, 0x56, 0xea, 0x79, 0x61, 0x28, 0x23,
    0x67, 0x8e, 0x12, 0xbd, 0x4b, 0xe7, 0xbd, 0x8f, 0x10, 0x45, 0xbc, 0x3c,
    0xd0, 0x4b, 0xa9, 0x28, 0xd2, 0xf3, 0x59, 0xfb, 0x10, 0x08, 0xd0, 0x91,
    0x74, 0xd8, 0xd1, 0x89, 0x6c, 0xda, 0xc7, 0x6e, 0x4f, 0x44, 0x09, 0x89,
    0x4f, 0x2d, 0x7c, 0xa7]"

definition INITIALIZATION_VECTOR :: "byte list" where
  "INITIALIZATION_VECTOR =
   [0xd7, 0x96, 0xb0, 0x2c, 0x37, 0x0f, 0x1f, 0xa4, 0xcc, 0x01, 0x24, 0xf1]"

definition ENCRYPTED_IMPORT_KEY :: "byte list" where
  "ENCRYPTED_IMPORT_KEY =
   [0xcc, 0xd5, 0x40, 0x85, 0x5f, 0x83, 0x3a, 0x5e, 0x14, 0x80, 0xbf, 0xd2,
    0xd3, 0x6f, 0xaf, 0x3a, 0xee, 0xe1, 0x5d, 0xf5, 0xbe, 0xab, 0xe2, 0x69,
    0x1b, 0xc8, 0x2d, 0xde, 0x2a, 0x7a, 0xa9, 0x10]"

definition AAD :: "byte list" where
  "AAD =
   [0x30, 0x14, 0x02, 0x01, 0x03, 0x30, 0x0f, 0xa1, 0x02, 0x31, 0x00, 0xa2,
    0x03, 0x02, 0x01, 0x20, 0xa3, 0x04, 0x02, 0x02, 0x01, 0x00]"

definition GCM_TAG :: "byte list" where
  "GCM_TAG =
   [0x0a, 0xa4, 0x6a, 0x14, 0xa0, 0x24, 0x90, 0xea, 0xf5, 0xef, 0x32, 0x86,
    0x2e, 0x4c, 0x03, 0x4e]"

definition wrapping_key_N :: "byte list" where
  "wrapping_key_N =
   [0x55, 0xdd, 0x21, 0x28, 0xa6, 0x8f, 0xbd, 0xa2, 0xcc, 0x33, 0x48, 0x3f,
    0xed, 0x2a, 0x1d, 0x72, 0xc6, 0x8f, 0x0f, 0xf1, 0x82, 0xd2, 0x01, 0x0e,
    0xb0, 0x4c, 0x23, 0x85, 0xf1, 0x58, 0x74, 0x8d, 0x2a, 0x1c, 0xe7, 0xdf,
    0x1d, 0xc6, 0x24, 0x20, 0xc4, 0x14, 0xcf, 0xf5, 0x6a, 0x28, 0x0b, 0x60,
    0x09, 0xec, 0x5c, 0x2f, 0x5b, 0x7e, 0xc2, 0xb5, 0x7d, 0x72, 0x2b, 0xb9,
    0xcc, 0xec, 0x3c, 0xa1, 0x2b, 0xf0, 0x36, 0x95, 0x5f, 0xa9, 0x72, 0x01,
    0x8b, 0xd4, 0xd0, 0x91, 0x49, 0xee, 0xa7, 0xc3, 0x0a, 0xe6, 0xc3, 0xdf,
    0xe0, 0x42, 0xa6, 0x85, 0xe3, 0x4d, 0x50, 0x4b, 0x45, 0x7c, 0x6d, 0xa9,
    0x95, 0x2a, 0xe0, 0x53, 0x67, 0xc3, 0x23, 0x21, 0x8a, 0x85, 0xec, 0x5d,
    0xf7, 0xbe, 0xe0, 0x92, 0x67, 0x79, 0x49, 0xc4, 0x11, 0x74, 0x42, 0x86,
    0x38, 0x4c, 0x37, 0xc1, 0xf5, 0x11, 0x5c, 0x64, 0xf4, 0x0b, 0xac, 0xf7,
    0x0c, 0x1c, 0xd6, 0x03, 0x67, 0x3c, 0xd3, 0xe5, 0xe4, 0x43, 0x26, 0x68,
    0x8f, 0x71, 0xef, 0x6f, 0x40, 0x57, 0xc1, 0x47, 0x13, 0xea, 0xfa, 0x1f,
    0x92, 0xd5, 0x7b, 0x2d, 0x31, 0xbe, 0x23, 0x0d, 0x7c, 0xfe, 0xba, 0x0e,
    0xff, 0x21, 0xc4, 0x88, 0xda, 0x7c, 0x0b, 0x1f, 0x91, 0x02, 0x5b, 0x24,
    0xdf, 0x5a, 0xd5, 0xc1, 0xb5, 0x1c, 0x0a, 0xc9, 0x2b, 0xd8, 0x18, 0x5c,
    0xfb, 0x1e, 0x84, 0x35, 0x2d, 0xe3, 0xea, 0x54, 0x28, 0x9c, 0x75, 0xbb,
    0x41, 0xdc, 0xbd, 0xac, 0x86, 0xef, 0x3f, 0x0a, 0x15, 0x25, 0xc7, 0xb1,
    0x56, 0x3d, 0x31, 0x37, 0xa8, 0x73, 0xe6, 0x06, 0x7b, 0x93, 0xdb, 0x43,
    0xfb, 0x18, 0x00, 0xd5, 0xfe, 0xc1, 0x94, 0xd1, 0x34, 0x3f, 0x3f, 0x65,
    0xfc, 0xe1, 0x70, 0x7d, 0x7f, 0x06, 0xb0, 0x56, 0xce, 0x00, 0x89, 0x1d,
    0x93, 0x67, 0xc3, 0xae]"

definition wrapping_key_D :: "byte list" where
  "wrapping_key_D =
   [0x81, 0x61, 0xf8, 0xb4, 0xd8, 0xf8, 0x34, 0x1a, 0xb5, 0xe3, 0x01, 0xf1,
    0xe5, 0x28, 0xb1, 0x98, 0x66, 0xd0, 0xa2, 0x34, 0xe0, 0x52, 0xaf, 0xb0,
    0x0f, 0x54, 0x3d, 0x4c, 0xcb, 0xd2, 0xb2, 0x03, 0xdc, 0x24, 0xbf, 0xdb,
    0x0d, 0xbe, 0x8c, 0x6e, 0xc5, 0xe6, 0x51, 0xf8, 0xd7, 0xbd, 0x0f, 0xa2,
    0x5b, 0x86, 0x81, 0x62, 0x69, 0xa8, 0x37, 0x37, 0x66, 0x5b, 0xa0, 0x5b,
    0x5a, 0x9d, 0x65, 0x52, 0xc6, 0x41, 0xbb, 0x45, 0x6b, 0x0d, 0x4a, 0x8f,
    0xe0, 0xf7, 0xca, 0xa5, 0x98, 0x8d, 0x2d, 0x31, 0xcc, 0x07, 0x74, 0xad,
    0xd5, 0xdd, 0xbb, 0x57, 0xa9, 0xc4, 0x18, 0xd6, 0xfc, 0xb8, 0x55, 0x4c,
    0x47, 0xd7, 0xc4, 0xb1, 0x28, 0xf2, 0x91, 0x7e, 0xdd, 0xcd, 0x88, 0x28,
    0x27, 0x97, 0x50, 0x5a, 0xdc, 0xe4, 0x36, 0xc5, 0x20, 0x0e, 0x8d, 0xee,
    0xd7, 0x2c, 0x3d, 0x0e, 0x49, 0xbf, 0x3e, 0x0c, 0x90, 0x00, 0x0a, 0xae,
    0x2a, 0xa0, 0x9b, 0x57, 0xd2, 0xe6, 0x95, 0x1c, 0x4d, 0x48, 0xb4, 0x9f,
    0xb2, 0xfe, 0x70, 0xf6, 0x45, 0x8a, 0xba, 0x40, 0xc9, 0x63, 0x7d, 0x08,
    0xff, 0xcc, 0x2b, 0x82, 0x1c, 0x18, 0x0d, 0x07, 0x72, 0x10, 0xea, 0x5f,
    0x7a, 0x29, 0xde, 0xb6, 0xae, 0x9e, 0x1e, 0xe7, 0xbe, 0x52, 0x0e, 0x08,
    0x43, 0x2c, 0x5d, 0x3b, 0x68, 0xdc, 0x3a, 0xa0, 0x30, 0xb6, 0x10, 0xe7,
    0xf9, 0x6d, 0x76, 0x27, 0xdb, 0x9b, 0x95, 0x88, 0x7a, 0xc6, 0x14, 0x4f,
    0xe2, 0x7f, 0x1f, 0x64, 0x40, 0xda, 0x2c, 0x4e, 0x41, 0x74, 0x0f, 0x4f,
    0xaf, 0xee, 0xae, 0x5c, 0x78, 0x4d, 0x1e, 0xb9, 0xb8, 0xf8, 0x33, 0xd8,
    0x88, 0xe1, 0x0d, 0xe7, 0x2d, 0x6c, 0x04, 0x60, 0x09, 0x63, 0xb6, 0x52,
    0x1a, 0x71, 0xf3, 0x99, 0x6f, 0xe7, 0x1e, 0x2b, 0x11, 0x08, 0x19, 0x25,
    0xb6, 0x47, 0x14, 0x43]"

definition IMPORTED_KEY :: "byte list" where
  "IMPORTED_KEY =
   [0x8a, 0x28, 0xf1, 0xa8, 0xb8, 0x93, 0x8a, 0x2c, 0x1f, 0x35, 0x72, 0xb0,
    0x4c, 0x48, 0xd5, 0xdf, 0x52, 0x28, 0x1e, 0xe2, 0x11, 0xad, 0x73, 0xf7,
    0x7f, 0x97, 0x04, 0xe6, 0x79, 0x29, 0xff, 0xcf]"

lemma wrapped_lengths [simp]:
  "length RSA_ENVELOPE = 256" "length INITIALIZATION_VECTOR = 12" "length ENCRYPTED_IMPORT_KEY = 32"
  "length AAD = 22" "length GCM_TAG = 16" "length wrapping_key_N = 256" "length wrapping_key_D = 256"
  "length IMPORTED_KEY = 32"
  by (simp_all add: RSA_ENVELOPE_def INITIALIZATION_VECTOR_def ENCRYPTED_IMPORT_KEY_def AAD_def GCM_TAG_def
      wrapping_key_N_def wrapping_key_D_def IMPORTED_KEY_def)

text \<open>The fields of the request are those of the wrapped key in the comment, each at its place
  in the DER encoding, but for the RSA envelope: the one that the test sends does not occur there.\<close>

theorem wrapped_key_fields:
  "slice 269 12 WRAPPED_KEY_DER = INITIALIZATION_VECTOR \<and> slice 281 22 WRAPPED_KEY_DER = AAD \<and>
   slice 305 32 WRAPPED_KEY_DER = ENCRYPTED_IMPORT_KEY \<and> slice 339 16 WRAPPED_KEY_DER = GCM_TAG \<and>
   length WRAPPED_KEY_DER = 355 \<and> slice 11 256 WRAPPED_KEY_DER \<noteq> RSA_ENVELOPE \<and>
   length (slice 11 256 WRAPPED_KEY_DER) = 256"
  by (simp add: slice_def WRAPPED_KEY_DER_def INITIALIZATION_VECTOR_def AAD_def ENCRYPTED_IMPORT_KEY_def
      GCM_TAG_def RSA_ENVELOPE_def)

subsection \<open>The request\<close>

record wrapped_key_request =
  wrapped_params :: "key_parameter list"
  rsa_envelope :: "byte list"
  initialization_vector :: "byte list"
  encrypted_import_key :: "byte list"
  wrapped_aad :: "byte list"
  gcm_tag :: "byte list"
  wrapping_key_blob :: "byte list"
  masking_key :: "byte list"

text \<open>The call, the numbers of the enumerations, and \<open>SHA256\<close> of the crypto library. The key
  format is always raw.\<close>

record 'w keymaster_wrapped =
  km_ImportWrappedKey :: "client \<Rightarrow> wrapped_key_request \<Rightarrow> 'w \<Rightarrow> int \<times> (int \<times> byte list) \<times> 'w"
  wrapped_OK :: int
  AES_number :: u32
  PADDING :: u32
  PADDING_RSA_OAEP :: u32
  PURPOSE :: u32
  WRAP_KEY :: u32
  SHA256 :: "byte list \<Rightarrow> byte list"

abbreviation WRAP :: string where "WRAP \<equiv> ''keymaster-import-wrapped-key-tests.cc''"

definition WrappedKey_SetUpTestCase ::
  "'w nos \<Rightarrow> config \<Rightarrow> fault + 'p \<Rightarrow> 'w avb \<Rightarrow> 'w keymaster_root \<Rightarrow> (('w, 'p) fixture, unit) proc" where
  "WrappedKey_SetUpTestCase env cfg printer svc km = block
     [connect env cfg printer WRAP 49, invoke (with_client (SetRootOfTrust env svc km))]"

definition WrappedKey_TearDownTestCase :: "'w nos \<Rightarrow> (('w, 'p) fixture, unit) proc" where
  "WrappedKey_TearDownTestCase env = disconnect env"

text \<open>\<open>memcpy\<close> into the front of an array.\<close>

definition overwrite :: "byte list \<Rightarrow> byte list \<Rightarrow> byte list" where
  "overwrite src dst = src @ drop (length src) dst"

definition no_param :: blob_params where
  "no_param = \<lparr>param_tag = 0, param_integer = 0, param_long_integer = 0\<rparr>"

definition zero_enforcements :: blob_enforcements where
  "zero_enforcements = \<lparr>params_count = 0, params = replicate n_params no_param\<rparr>"

definition wrapping_rsa :: blob_rsa where
  "wrapping_rsa = \<lparr>
     rsa = \<lparr>rsa_e = 65537, rsa_N = \<lparr>dmax = of_nat (length wrapping_key_N div 4), bn_d = 0\<rparr>,
            rsa_d = \<lparr>dmax = of_nat (length wrapping_key_D div 4), bn_d = 0\<rparr>\<rparr>,
     N_bytes = overwrite wrapping_key_N (zeros rsa_max),
     d_bytes = overwrite wrapping_key_D (zeros rsa_max)\<rparr>"

text \<open>The blob, all zero but for what the test sets; its digest last.\<close>

definition wrapping_blob_body :: "'w keymaster_wrapped \<Rightarrow> km_blob" where
  "wrapping_blob_body km = \<lparr>
     magic = 0, version = 0, blob_id = 0, iv = [0, 0, 0, 0], sw_enforced = zero_enforcements,
     tee_enforced = zero_enforcements
       \<lparr>params := (params zero_enforcements)
          [0 := no_param\<lparr>param_tag := PADDING km, param_integer := PADDING_RSA_OAEP km\<rparr>,
           1 := no_param\<lparr>param_tag := PURPOSE km, param_integer := WRAP_KEY km\<rparr>],
        params_count := 0 + 1 + 1\<rparr>,
     algorithm = blob_alg_code BLOB_RSA, key = put_rsa wrapping_rsa, hmac = zeros 32\<rparr>"

definition wrapping_blob :: "'w keymaster_wrapped \<Rightarrow> km_blob" where
  "wrapping_blob km =
     (let b = wrapping_blob_body km
      in b\<lparr>hmac := SHA256 km (take (sizeof_km_blob - 32) (put_km_blob b))\<rparr>)"

definition wrapped_request :: "'w keymaster_wrapped \<Rightarrow> wrapped_key_request" where
  "wrapped_request km = \<lparr>
     wrapped_params = [integer_param ALGORITHM (AES_number km)],
     rsa_envelope = RSA_ENVELOPE, initialization_vector = INITIALIZATION_VECTOR,
     encrypted_import_key = ENCRYPTED_IMPORT_KEY, wrapped_aad = AAD, gcm_tag = GCM_TAG,
     wrapping_key_blob = put_km_blob (wrapping_blob km), masking_key = zeros 32\<rparr>"

subsection \<open>The test\<close>

abbreviation "key_offset \<equiv> 680 :: nat"

text \<open>\<open>key_bits >> 3\<close> of a blob as long as what was received.\<close>

definition key_bytes_at :: "byte list \<Rightarrow> fault + nat" where
  "key_bytes_at blob =
     (if key_offset + 4 \<le> length blob then Inr (unat (drop_bit 3 (le_dec (slice key_offset 4 blob) :: u32)))
      else Inl Out_of_bounds)"

definition ImportSuccess :: "'w keymaster_wrapped \<Rightarrow> client \<Rightarrow> ('w, unit) proc" where
  "ImportSuccess km c =
     and_then (act (\<lambda>w. case km_ImportWrappedKey km c (wrapped_request km) w of (value, resp, w) \<Rightarrow> ((value, resp), w)))
       (\<lambda>(value, (e, blob)). block
         [ASSERT WRAP 244 (value = APP_SUCCESS),
          EXPECT WRAP 245 (e = wrapped_OK km),
          EXPECT WRAP 247 (sizeof_km_blob = length blob),
          and_then (attempt (\<lambda>w. bind_res (key_bytes_at blob) (\<lambda>n. Inr (n, w)))) (\<lambda>n.
            EXPECT WRAP 250 (n = length IMPORTED_KEY)),
          and_then (attempt (\<lambda>w. bind_res (same_at (key_offset + 4) (length IMPORTED_KEY) blob IMPORTED_KEY)
            (\<lambda>b. Inr (b, w)))) (EXPECT WRAP 251)])"

subsection \<open>What is sent and what is checked\<close>

lemma wrapping_rsa_wf: "rsa_wf wrapping_rsa"
  by (simp add: rsa_wf_def wrapping_rsa_def overwrite_def)

lemma wrapping_blob_body_wf: "km_blob_wf (wrapping_blob_body km)"
  by (simp add: km_blob_wf_def wrapping_blob_body_def enforcements_wf_def zero_enforcements_def
      length_put(4) [OF wrapping_rsa_wf])

lemma put_km_blob_hmac:
  assumes "km_blob_wf b" "length h = 32"
  shows "take 1468 (put_km_blob (b\<lparr>hmac := h\<rparr>)) = take 1468 (put_km_blob b)"
    "km_blob_wf (b\<lparr>hmac := h\<rparr>)"
proof -
  have header: "blob_header (b\<lparr>hmac := h\<rparr>) = blob_header b" by (simp add: blob_header_def)
  show "take 1468 (put_km_blob (b\<lparr>hmac := h\<rparr>)) = take 1468 (put_km_blob b)"
    using length_blob_header [OF assms(1)] assms by (simp add: put_km_blob_parts header km_blob_wf_def)
  show "km_blob_wf (b\<lparr>hmac := h\<rparr>)" using assms by (simp add: km_blob_wf_def)
qed

lemma wrapping_blob_wf:
  assumes "length (SHA256 km (take 1468 (put_km_blob (wrapping_blob_body km)))) = 32"
  shows "km_blob_wf (wrapping_blob km)"
    "hmac (wrapping_blob km) = SHA256 km (take 1468 (put_km_blob (wrapping_blob km)))"
    "key (wrapping_blob km) = put_rsa wrapping_rsa" "params_count (tee_enforced (wrapping_blob km)) = 2"
proof -
  define b where "b = wrapping_blob_body km"
  define h where "h = SHA256 km (take 1468 (put_km_blob b))"
  have blob: "wrapping_blob km = b\<lparr>hmac := h\<rparr>" by (simp add: wrapping_blob_def Let_def b_def h_def)
  have b: "km_blob_wf b" "length h = 32"
    using assms wrapping_blob_body_wf by (simp_all add: b_def h_def)
  show "km_blob_wf (wrapping_blob km)" unfolding blob by (rule put_km_blob_hmac(2) [OF b])
  show "hmac (wrapping_blob km) = SHA256 km (take 1468 (put_km_blob (wrapping_blob km)))"
    unfolding blob put_km_blob_hmac(1) [OF b] by (simp add: h_def)
  show "key (wrapping_blob km) = put_rsa wrapping_rsa" "params_count (tee_enforced (wrapping_blob km)) = 2"
    unfolding blob by (simp_all add: b_def wrapping_blob_body_def)
qed

lemma slice_take: "n \<le> m \<Longrightarrow> take n (slice off m bs) = slice off n bs"
  by (simp add: slice_def min_def)

text \<open>The device takes the request, and answers with a blob of the right size whose key is the AES
  key in 32 bytes.\<close>

definition unwraps :: "'w keymaster_wrapped \<Rightarrow> client \<Rightarrow> 'w \<Rightarrow> bool" where
  "unwraps km c w \<longleftrightarrow>
     (\<exists>blob w'. km_ImportWrappedKey km c (wrapped_request km) w = (APP_SUCCESS, (wrapped_OK km, blob), w') \<and>
        length blob = sizeof_km_blob \<and>
        unat (drop_bit 3 (le_dec (slice 680 4 blob) :: u32)) = 32 \<and> slice 684 32 blob = IMPORTED_KEY)"

lemma ImportSuccess_verdict: "passes (ImportSuccess km c) w \<longleftrightarrow> unwraps km c w"
proof -
  have rec: "records (ImportSuccess km c)"
    by (auto simp: ImportSuccess_def intro!: records_intros)
  obtain st e blob w1 where call: "km_ImportWrappedKey km c (wrapped_request km) w = (st, (e, blob), w1)"
    by (metis prod.exhaust)
  show ?thesis
    unfolding passes_completes [OF rec]
    by (auto simp: ImportSuccess_def passed_simps call unwraps_def bind_res_Inr_iff same_at_Inr key_bytes_at_def
        split: if_splits)
qed

text \<open>C30: the blob of the wrapping key that the test makes is one that a device can check: it has
  the size and the layout of a key blob, it reads back as the wrapping key with its two parameters,
  the modulus and the private exponent lie where the structure has them, and its last 32 bytes are
  the digest of all before them. The test passes exactly when the device unwraps with it.\<close>

theorem wrapped_import_verdict:
  assumes "length (SHA256 km (take 1468 (put_km_blob (wrapping_blob_body km)))) = 32"
    and "bs = wrapping_key_blob (wrapped_request km)"
  shows "length bs = sizeof_km_blob \<and> get_km_blob bs = Some (wrapping_blob km, []) \<and>
    get_rsa (key (wrapping_blob km)) = Some (wrapping_rsa, []) \<and>
    params_count (tee_enforced (wrapping_blob km)) = 2 \<and>
    slice N_offset 256 bs = wrapping_key_N \<and> slice d_offset 256 bs = wrapping_key_D \<and>
    slice 1468 32 bs = SHA256 km (take 1468 bs) \<and>
    (passes (ImportSuccess km c) w \<longleftrightarrow> unwraps km c w)"
proof -
  note wf = wrapping_blob_wf [OF assms(1)]
  have bs: "bs = put_km_blob (wrapping_blob km)" by (simp add: assms(2) wrapped_request_def)
  note layout = km_blob_layout_at [OF wf(1) wrapping_rsa_wf wf(3)]
  have "slice N_offset 256 bs = wrapping_key_N"
    using slice_take [of 256 rsa_max N_offset bs] layout(4)
    by (simp add: bs wrapping_rsa_def overwrite_def)
  moreover have "slice d_offset 256 bs = wrapping_key_D"
    using slice_take [of 256 rsa_max d_offset bs] layout(5)
    by (simp add: bs wrapping_rsa_def overwrite_def)
  ultimately show ?thesis
    using layout wf(2,4) by (simp add: bs ImportSuccess_verdict)
qed

definition fixed_wrapped :: "byte list \<Rightarrow> unit keymaster_wrapped" where
  "fixed_wrapped blob = \<lparr>
     km_ImportWrappedKey = (\<lambda>c r w. (APP_SUCCESS, (0, blob), w)),
     wrapped_OK = 0, AES_number = 32, PADDING = 6, PADDING_RSA_OAEP = 2, PURPOSE = 1, WRAP_KEY = 5,
     SHA256 = (\<lambda>bs. replicate 32 (of_nat (length bs)))\<rparr>"

theorem wrapped_import_verdict_witness:
  "length (wrapping_key_blob (wrapped_request (fixed_wrapped []))) = 1500 \<and>
   \<not> passes (ImportSuccess (fixed_wrapped []) CitadeldProxyClient) ()"
  using wrapped_import_verdict [of "fixed_wrapped []" _ CitadeldProxyClient "()"]
  by (simp add: fixed_wrapped_def unwraps_def)

end
