(* ===== verification/OsCrypto.thy ===== *)
theory OsCrypto
  imports Complex_Main OsTests
begin

text \<open>
  \<open>AesCbc\<close> of \<open>src/runtests.cc\<close>: it compares the chip's encryption with the crypto library's,
  block by block.
\<close>

abbreviation AES_BLOCK_SIZE :: nat where "AES_BLOCK_SIZE \<equiv> 16"

subsection \<open>\<open>AesCbc\<close>\<close>

text \<open>A parsed result: the code, the cipher text and the initialization vector.\<close>

record aes_result =
  aes_code :: int
  cipher_text :: "byte list"
  aes_iv :: "byte list"

text \<open>\<open>key_sizes\<close> are the values of the three enumerators, \<open>aes_request\<close> the serialized
  request for a key size, a number of blocks and a key. \<open>AES_cbc_encrypt\<close> is the call of the
  crypto library on one block: it takes the key, the input and the vector, and gives the output and
  the new vector.\<close>

record aes_protos =
  aes_ids :: message_ids
  kAesCbcEncryptTest :: u16
  kAesCbcEncryptTestResult :: u16
  key_sizes :: "nat list"
  aes_request :: "nat \<Rightarrow> nat \<Rightarrow> byte list \<Rightarrow> pb_message"
  parse_aes_result :: "int \<Rightarrow> byte list \<Rightarrow> aes_result option"
  DE_NO_ERROR :: int
  AES_cbc_encrypt :: "byte list \<Rightarrow> byte list \<Rightarrow> byte list \<Rightarrow> byte list \<times> byte list"

text \<open>The loop over the blocks: it encrypts a zero block, with the vector that the previous round
  left, and compares it with the part of the result at the same place.\<close>

fun aes_blocks ::
  "aes_protos \<Rightarrow> byte list \<Rightarrow> byte list \<Rightarrow> nat \<Rightarrow> nat \<Rightarrow> byte list \<Rightarrow> ('w, byte list) proc" where
  "aes_blocks api k cipher x 0 v = give v"
| "aes_blocks api k cipher x (Suc n) v =
     (let (sw_out, v) = AES_cbc_encrypt api k (zeros AES_BLOCK_SIZE) v in
      and_then (for_each [0..<AES_BLOCK_SIZE] (\<lambda>y.
          let index = x * AES_BLOCK_SIZE + y in
          check_at OS 266 (index < length cipher \<and> y < length sw_out) (cipher ! index = sw_out ! y)))
        (\<lambda>_. aes_blocks api k cipher (Suc x) n v))"

text \<open>The checks of a result.\<close>

definition check_aes_result :: "aes_protos \<Rightarrow> nat \<Rightarrow> byte list \<Rightarrow> aes_result \<Rightarrow> ('w, unit) proc" where
  "check_aes_result api number_of_blocks k result =
     and_then (EXPECT OS 247 (aes_code result = DE_NO_ERROR api)) (\<lambda>_.
     and_then (ASSERT OS 250 (length (cipher_text result) = number_of_blocks * AES_BLOCK_SIZE)) (\<lambda>_.
     and_then (aes_blocks api k (cipher_text result) 0 number_of_blocks (zeros AES_BLOCK_SIZE)) (\<lambda>v.
     and_then (ASSERT OS 271 (length (aes_iv result) = AES_BLOCK_SIZE)) (\<lambda>_.
       for_each [0..<AES_BLOCK_SIZE] (\<lambda>x.
         check_at OS 274 (x < length (aes_iv result) \<and> x < length v) (aes_iv result ! x = v ! x))))))"

text \<open>A key of \<open>key_size / sizeof(int)\<close> random numbers, as it lies in memory; \<open>random\<close> gives
  the numbers of a round.\<close>

definition random_key :: "(nat \<Rightarrow> u32) \<Rightarrow> nat \<Rightarrow> byte list" where
  "random_key random key_size = concat (map (\<lambda>i. le32 (random i)) [0..<key_size div 4])"

definition aes_round ::
  "('w, 'e, 'd) rig \<Rightarrow> aes_protos \<Rightarrow> (nat \<Rightarrow> u32) \<Rightarrow> nat \<Rightarrow> nat \<Rightarrow> ('w, 'e, 'd, unit) hproc" where
  "aes_round rig api random turn key_size =
     (let number_of_blocks = 3; k = random_key random key_size;
          request = aes_request api key_size number_of_blocks k in
      and_then (call_oneof rig (aes_ids api) OS 234 239 turn (kAesCbcEncryptTest api) request
          (kAesCbcEncryptTestResult api) (parse_aes_result api)) (\<lambda>result.
        check_aes_result api number_of_blocks k result))"

fun aes_rounds ::
  "('w, 'e, 'd) rig \<Rightarrow> aes_protos \<Rightarrow> (nat \<Rightarrow> nat \<Rightarrow> u32) \<Rightarrow> nat \<Rightarrow> nat list \<Rightarrow> ('w, 'e, 'd, unit) hproc" where
  "aes_rounds rig api random turn [] = give ()"
| "aes_rounds rig api random turn (key_size # sizes) =
     and_then (say (''Testing with a key size of: '' @ dec_str (key_size * 8) @ [NL])) (\<lambda>_.
     and_then (aes_round rig api (random turn) turn key_size) (\<lambda>_.
       aes_rounds rig api random (Suc turn) sizes))"

definition AesCbc ::
  "('w, 'e, 'd) rig \<Rightarrow> aes_protos \<Rightarrow> (nat \<Rightarrow> nat \<Rightarrow> u32) \<Rightarrow> ('w, 'e, 'd, unit) hproc" where
  "AesCbc rig api random = aes_rounds rig api random 0 (key_sizes api)"

subsection \<open>What \<open>AesCbc\<close> compares with\<close>

text \<open>The contract of \<open>AES_cbc_encrypt\<close> on one block: the block cipher under the key on the
  input and the vector, which is also the next vector.\<close>

definition xor_block :: "byte list \<Rightarrow> byte list \<Rightarrow> byte list" where
  "xor_block = map2 (XOR)"

definition cbc_contract :: "aes_protos \<Rightarrow> (byte list \<Rightarrow> byte list \<Rightarrow> byte list) \<Rightarrow> bool" where
  "cbc_contract api E \<longleftrightarrow>
     (\<forall>k b. length (E k b) = AES_BLOCK_SIZE) \<and>
     (\<forall>k b v. length b = AES_BLOCK_SIZE \<longrightarrow> length v = AES_BLOCK_SIZE \<longrightarrow>
        AES_cbc_encrypt api k b v = (E k (xor_block b v), E k (xor_block b v)))"

text \<open>The blocks that encrypting zeros gives: the cipher applied once more from block to block.\<close>

definition zero_chain :: "(byte list \<Rightarrow> byte list) \<Rightarrow> nat \<Rightarrow> byte list list" where
  "zero_chain f n = map (\<lambda>i. (f ^^ Suc i) (zeros AES_BLOCK_SIZE)) [0..<n]"

lemma xor_zeros: "length v = n \<Longrightarrow> xor_block (zeros n) v = v"
  by (auto simp: xor_block_def intro!: nth_equalityI)

lemma records_aes_blocks [simp, records_intros]: "records (aes_blocks api k cipher x n v)"
  by (induction n arbitrary: x v) (auto simp: Let_def intro!: records_intros split: prod.splits)

text \<open>A comparison of sixteen bytes at a place.\<close>

lemma check_block:
  assumes "length out = 16"
  shows "(\<forall>y \<in> set [0..<16]. x * 16 + y < length cipher \<and> y < length out \<and> cipher ! (x * 16 + y) = out ! y) \<longleftrightarrow>
    x * 16 + 16 \<le> length cipher \<and> slice (x * 16) 16 cipher = out"
proof
  assume all: "\<forall>y \<in> set [0..<16]. x * 16 + y < length cipher \<and> y < length out \<and> cipher ! (x * 16 + y) = out ! y"
  then have "x * 16 + 15 < length cipher" by auto
  then have len: "x * 16 + 16 \<le> length cipher" by simp
  with all assms have "slice (x * 16) 16 cipher = out"
    by (intro nth_equalityI) (auto simp: slice_def)
  with len show "x * 16 + 16 \<le> length cipher \<and> slice (x * 16) 16 cipher = out" ..
next
  assume r: "x * 16 + 16 \<le> length cipher \<and> slice (x * 16) 16 cipher = out"
  then show "\<forall>y \<in> set [0..<16]. x * 16 + y < length cipher \<and> y < length out \<and> cipher ! (x * 16 + y) = out ! y"
    using assms by (auto simp: slice_def)
qed

lemma cbc_step:
  assumes "cbc_contract api E" "length v = 16"
  shows "AES_cbc_encrypt api k (zeros AES_BLOCK_SIZE) v = (E k v, E k v)" "length (E k v) = 16"
  using assms xor_zeros [OF assms(2)] by (auto simp: cbc_contract_def)

lemma passed_aes_blocks:
  assumes "cbc_contract api E"
  shows "length v = 16 \<Longrightarrow>
    passed (aes_blocks api k cipher x n v) w v' w' \<longleftrightarrow>
    (\<forall>i < n. (x + i) * 16 + 16 \<le> length cipher \<and> slice ((x + i) * 16) 16 cipher = (E k ^^ Suc i) v) \<and>
    v' = (E k ^^ n) v \<and> w' = w"
proof (induction n arbitrary: x v)
  case 0
  then show ?case by (simp add: passed_basic)
next
  case (Suc n)
  note step = cbc_step [OF assms Suc.prems, of k]
  note IH = Suc.IH [OF step(2), of "Suc x"]
  have shift: "(E k ^^ i) (E k v) = (E k ^^ Suc i) v" for i by (simp only: funpow_Suc_right comp_apply)
  have "passed (aes_blocks api k cipher x (Suc n) v) w v' w' \<longleftrightarrow>
      (x * 16 + 16 \<le> length cipher \<and> slice (x * 16) 16 cipher = E k v) \<and>
      passed (aes_blocks api k cipher (Suc x) n (E k v)) w v' w'"
    using check_block [OF step(2), of x cipher]
    by (simp add: step(1) Let_def passed_simps del: set_upt)
  also have "\<dots> \<longleftrightarrow> (\<forall>i < Suc n. (x + i) * 16 + 16 \<le> length cipher \<and>
      slice ((x + i) * 16) 16 cipher = (E k ^^ Suc i) v) \<and> v' = (E k ^^ Suc n) v \<and> w' = w"
    unfolding IH All_less_Suc2 shift by (auto simp: funpow_swap1)
  finally show ?case .
qed

text \<open>A string is cut into its blocks in one way only.\<close>

lemma concat_of_slices:
  "list_all (\<lambda>b. length b = 16) bs \<Longrightarrow>
   s = concat bs \<longleftrightarrow> length s = length bs * 16 \<and> (\<forall>i < length bs. slice (i * 16) 16 s = bs ! i)"
proof (induction bs arbitrary: s)
  case Nil
  then show ?case by simp
next
  case (Cons b bs)
  then have b: "length b = 16" by simp
  have "s = b @ concat bs \<longleftrightarrow> 16 \<le> length s \<and> slice 0 16 s = b \<and> drop 16 s = concat bs"
    using b by (auto simp: slice_def) (metis append_take_drop_id)
  also have "drop 16 s = concat bs \<longleftrightarrow>
      length (drop 16 s) = length bs * 16 \<and> (\<forall>i < length bs. slice (i * 16) 16 (drop 16 s) = bs ! i)"
    using Cons by simp
  also have "(16 \<le> length s \<and> slice 0 16 s = b \<and> \<dots>) \<longleftrightarrow>
      length s = length (b # bs) * 16 \<and> (\<forall>i < length (b # bs). slice (i * 16) 16 s = (b # bs) ! i)"
    by (auto simp: All_less_Suc2 slice_def add.commute)
  finally show ?case by simp
qed

lemma records_check_aes [simp, records_intros]: "records (check_aes_result api n k result)"
  by (auto simp: check_aes_result_def intro!: records_intros)

text \<open>A result that agrees with the block cipher: no error, the chain, and its last block as the
  vector.\<close>

definition aes_result_right :: "aes_protos \<Rightarrow> (byte list \<Rightarrow> byte list) \<Rightarrow> nat \<Rightarrow> aes_result \<Rightarrow> bool" where
  "aes_result_right api f n result \<longleftrightarrow> aes_code result = DE_NO_ERROR api \<and>
     cipher_text result = concat (zero_chain f n) \<and> aes_iv result = (f ^^ n) (zeros AES_BLOCK_SIZE)"

lemma passed_check_aes:
  assumes "cbc_contract api E"
  shows "passed (check_aes_result api n k result) w u w' \<longleftrightarrow> aes_result_right api (E k) n result \<and> w' = w"
proof -
  have E: "length (E k b) = 16" for b using assms by (simp add: cbc_contract_def)
  have pow: "length ((E k ^^ i) (zeros 16)) = 16" for i by (cases i) (simp_all add: E)
  have chain: "list_all (\<lambda>b. length b = 16) (zero_chain (E k) n)" "length (zero_chain (E k) n) = n"
    by (auto simp: zero_chain_def list_all_iff E)
  have cipher: "(length (cipher_text result) = n * 16 \<and> (\<forall>i < n. i * 16 + 16 \<le> length (cipher_text result) \<and>
        slice (i * 16) 16 (cipher_text result) = (E k ^^ Suc i) (zeros 16))) \<longleftrightarrow>
      cipher_text result = concat (zero_chain (E k) n)"
    unfolding concat_of_slices [OF chain(1)] chain(2) by (auto simp: zero_chain_def)
  have iv: "(length (aes_iv result) = 16 \<and> (\<forall>x \<in> set [0..<16]. x < length (aes_iv result) \<and> x < length ((E k ^^ n) (zeros 16)) \<and>
        aes_iv result ! x = (E k ^^ n) (zeros 16) ! x)) \<longleftrightarrow> aes_iv result = (E k ^^ n) (zeros 16)"
    by (auto simp: pow intro!: nth_equalityI)
  have "passed (check_aes_result api n k result) w u w' \<longleftrightarrow> aes_code result = DE_NO_ERROR api \<and>
      (length (cipher_text result) = n * 16 \<and> (\<forall>i < n. i * 16 + 16 \<le> length (cipher_text result) \<and>
        slice (i * 16) 16 (cipher_text result) = (E k ^^ Suc i) (zeros 16))) \<and>
      (length (aes_iv result) = 16 \<and> (\<forall>x \<in> set [0..<16]. x < length (aes_iv result) \<and> x < length ((E k ^^ n) (zeros 16)) \<and>
        aes_iv result ! x = (E k ^^ n) (zeros 16) ! x)) \<and> w' = w"
    unfolding check_aes_result_def
    by (simp add: passed_simps passed_aes_blocks [OF assms] del: set_upt)
  then show ?thesis unfolding cipher iv by (auto simp: aes_result_right_def)
qed

text \<open>The chip answers the request of each round with a right result.\<close>

fun encrypts_all ::
  "('w, 'e, 'd) rig \<Rightarrow> aes_protos \<Rightarrow> (byte list \<Rightarrow> byte list \<Rightarrow> byte list) \<Rightarrow> (nat \<Rightarrow> nat \<Rightarrow> u32) \<Rightarrow> nat \<Rightarrow> nat list \<Rightarrow>
   ('w, 'e, 'd) harness \<Rightarrow> bool" where
  "encrypts_all rig api E random turn [] h \<longleftrightarrow> True"
| "encrypts_all rig api E random turn (ks # sizes) h \<longleftrightarrow>
     (\<exists>result h'.
        answered rig (aes_ids api) 234 239 turn (kAesCbcEncryptTest api)
          (aes_request api ks 3 (random_key (random turn) ks)) (kAesCbcEncryptTestResult api) (parse_aes_result api)
          (print_at INFO (''Testing with a key size of: '' @ dec_str (ks * 8) @ [NL]) h) result h' \<and>
        aes_result_right api (E (random_key (random turn) ks)) 3 result \<and>
        encrypts_all rig api E random (Suc turn) sizes h')"

lemma records_aes_round [simp, records_intros]: "records (aes_round rig api random turn ks)"
  by (auto simp: aes_round_def Let_def intro!: records_intros)

lemma records_aes_rounds [simp, records_intros]: "records (aes_rounds rig api random turn sizes)"
  by (induction sizes arbitrary: turn) (auto intro!: records_intros)

lemma records_AesCbc [simp, records_intros]: "records (AesCbc rig api random)"
  by (simp add: AesCbc_def)

lemma passed_aes_round:
  assumes "cbc_contract api E"
  shows "passed (aes_round rig api random turn ks) h u h' \<longleftrightarrow>
    (\<exists>result. answered rig (aes_ids api) 234 239 turn (kAesCbcEncryptTest api)
        (aes_request api ks 3 (random_key random ks)) (kAesCbcEncryptTestResult api) (parse_aes_result api) h result h' \<and>
      aes_result_right api (E (random_key random ks)) 3 result)"
  unfolding aes_round_def Let_def
  by (auto simp: passed_simps passed_check_aes [OF assms])

lemma completes_aes_rounds:
  assumes "cbc_contract api E"
  shows "completes (aes_rounds rig api random turn sizes) h () \<longleftrightarrow> encrypts_all rig api E random turn sizes h"
proof (induction sizes arbitrary: turn h)
  case (Cons ks sizes)
  then show ?case
    by (simp add: passed_simps passed_aes_round [OF assms]) blast
qed (simp add: passed_simps)

text \<open>C32: under the contract of the crypto library's block call, the test of encryption passes
  exactly when the chip, asked with a fresh key of each of the sizes in turn, answers without an
  error, with the cipher text \<open>E(0), E(E(0)), E(E(E(0)))\<close> of three zero blocks under the key's
  block cipher \<open>E\<close> and the zero vector, and with the last block as the vector.\<close>

theorem AesCbc_verdict:
  assumes "cbc_contract api E"
  shows "passes (AesCbc rig api random) h \<longleftrightarrow> encrypts_all rig api E random 0 (key_sizes api) h"
  unfolding passes_completes [OF records_AesCbc]
  by (simp add: AesCbc_def completes_aes_rounds [OF assms])

text \<open>A cipher that adds one to every byte, and a chip that knows the answer.\<close>

definition add_cipher :: "byte list \<Rightarrow> byte list \<Rightarrow> byte list" where
  "add_cipher k b = map (\<lambda>i. if i < length b then b ! i + 1 else 1) [0..<16]"

definition sample_aes :: aes_protos where
  "sample_aes = \<lparr>
     aes_ids = os_ids sample_protos, kAesCbcEncryptTest = 1, kAesCbcEncryptTestResult = 2, key_sizes = [16, 24, 32],
     aes_request = (\<lambda>size n k. pb_of (of_nat size # of_nat n # take 32 k)),
     parse_aes_result = (\<lambda>n bs. Some \<lparr>aes_code = 0, cipher_text = take 48 bs, aes_iv = drop 48 bs\<rparr>),
     DE_NO_ERROR = 0,
     AES_cbc_encrypt = (\<lambda>k b v. (add_cipher k (xor_block b v), add_cipher k (xor_block b v)))\<rparr>"

lemma sample_aes_contract: "cbc_contract sample_aes add_cipher"
  by (simp add: cbc_contract_def sample_aes_def add_cipher_def)

definition sample_cipher :: "byte list" where
  "sample_cipher = replicate 16 1 @ replicate 16 2 @ replicate 16 3 @ replicate 16 3"

lemma sample_cipher_right:
  "parse_aes_result sample_aes n sample_cipher = Some r \<Longrightarrow> aes_result_right sample_aes (add_cipher k) 3 r"
proof -
  have "add_cipher k (replicate 16 b) = replicate 16 (b + 1)" for b
    by (rule nth_equalityI) (auto simp: add_cipher_def)
  from this [of 0] this [of 1] this [of 2]
  have chain: "zero_chain (add_cipher k) 3 = [replicate 16 1, replicate 16 2, replicate 16 3]"
    "(add_cipher k ^^ 3) (zeros 16) = replicate 16 3"
    by (simp_all add: zero_chain_def numeral_3_eq_3 upt_rec)
  assume "parse_aes_result sample_aes n sample_cipher = Some r"
  then show ?thesis by (auto simp: sample_aes_def aes_result_right_def chain sample_cipher_def)
qed

lemma sample_encrypts:
  "hclient h = Some c \<Longrightarrow>
   encrypts_all (spi_rig (fixed_device 5 (be16 2 @ sample_cipher))) sample_aes add_cipher random turn sizes h"
proof (induction sizes arbitrary: turn h)
  case (Cons ks sizes)
  let ?h = "print_at INFO (''Testing with a key size of: '' @ dec_str (ks * 8) @ [NL]) h"
  let ?req = "of_nat ks # 3 # take 32 (random_key (random turn) ks)"
  obtain r where r: "parse_aes_result sample_aes (int (length sample_cipher)) sample_cipher = Some r"
    by (simp add: sample_aes_def)
  have "hclient ?h = Some c" using Cons.prems by simp
  moreover have "length ?req \<le> 508" by (simp add: min_def)
  moreover have "length sample_cipher \<le> 508" "sample_cipher \<noteq> []" by (simp_all add: sample_cipher_def)
  moreover have "5 = id_TESTING_API_RESPONSE (aes_ids sample_aes)" by (simp add: sample_aes_def sample_protos_def)
  ultimately obtain h' where
    ans: "answered (spi_rig (fixed_device 5 (be16 2 @ sample_cipher))) (aes_ids sample_aes) 234 239 turn
      (kAesCbcEncryptTest sample_aes) (pb_of ?req) 2 (parse_aes_result sample_aes) ?h r h'" "hclient h' = Some c"
    using r by (metis spi_answered)
  have "aes_request sample_aes ks 3 (random_key (random turn) ks) = pb_of ?req" "kAesCbcEncryptTestResult sample_aes = 2"
    by (simp_all add: sample_aes_def)
  with ans(1) sample_cipher_right [OF r] Cons.IH [OF ans(2)] show ?case
    by (simp only: encrypts_all.simps) metis
qed simp

theorem AesCbc_verdict_witness:
  "passes (AesCbc (spi_rig (fixed_device 5 (be16 2 @ sample_cipher))) sample_aes (\<lambda>turn i. of_nat (turn + i)))
     spi_harness"
proof -
  have "hclient spi_harness = Some CitadeldProxyClient" by (simp add: spi_harness_def)
  from sample_encrypts [OF this] AesCbc_verdict [OF sample_aes_contract] show ?thesis by blast
qed

end
