(* ===== verification/Trng.thy ===== *)
theory Trng
  imports Complex_Main OsTests
begin

text \<open>
  \<open>Trng\<close> of \<open>src/runtests.cc\<close>: it collects ten answers of 475 random bytes, counts the byte
  values, and bounds a statistic of the counts. The \<open>double\<close> arithmetic of the statistic is that
  of the real numbers here.
\<close>

record trng_protos =
  trng_ids :: message_ids
  kTrngTest :: u16
  kTrngTestResult :: u16
  trng_request :: "nat \<Rightarrow> pb_message"
  parse_trng_result :: "int \<Rightarrow> byte list \<Rightarrow> byte list option"

abbreviation request_size :: nat where "request_size \<equiv> 475"
abbreviation repeats :: nat where "repeats \<equiv> 10"

subsection \<open>The test\<close>

definition count_byte :: "byte \<Rightarrow> nat list \<Rightarrow> nat list" where
  "count_byte b counts = counts[unat b := Suc (counts ! unat b)]"

text \<open>The verbosity is lowered after the first exchange.\<close>

definition after_exchange :: "nat \<Rightarrow> ('w, 'e, 'd, unit) hproc" where
  "after_exchange x =
     (if x = 0 then invoke (act (\<lambda>h. setVerbosity (getVerbosity h - 1) h)) else give ())"

fun trng_rounds ::
  "('w, 'e, 'd) rig \<Rightarrow> trng_protos \<Rightarrow> nat \<Rightarrow> nat \<Rightarrow> nat list \<Rightarrow> ('w, 'e, 'd, nat list) hproc" where
  "trng_rounds rig api x 0 counts = give counts"
| "trng_rounds rig api x (Suc n) counts =
     and_then (call_oneof rig (trng_ids api) OS 294 298 x (kTrngTest api) (trng_request api request_size)
         (kTrngTestResult api) (parse_trng_result api)) (\<lambda>random_bytes.
     and_then (ASSERT OS 306 (length random_bytes = request_size)) (\<lambda>_.
     and_then (after_exchange x) (\<lambda>_.
       trng_rounds rig api (Suc x) n (fold count_byte random_bytes counts))))"

definition log2 :: "real \<Rightarrow> real" where
  "log2 x = log 2 x"

fun kl_loop :: "real \<Rightarrow> nat list \<Rightarrow> real \<Rightarrow> ('w, real) proc" where
  "kl_loop ratio [] kl = give kl"
| "kl_loop ratio (count # counts) kl =
     and_then (ASSERT OS 321 (count \<noteq> 0)) (\<lambda>_.
       kl_loop ratio counts (kl + real count * log2 (real count * ratio)))"

definition Trng :: "('w, 'e, 'd) rig \<Rightarrow> trng_protos \<Rightarrow> ('w, 'e, 'd, unit) hproc" where
  "Trng rig api =
     (let counts = replicate 256 0 in
      and_then (act (\<lambda>h. (getVerbosity h, h))) (\<lambda>verbosity.
      and_then (trng_rounds rig api 0 repeats counts) (\<lambda>counts.
      and_then (act (setVerbosity verbosity)) (\<lambda>_.
      let ratio = real (length counts) / real (repeats * request_size) in
      and_then (kl_loop ratio counts 0) (\<lambda>kl_divergence.
        ASSERT OS 329 (kl_divergence * ratio < 15))))))"

subsection \<open>The counts\<close>

definition counts_of :: "byte list \<Rightarrow> nat list" where
  "counts_of bs = map (\<lambda>v. count_list bs (of_nat v)) [0..<256]"

lemma length_counts_of [simp]: "length (counts_of bs) = 256"
  by (simp add: counts_of_def)

lemma length_count_byte [simp]: "length (count_byte b counts) = length counts"
  by (simp add: count_byte_def)

lemma count_byte_counts: "count_byte b (counts_of bs) = counts_of (bs @ [b])"
proof (rule nth_equalityI)
  fix i assume "i < length (count_byte b (counts_of bs))"
  then have i: "i < 256" by (simp add: counts_of_def)
  then have "unat (of_nat i :: byte) = i" by (simp add: unat_of_nat)
  then have "of_nat i = b \<longleftrightarrow> i = unat b" by auto
  with i unat_byte [of b] show "count_byte b (counts_of bs) ! i = counts_of (bs @ [b]) ! i"
    by (auto simp: count_byte_def counts_of_def nth_list_update)
qed (simp add: counts_of_def)

lemma fold_count_byte: "fold count_byte bs' (counts_of bs) = counts_of (bs @ bs')"
  by (induction bs' arbitrary: bs) (simp_all add: count_byte_counts)

subsection \<open>The statistic\<close>

text \<open>The divergence of the distribution of the bytes from the uniform one, in bits.\<close>

definition divergence :: "byte list \<Rightarrow> real" where
  "divergence bs = (\<Sum>v<256. let p = real (count_list bs (of_nat v)) / real (length bs) in p * log 2 (p / (1 / 256)))"

lemma records_kl_loop [simp, records_intros]: "records (kl_loop ratio counts kl)"
  by (induction counts arbitrary: kl) (auto intro!: records_intros)

lemma passed_kl_loop:
  "passed (kl_loop ratio counts kl) h r h' \<longleftrightarrow>
   0 \<notin> set counts \<and> r = kl + (\<Sum>c\<leftarrow>counts. real c * log 2 (real c * ratio)) \<and> h' = h"
proof (induction counts arbitrary: kl)
  case Nil
  then show ?case by (auto simp: passed_simps)
next
  case (Cons c counts)
  have "passed (kl_loop ratio (c # counts) kl) h r h' \<longleftrightarrow>
      c \<noteq> 0 \<and> passed (kl_loop ratio counts (kl + real c * log2 (real c * ratio))) h r h'"
    by (auto simp: passed_simps)
  then show ?case unfolding Cons by (auto simp: log2_def add.assoc)
qed

lemma statistic_is_divergence:
  assumes "length bs = 4750"
  shows "(\<Sum>c\<leftarrow>counts_of bs. real c * log 2 (real c * (256 / 4750))) * (256 / 4750) = 256 * divergence bs"
proof -
  let ?c = "\<lambda>v. real (count_list bs (of_nat v))"
  have "(\<Sum>c\<leftarrow>counts_of bs. real c * log 2 (real c * (256 / 4750))) = (\<Sum>v<256. ?c v * log 2 (?c v * (256 / 4750)))"
    by (simp add: counts_of_def comp_def interv_sum_list_conv_sum_set_nat atLeast0LessThan)
  then have "(\<Sum>c\<leftarrow>counts_of bs. real c * log 2 (real c * (256 / 4750))) * (256 / 4750) =
      (\<Sum>v<256. ?c v * log 2 (?c v * (256 / 4750)) * (256 / 4750))"
    by (simp only: sum_distrib_right)
  also have "\<dots> = (\<Sum>v<256. 256 * (?c v / 4750 * log 2 (?c v / 4750 / (1 / 256))))"
    by (intro sum.cong refl) (simp add: field_simps)
  also have "\<dots> = 256 * divergence bs"
    using assms by (simp only: sum_distrib_left [symmetric] divergence_def Let_def) simp
  finally show ?thesis .
qed

text \<open>It is zero at least, as \<open>ln x \<le> x - 1\<close>.\<close>

lemma sum_counts: "(\<Sum>v<256. count_list bs (of_nat v :: byte)) = length bs"
proof (induction bs)
  case (Cons b bs)
  have "of_nat v = b \<longleftrightarrow> v = unat b" if "v < 256" for v
  proof -
    have "unat (of_nat v :: byte) = v" using that by (simp add: unat_of_nat)
    then show ?thesis by auto
  qed
  then have "(\<Sum>v<256. if of_nat v = b then 1 else 0 :: nat) = (\<Sum>v<256. if v = unat b then 1 else 0)"
    by (intro sum.cong) auto
  also have "\<dots> = 1" using unat_byte [of b] by simp
  finally have one: "(\<Sum>v<256. if of_nat v = b then 1 else 0 :: nat) = 1" .
  have "(\<Sum>v<256. count_list (b # bs) (of_nat v)) =
      (\<Sum>v<256. count_list bs (of_nat v) + (if of_nat v = b then 1 else 0))"
    by (intro sum.cong) auto
  with Cons one show ?case by (simp add: sum.distrib)
qed simp

lemma log_term:
  assumes "0 \<le> (p :: real)"
  shows "(p - 1 / 256) / ln 2 \<le> p * log 2 (p / (1 / 256))"
proof (cases "p = 0")
  case False
  with assms have p: "0 < p" by simp
  have "ln ((1 / 256) / p) \<le> (1 / 256) / p - 1" using p by (intro ln_le_minus_one) simp
  then have "p * ln ((1 / 256) / p) \<le> p * ((1 / 256) / p - 1)" using p by (intro mult_left_mono) auto
  moreover have "p * ((1 / 256) / p - 1) = 1 / 256 - p" using p by (simp add: field_simps)
  moreover have "ln ((1 / 256) / p) = - ln (p / (1 / 256))"
    using p ln_inverse [of "p / (1 / 256)"] by (simp add: inverse_eq_divide mult.commute)
  ultimately have "p - 1 / 256 \<le> p * ln (p / (1 / 256))" by simp
  then have "(p - 1 / 256) / ln 2 \<le> p * ln (p / (1 / 256)) / ln 2" by (intro divide_right_mono) auto
  then show ?thesis by (simp add: log_def)
qed simp

lemma divergence_nonneg:
  assumes "bs \<noteq> []"
  shows "0 \<le> divergence bs"
proof -
  let ?p = "\<lambda>v. real (count_list bs (of_nat v)) / real (length bs)"
  have total: "(\<Sum>v<256. real (count_list bs (of_nat v))) = real (length bs)"
    using sum_counts [of bs] by (metis of_nat_sum)
  have one: "(\<Sum>v<256. ?p v) = 1"
    unfolding sum_divide_distrib [symmetric] total using assms by simp
  have "(\<Sum>v<256. ?p v - 1 / 256) = 0" unfolding sum_subtractf one by simp
  then have "0 = (\<Sum>v<256. ?p v - 1 / 256) / ln 2" by simp
  also have "\<dots> = (\<Sum>v<256. (?p v - 1 / 256) / ln 2)" by (rule sum_divide_distrib)
  also have "\<dots> \<le> divergence bs"
    unfolding divergence_def Let_def by (intro sum_mono log_term) simp
  finally show ?thesis .
qed

subsection \<open>What the verdict means\<close>

text \<open>The harness after round \<open>x\<close>.\<close>

definition lowered :: "nat \<Rightarrow> ('w, 'e, 'd) harness \<Rightarrow> ('w, 'e, 'd) harness" where
  "lowered x h = (if x = 0 then h\<lparr>verbosity := verbosity h - 1\<rparr> else h)"

text \<open>The chip answers ten requests with 475 bytes each; \<open>bs\<close> is all of them.\<close>

fun trng_answers ::
  "('w, 'e, 'd) rig \<Rightarrow> trng_protos \<Rightarrow> nat \<Rightarrow> nat \<Rightarrow> ('w, 'e, 'd) harness \<Rightarrow> byte list \<Rightarrow> ('w, 'e, 'd) harness \<Rightarrow> bool" where
  "trng_answers rig api x 0 h bs h' \<longleftrightarrow> bs = [] \<and> h' = h"
| "trng_answers rig api x (Suc n) h bs h' \<longleftrightarrow>
     (\<exists>b h1 rest.
        answered rig (trng_ids api) 294 298 x (kTrngTest api) (trng_request api request_size)
          (kTrngTestResult api) (parse_trng_result api) h b h1 \<and>
        length b = request_size \<and> bs = b @ rest \<and>
        trng_answers rig api (Suc x) n (lowered x h1) rest h')"

lemma trng_answers_length: "trng_answers rig api x n h bs h' \<Longrightarrow> length bs = n * request_size"
  by (induction n arbitrary: x h bs) auto

lemma records_after_exchange [simp, records_intros]: "records (after_exchange x)"
  by (auto simp: after_exchange_def intro!: records_intros)

lemma passed_after_exchange:
  "passed (after_exchange x) h u h' \<longleftrightarrow> h' = lowered x h"
  by (auto simp: after_exchange_def passed_simps setVerbosity_def getVerbosity_def lowered_def)

lemma records_trng_rounds [simp, records_intros]: "records (trng_rounds rig api x n counts)"
  by (induction n arbitrary: x counts) (auto intro!: records_intros)

lemma records_Trng [simp, records_intros]: "records (Trng rig api)"
  by (auto simp: Trng_def Let_def intro!: records_intros)

lemma passed_trng_rounds:
  "passed (trng_rounds rig api x n (counts_of bs0)) h counts h' \<longleftrightarrow>
   (\<exists>bs. trng_answers rig api x n h bs h' \<and> counts = counts_of (bs0 @ bs))"
proof (induction n arbitrary: x bs0 h)
  case 0
  then show ?case by (auto simp: passed_simps)
next
  case (Suc n)
  have "passed (trng_rounds rig api x (Suc n) (counts_of bs0)) h counts h' \<longleftrightarrow>
      (\<exists>b h1. answered rig (trng_ids api) 294 298 x (kTrngTest api) (trng_request api request_size)
          (kTrngTestResult api) (parse_trng_result api) h b h1 \<and> length b = request_size \<and>
        passed (trng_rounds rig api (Suc x) n (counts_of (bs0 @ b)))
          (lowered x h1) counts h')"
    by (simp add: passed_simps passed_after_exchange fold_count_byte)
  then show ?case unfolding Suc by auto
qed

lemma counts_nonzero: "0 \<notin> set (counts_of bs) \<longleftrightarrow> (\<forall>v. v \<in> set bs)"
proof -
  have "0 \<in> set (counts_of bs) \<longleftrightarrow> (\<exists>i < 256. (of_nat i :: byte) \<notin> set bs)"
    by (force simp: counts_of_def count_list_0_iff)
  moreover have "(\<exists>i < 256. (of_nat i :: byte) \<notin> set bs) \<longleftrightarrow> (\<exists>v. v \<notin> set bs)"
    using unat_byte by (metis of_nat_unat ucast_id)
  ultimately show ?thesis by simp
qed

definition statistic :: "nat list \<Rightarrow> real" where
  "statistic counts =
     (let ratio = real (length counts) / real (repeats * request_size)
      in (\<Sum>c\<leftarrow>counts. real c * log 2 (real c * ratio)) * ratio)"

lemma completes_Trng:
  "completes (Trng rig api) h () \<longleftrightarrow>
   (\<exists>counts. (\<exists>h'. passed (trng_rounds rig api 0 repeats (replicate 256 0)) h counts h') \<and>
      0 \<notin> set counts \<and> statistic counts < 15)"
  by (auto simp: Trng_def Let_def passed_simps passed_kl_loop statistic_def)

lemma verdict_on_bytes:
  assumes "trng_answers rig api 0 repeats h bs h'"
  shows "0 \<notin> set (counts_of bs) \<and> statistic (counts_of bs) < 15 \<longleftrightarrow>
      length bs = 4750 \<and> (\<forall>v. v \<in> set bs) \<and> 0 \<le> divergence bs \<and> divergence bs < 15 / 256"
proof -
  have len: "length bs = 4750" using trng_answers_length [OF assms] by simp
  then have "0 \<le> divergence bs" by (intro divergence_nonneg) auto
  moreover have "statistic (counts_of bs) = 256 * divergence bs"
    using statistic_is_divergence [OF len] by (simp add: statistic_def Let_def)
  ultimately show ?thesis unfolding counts_nonzero using len by auto
qed

text \<open>C33: the test of the random number generator passes exactly when the chip answers all ten
  requests with as many bytes as asked for, every byte value occurs among the 4750 bytes, and the
  divergence of their distribution from the uniform one is less than 15/256 bits: what the code
  computes and prints as the divergence is 256 times it. It is never negative.\<close>

theorem Trng_verdict:
  "passes (Trng rig api) h \<longleftrightarrow>
   (\<exists>bs h'. trng_answers rig api 0 repeats h bs h' \<and> length bs = 4750 \<and> (\<forall>v. v \<in> set bs) \<and>
      0 \<le> divergence bs \<and> divergence bs < 15 / 256)"
proof -
  have start: "replicate 256 0 = counts_of []" by (simp add: counts_of_def map_replicate_const)
  have "passes (Trng rig api) h \<longleftrightarrow>
      (\<exists>bs h'. trng_answers rig api 0 repeats h bs h' \<and> 0 \<notin> set (counts_of bs) \<and> statistic (counts_of bs) < 15)"
    unfolding passes_completes [OF records_Trng] completes_Trng start passed_trng_rounds by auto
  also have "\<dots> \<longleftrightarrow> (\<exists>bs h'. trng_answers rig api 0 repeats h bs h' \<and> length bs = 4750 \<and> (\<forall>v. v \<in> set bs) \<and>
      0 \<le> divergence bs \<and> divergence bs < 15 / 256)"
    using verdict_on_bytes by blast
  finally show ?thesis .
qed

end
