(* ===== verification/Cmac.thy ===== *)
theory Cmac
  imports OsTests
begin

text \<open>
  \<open>src/aes-cmac-tests.cc\<close> with its data, \<open>src/test-data/dcrypto/aes-cmac-rfc4493.h\<close>: the
  chip's CMAC of four messages is compared with the published ones.
\<close>

abbreviation CMAC_TESTS :: string where "CMAC_TESTS \<equiv> ''aes-cmac-tests.cc''"

subsection \<open>The data\<close>

record cmac_data =
  cmac_K :: "byte list"
  cmac_M :: "byte list"
  cmac_M_len :: nat
  cmac_CMAC :: "byte list"

text \<open>The message array has 64 bytes, those that are not given are zero.\<close>

definition pad_M :: "byte list \<Rightarrow> byte list" where
  "pad_M bs = bs @ zeros (64 - length bs)"

definition RFC4493_AES_CMAC_DATA :: "cmac_data list" where
  "RFC4493_AES_CMAC_DATA =
    [\<lparr>cmac_K = [0x2b, 0x7e, 0x15, 0x16, 0x28, 0xae, 0xd2, 0xa6, 0xab, 0xf7, 0x15, 0x88,
              0x09, 0xcf, 0x4f, 0x3c],
      cmac_M = pad_M [],
      cmac_M_len = 0,
      cmac_CMAC = [0xbb, 0x1d, 0x69, 0x29, 0xe9, 0x59, 0x37, 0x28, 0x7f, 0xa3, 0x7d, 0x12,
                 0x9b, 0x75, 0x67, 0x46]\<rparr>,
     \<lparr>cmac_K = [0x2b, 0x7e, 0x15, 0x16, 0x28, 0xae, 0xd2, 0xa6, 0xab, 0xf7, 0x15, 0x88,
              0x09, 0xcf, 0x4f, 0x3c],
      cmac_M = pad_M [0x6b, 0xc1, 0xbe, 0xe2, 0x2e, 0x40, 0x9f, 0x96, 0xe9, 0x3d, 0x7e, 0x11,
                    0x73, 0x93, 0x17, 0x2a],
      cmac_M_len = 16,
      cmac_CMAC = [0x07, 0x0a, 0x16, 0xb4, 0x6b, 0x4d, 0x41, 0x44, 0xf7, 0x9b, 0xdd, 0x9d,
                 0xd0, 0x4a, 0x28, 0x7c]\<rparr>,
     \<lparr>cmac_K = [0x2b, 0x7e, 0x15, 0x16, 0x28, 0xae, 0xd2, 0xa6, 0xab, 0xf7, 0x15, 0x88,
              0x09, 0xcf, 0x4f, 0x3c],
      cmac_M = pad_M [0x6b, 0xc1, 0xbe, 0xe2, 0x2e, 0x40, 0x9f, 0x96, 0xe9, 0x3d, 0x7e, 0x11,
                    0x73, 0x93, 0x17, 0x2a, 0xae, 0x2d, 0x8a, 0x57, 0x1e, 0x03, 0xac, 0x9c,
                    0x9e, 0xb7, 0x6f, 0xac, 0x45, 0xaf, 0x8e, 0x51, 0x30, 0xc8, 0x1c, 0x46,
                    0xa3, 0x5c, 0xe4, 0x11],
      cmac_M_len = 40,
      cmac_CMAC = [0xdf, 0xa6, 0x67, 0x47, 0xde, 0x9a, 0xe6, 0x30, 0x30, 0xca, 0x32, 0x61,
                 0x14, 0x97, 0xc8, 0x27]\<rparr>,
     \<lparr>cmac_K = [0x2b, 0x7e, 0x15, 0x16, 0x28, 0xae, 0xd2, 0xa6, 0xab, 0xf7, 0x15, 0x88,
              0x09, 0xcf, 0x4f, 0x3c],
      cmac_M = pad_M [0x6b, 0xc1, 0xbe, 0xe2, 0x2e, 0x40, 0x9f, 0x96, 0xe9, 0x3d, 0x7e, 0x11,
                    0x73, 0x93, 0x17, 0x2a, 0xae, 0x2d, 0x8a, 0x57, 0x1e, 0x03, 0xac, 0x9c,
                    0x9e, 0xb7, 0x6f, 0xac, 0x45, 0xaf, 0x8e, 0x51, 0x30, 0xc8, 0x1c, 0x46,
                    0xa3, 0x5c, 0xe4, 0x11, 0xe5, 0xfb, 0xc1, 0x19, 0x1a, 0x0a, 0x52, 0xef,
                    0xf6, 0x9f, 0x24, 0x45, 0xdf, 0x4f, 0x9b, 0x17, 0xad, 0x2b, 0x41, 0x7b,
                    0xe6, 0x6c, 0x37, 0x10],
      cmac_M_len = 64,
      cmac_CMAC = [0x51, 0xf0, 0xbe, 0xbf, 0x7e, 0x3b, 0x9d, 0x92, 0xfc, 0x49, 0x74, 0x17,
                 0x79, 0x36, 0x3c, 0xfe]\<rparr>]"

subsection \<open>The test\<close>

record cmac_result =
  cmac_code :: int
  cmac :: "byte list"

text \<open>\<open>cmac_request\<close> is the serialized request for a key and, where it is set, a text.\<close>

record cmac_protos =
  cmac_ids :: message_ids
  kAesCmacTest :: u16
  kAesCmacTestResult :: u16
  cmac_request :: "byte list \<Rightarrow> byte list option \<Rightarrow> pb_message"
  parse_cmac_result :: "int \<Rightarrow> byte list \<Rightarrow> cmac_result option"
  cmac_NO_ERROR :: int

definition Cmac_SetUpTestCase ::
  "os \<Rightarrow> ('w, 'e, 'd) rig \<Rightarrow> string list option \<Rightarrow> ('w, 'e, 'd, unit) hproc" where
  "Cmac_SetUpTestCase sys rig dir =
     attempt (\<lambda>h. bind_res (TestHarness sys (rig_ops rig) (rig_cfg rig) dir h) (\<lambda>h. Inr ((), h)))"

definition Cmac_TearDownTestCase :: "('w, 'e, 'd) rig \<Rightarrow> ('w, 'e, 'd, unit) hproc" where
  "Cmac_TearDownTestCase rig = act (\<lambda>h. ((), destruct (rig_env rig) (rig_cfg rig) h))"

text \<open>The result's CMAC is indexed without a look at its size; a string may be read at its size,
  where it has a zero, but not past it.\<close>

definition check_cmac :: "cmac_protos \<Rightarrow> cmac_data \<Rightarrow> cmac_result \<Rightarrow> ('w, unit) proc" where
  "check_cmac api test_case result =
     and_then (EXPECT CMAC_TESTS 99 (cmac_code result = cmac_NO_ERROR api)) (\<lambda>_.
       for_each [0..<length (cmac_CMAC test_case)] (\<lambda>j.
         check_at CMAC_TESTS 104 (j \<le> length (cmac result)) ((cmac result @ [0]) ! j = cmac_CMAC test_case ! j)))"

definition request_of :: "cmac_protos \<Rightarrow> cmac_data \<Rightarrow> pb_message" where
  "request_of api test_case = cmac_request api (cmac_K test_case)
     (if 0 < cmac_M_len test_case then Some (take (cmac_M_len test_case) (cmac_M test_case)) else None)"

fun cmac_rounds ::
  "('w, 'e, 'd) rig \<Rightarrow> cmac_protos \<Rightarrow> nat \<Rightarrow> cmac_data list \<Rightarrow> ('w, 'e, 'd, unit) hproc" where
  "cmac_rounds rig api i [] = give ()"
| "cmac_rounds rig api i (test_case # cs) =
     and_then (in_bounds (cmac_M_len test_case \<le> length (cmac_M test_case))) (\<lambda>_.
     and_then (call_oneof rig (cmac_ids api) CMAC_TESTS 86 91 i (kAesCmacTest api) (request_of api test_case)
         (kAesCmacTestResult api) (parse_cmac_result api)) (\<lambda>result.
     and_then (check_cmac api test_case result) (\<lambda>_.
       cmac_rounds rig api (Suc i) cs)))"

definition AesCmacRfc4493Test :: "('w, 'e, 'd) rig \<Rightarrow> cmac_protos \<Rightarrow> ('w, 'e, 'd, unit) hproc" where
  "AesCmacRfc4493Test rig api =
     and_then (act (\<lambda>h. (getVerbosity h, h))) (\<lambda>verbosity.
     and_then (act (setVerbosity (verbosity - 1))) (\<lambda>_.
     and_then (cmac_rounds rig api 0 RFC4493_AES_CMAC_DATA) (\<lambda>_.
     and_then (act (setVerbosity verbosity)) (\<lambda>_. give ()))))"

subsection \<open>What the verdict means\<close>

definition cmac_wf :: "cmac_data \<Rightarrow> bool" where
  "cmac_wf c \<longleftrightarrow> length (cmac_K c) = 16 \<and> length (cmac_M c) = 64 \<and> cmac_M_len c \<le> 64 \<and>
     length (cmac_CMAC c) = 16 \<and> 0 \<notin> set (cmac_CMAC c)"

lemma RFC4493_wf: "list_all cmac_wf RFC4493_AES_CMAC_DATA"
  by (simp add: RFC4493_AES_CMAC_DATA_def cmac_wf_def pad_M_def)

definition cmac_right :: "cmac_protos \<Rightarrow> cmac_data \<Rightarrow> cmac_result \<Rightarrow> bool" where
  "cmac_right api c result \<longleftrightarrow> cmac_code result = cmac_NO_ERROR api \<and> take 16 (cmac result) = cmac_CMAC c"

fun cmac_answers ::
  "('w, 'e, 'd) rig \<Rightarrow> cmac_protos \<Rightarrow> nat \<Rightarrow> cmac_data list \<Rightarrow> ('w, 'e, 'd) harness \<Rightarrow> bool" where
  "cmac_answers rig api i [] h \<longleftrightarrow> True"
| "cmac_answers rig api i (c # cs) h \<longleftrightarrow>
     (\<exists>result h'. answered rig (cmac_ids api) 86 91 i (kAesCmacTest api) (request_of api c)
         (kAesCmacTestResult api) (parse_cmac_result api) h result h' \<and>
        cmac_right api c result \<and> cmac_answers rig api (Suc i) cs h')"

lemma records_cmac [simp, records_intros]:
  "records (check_cmac api c result)" "records (AesCmacRfc4493Test rig api)"
proof -
  show check: "records (check_cmac api c result)" for c result
    by (auto simp: check_cmac_def intro!: records_intros)
  have "records (cmac_rounds rig api i cs)" for i cs
    by (induction cs arbitrary: i) (auto intro!: records_intros check)
  then show "records (AesCmacRfc4493Test rig api)"
    by (auto simp: AesCmacRfc4493Test_def intro!: records_intros)
qed

lemma records_cmac_rounds [simp, records_intros]: "records (cmac_rounds rig api i cs)"
  by (induction cs arbitrary: i) (auto intro!: records_intros)

text \<open>As no published CMAC has a zero byte, a short result differs at its end at the latest.\<close>

lemma compared_to_end:
  assumes "0 \<notin> set out" "length out = n"
  shows "(\<forall>j \<in> set [0..<n]. j \<le> length bs \<and> (bs @ [0]) ! j = out ! j) \<longleftrightarrow> take n bs = out"
proof
  assume same: "\<forall>j \<in> set [0..<n]. j \<le> length bs \<and> (bs @ [0]) ! j = out ! j"
  have "n \<le> length bs"
  proof (rule ccontr)
    assume "\<not> n \<le> length bs"
    then have "length bs < n" by simp
    moreover from this have "length bs \<in> set [0..<n]" by simp
    ultimately have "out ! length bs = 0" using same by (metis nth_append_length)
    with \<open>length bs < n\<close> assms show False by (metis nth_mem)
  qed
  moreover from same this have "bs ! j = out ! j" if "j < n" for j
    using that by (fastforce simp: nth_append)
  ultimately show "take n bs = out" using assms(2) by (intro nth_equalityI) auto
next
  assume out: "take n bs = out"
  then have "n \<le> length bs" using assms(2) by (metis length_take min.cobounded1)
  then show "\<forall>j \<in> set [0..<n]. j \<le> length bs \<and> (bs @ [0]) ! j = out ! j"
    by (auto simp: out [symmetric] nth_append)
qed

lemma passed_check_cmac:
  assumes "cmac_wf c"
  shows "passed (check_cmac api c result) w u w' \<longleftrightarrow> cmac_right api c result \<and> w' = w"
proof -
  have c: "0 \<notin> set (cmac_CMAC c)" "length (cmac_CMAC c) = 16" using assms by (auto simp: cmac_wf_def)
  have "passed (check_cmac api c result) w u w' \<longleftrightarrow> cmac_code result = cmac_NO_ERROR api \<and>
      (\<forall>j \<in> set [0..<16]. j \<le> length (cmac result) \<and> (cmac result @ [0]) ! j = cmac_CMAC c ! j) \<and> w' = w"
    by (simp add: check_cmac_def passed_simps c(2) del: set_upt)
  then show ?thesis unfolding compared_to_end [OF c] by (auto simp: cmac_right_def)
qed

lemma compared_returns:
  assumes "0 \<notin> set out"
  shows "i \<le> length bs \<Longrightarrow>
    returns (for_each [i..<length out] (\<lambda>j. check_at file line (j \<le> length bs) ((bs @ [0]) ! j = out ! j)) s)"
proof (induction "length out - i" arbitrary: i)
  case 0
  then show ?case by (simp add: for_each_def give_def)
next
  case (Suc n)
  then have i: "i < length out" and split: "[i..<length out] = i # [Suc i..<length out]"
    by (simp_all add: upt_conv_Cons)
  show ?case
  proof (cases "(bs @ [0]) ! i = out ! i")
    case True
    have "i \<noteq> length bs" using True i assms by (metis nth_append_length nth_mem)
    with Suc.prems have "Suc i \<le> length bs" by simp
    with Suc.hyps have "returns (for_each [Suc i..<length out]
        (\<lambda>j. check_at file line (j \<le> length bs) ((bs @ [0]) ! j = out ! j)) s)" by simp
    with True Suc.prems split show ?thesis
      by (simp add: for_each_def and_then_def check_at_def in_bounds_def ASSERT_def)
  next
    case False
    with Suc.prems split show ?thesis
      by (simp add: for_each_def and_then_def check_at_def in_bounds_def ASSERT_def)
  qed
qed

lemma check_cmac_returns:
  assumes "cmac_wf c"
  shows "returns (check_cmac api c result s)"
proof -
  have "0 \<notin> set (cmac_CMAC c)" using assms by (simp add: cmac_wf_def)
  then show ?thesis by (simp add: check_cmac_def and_then_def EXPECT_def compared_returns)
qed

lemma completes_cmac_rounds:
  "list_all cmac_wf cs \<Longrightarrow> completes (cmac_rounds rig api i cs) h () \<longleftrightarrow> cmac_answers rig api i cs h"
proof (induction cs arbitrary: i h)
  case (Cons c cs)
  then have c: "cmac_wf c" and IH: "completes (cmac_rounds rig api i cs) h () \<longleftrightarrow> cmac_answers rig api i cs h" for i h
    by simp_all
  from c have "cmac_M_len c \<le> length (cmac_M c)" by (simp add: cmac_wf_def)
  then show ?case by (simp add: passed_simps passed_check_cmac [OF c] IH)
qed (simp add: passed_simps)

text \<open>C34: the CMAC test passes exactly when the chip answers the request for each of the four
  published cases in turn without an error and with a result whose first 16 bytes are the published
  CMAC. The keys are of 128 bits, and though the test never looks at the size of a result, no result,
  however short, is read past its end.\<close>

theorem Cmac_verdict:
  "(passes (AesCmacRfc4493Test rig api) h \<longleftrightarrow>
     cmac_answers rig api 0 RFC4493_AES_CMAC_DATA (snd (setVerbosity (getVerbosity h - 1) h))) \<and>
   list_all (\<lambda>c. 8 * length (cmac_K c) = 128 \<and> (\<forall>result s. returns (check_cmac api c result s)))
     RFC4493_AES_CMAC_DATA"
proof
  have "completes (AesCmacRfc4493Test rig api) h () \<longleftrightarrow>
      completes (cmac_rounds rig api 0 RFC4493_AES_CMAC_DATA) (snd (setVerbosity (getVerbosity h - 1) h)) ()"
    by (auto simp: AesCmacRfc4493Test_def passed_simps setVerbosity_def completes_def)
  then show "passes (AesCmacRfc4493Test rig api) h \<longleftrightarrow>
     cmac_answers rig api 0 RFC4493_AES_CMAC_DATA (snd (setVerbosity (getVerbosity h - 1) h))"
    unfolding passes_completes [OF records_cmac(2)] completes_cmac_rounds [OF RFC4493_wf] .
  show "list_all (\<lambda>c. 8 * length (cmac_K c) = 128 \<and> (\<forall>result s. returns (check_cmac api c result s)))
     RFC4493_AES_CMAC_DATA"
    using RFC4493_wf by (rule list.pred_mono_strong) (auto simp: check_cmac_returns cmac_wf_def)
qed

end
