(* ===== verification/Cavp.thy ===== *)
theory Cavp
  imports OsTests
begin

text \<open>
  \<open>src/cavptests.cc\<close>: the chip's AES-GCM encryption against the published test cases. The table
  of cases (\<open>src/test-data/NIST-CAVP/aes-gcm-cavp.h\<close>, which a script generates) is an argument of
  the test; its structure is modelled, with the arrays as words at their full lengths.
\<close>

abbreviation CAVP :: string where "CAVP \<equiv> ''cavptests.cc''"

subsection \<open>The data\<close>

record gcm_data =
  gcm_key :: "u32 list"
  gcm_key_len :: u32
  gcm_IV :: "u32 list"
  gcm_IV_len :: u32
  gcm_PT :: "u32 list"
  gcm_PT_len :: u32
  gcm_CT :: "u32 list"
  gcm_AAD :: "u32 list"
  gcm_AAD_len :: u32
  gcm_tag :: "u32 list"
  gcm_tag_len :: u32

text \<open>An array of words as the bytes that a cast pointer reads, and a length in bits as bytes.\<close>

definition bytes_of_words :: "u32 list \<Rightarrow> byte list" where
  "bytes_of_words ws = concat (map le32 ws)"

definition bytes_in :: "u32 \<Rightarrow> nat" where
  "bytes_in bits = unat (bits div 8)"

lemma length_bytes_of_words [simp]: "length (bytes_of_words ws) = 4 * length ws"
  by (induction ws) (simp_all add: bytes_of_words_def)

subsection \<open>The test\<close>

record gcm_result =
  gcm_code :: int
  gcm_cipher_text :: "byte list"
  gcm_result_tag :: "byte list"

text \<open>\<open>gcm_request\<close> serializes a key, a vector, a text, additional data and the length of the
  tag.\<close>

record gcm_protos =
  gcm_ids :: message_ids
  kAesGcmEncryptTest :: u16
  kAesGcmEncryptTestResult :: u16
  gcm_request :: "byte list \<Rightarrow> byte list \<Rightarrow> byte list \<Rightarrow> byte list \<Rightarrow> nat \<Rightarrow> pb_message"
  parse_gcm_result :: "int \<Rightarrow> byte list \<Rightarrow> gcm_result option"
  gcm_NO_ERROR :: int

definition Cavp_SetUpTestCase ::
  "os \<Rightarrow> ('w, 'e, 'd) rig \<Rightarrow> string list option \<Rightarrow> ('w, 'e, 'd, unit) hproc" where
  "Cavp_SetUpTestCase sys rig dir =
     (let cfg = rig_cfg rig in block
       [attempt (\<lambda>h. bind_res (TestHarness sys (rig_ops rig) cfg dir h) (\<lambda>h. Inr ((), h))),
        if UsingSpi cfg then give ()
        else block
          [and_then (attempt (SwitchFromConsoleToProtoApi cfg)) (EXPECT CAVP 64),
           and_then (act (\<lambda>h. (ttyState h, h))) (EXPECT CAVP 65)]])"

definition read_until :: "('w, 'e, 'd) rig \<Rightarrow> ('w, 'e, 'd, unit) hproc" where
  "read_until rig = invoke (attempt (ReadUntil (rig_cfg rig) (BYTE_TIME * 1024)))"

definition Cavp_TearDownTestCase ::
  "('w, 'e, 'd) rig \<Rightarrow> switch_api \<Rightarrow> ('w, 'e, 'd, unit) hproc" where
  "Cavp_TearDownTestCase rig api =
     (let cfg = rig_cfg rig in block
       [read_until rig,
        if UsingSpi cfg then give ()
        else and_then (attempt (\<lambda>h. bind_res
               (SwitchFromProtoApiToConsole (rig_ops rig) api cfg (uninitialized rig 72 0) None h)
               (\<lambda>(b, _, h). Inr (b, h))))
             (EXPECT CAVP 72),
        act (\<lambda>h. ((), destruct (rig_env rig) cfg h))])"

text \<open>The serialized request reads the arrays up to the given lengths.\<close>

definition in_arrays :: "gcm_data \<Rightarrow> bool" where
  "in_arrays c \<longleftrightarrow>
     bytes_in (gcm_key_len c) \<le> 4 * length (gcm_key c) \<and> bytes_in (gcm_IV_len c) \<le> 4 * length (gcm_IV c) \<and>
     bytes_in (gcm_PT_len c) \<le> 4 * length (gcm_PT c) \<and> bytes_in (gcm_AAD_len c) \<le> 4 * length (gcm_AAD c)"

definition array :: "u32 list \<Rightarrow> u32 \<Rightarrow> byte list" where
  "array ws bits = take (bytes_in bits) (bytes_of_words ws)"

definition gcm_request_of :: "gcm_protos \<Rightarrow> gcm_data \<Rightarrow> pb_message" where
  "gcm_request_of api c = gcm_request api (array (gcm_key c) (gcm_key_len c)) (array (gcm_IV c) (gcm_IV_len c))
     (array (gcm_PT c) (gcm_PT_len c)) (array (gcm_AAD c) (gcm_AAD_len c)) (bytes_in (gcm_tag_len c))"

text \<open>A part of the result is compared with an array, after its size; the first of the code's two
  loops over the array, which prints it, reads it too.\<close>

definition compare_with ::
  "nat \<Rightarrow> nat \<Rightarrow> byte list \<Rightarrow> u32 list \<Rightarrow> u32 \<Rightarrow> ('w, unit) proc" where
  "compare_with size_line line part ws bits =
     and_then (ASSERT CAVP size_line (length part = bytes_in bits)) (\<lambda>_.
     and_then (in_bounds (bytes_in bits \<le> 4 * length ws)) (\<lambda>_.
       for_each [0..<bytes_in bits] (\<lambda>j.
         check_at CAVP line (j < length part \<and> j < length (bytes_of_words ws)) (part ! j = bytes_of_words ws ! j))))"

definition check_gcm :: "gcm_protos \<Rightarrow> gcm_data \<Rightarrow> gcm_result \<Rightarrow> ('w, unit) proc" where
  "check_gcm api c result =
     and_then (EXPECT CAVP 121 (gcm_code result = gcm_NO_ERROR api)) (\<lambda>_.
     and_then (compare_with 125 136 (gcm_cipher_text result) (gcm_CT c) (gcm_PT_len c)) (\<lambda>_.
       compare_with 144 155 (gcm_result_tag result) (gcm_tag c) (gcm_tag_len c)))"

definition gcm_round ::
  "('w, 'e, 'd) rig \<Rightarrow> gcm_protos \<Rightarrow> gcm_data list \<Rightarrow> nat \<Rightarrow> ('w, 'e, 'd, unit) hproc" where
  "gcm_round rig api data i =
     and_then (in_bounds (i < length data)) (\<lambda>_.
     and_then (in_bounds (in_arrays (data ! i))) (\<lambda>_.
     and_then (call_oneof rig (gcm_ids api) CAVP 108 113 i (kAesGcmEncryptTest api) (gcm_request_of api (data ! i))
         (kAesGcmEncryptTestResult api) (parse_gcm_result api))
       (check_gcm api (data ! i))))"

text \<open>The indices that the loop runs over: all, or, when the flag is not -1, from the flag as a
  \<open>size_t\<close> to below its successor; the successor is computed in 32 bits.\<close>

definition gcm_indices :: "int \<Rightarrow> nat \<Rightarrow> fault + nat list" where
  "gcm_indices test_input_number count =
     (if test_input_number = -1 then Inr [0..<count]
      else if test_input_number = 2 ^ 31 - 1 then Inl Int_overflow
      else Inr [unat (word_of_int test_input_number :: u64)..<unat (word_of_int (test_input_number + 1) :: u64)])"

definition AesGcm ::
  "('w, 'e, 'd) rig \<Rightarrow> gcm_protos \<Rightarrow> gcm_data list \<Rightarrow> int \<Rightarrow> ('w, 'e, 'd, unit) hproc" where
  "AesGcm rig api data test_input_number =
     and_then (act (\<lambda>h. (getVerbosity h, h))) (\<lambda>verbosity.
     and_then (act (setVerbosity (verbosity - 1))) (\<lambda>_.
     and_then (read_until rig) (\<lambda>_.
     and_then (attempt (\<lambda>h. bind_res (gcm_indices test_input_number (length data)) (\<lambda>is. Inr (is, h)))) (\<lambda>indices.
     and_then (for_each indices (gcm_round rig api data)) (\<lambda>_.
     and_then (read_until rig) (\<lambda>_.
       invoke (act (setVerbosity verbosity))))))))"

subsection \<open>What the verdict means\<close>

definition gcm_right :: "gcm_protos \<Rightarrow> gcm_data \<Rightarrow> gcm_result \<Rightarrow> bool" where
  "gcm_right api c result \<longleftrightarrow>
     gcm_code result = gcm_NO_ERROR api \<and> gcm_cipher_text result = array (gcm_CT c) (gcm_PT_len c) \<and>
     gcm_result_tag result = array (gcm_tag c) (gcm_tag_len c)"

text \<open>The lengths of a case fit its arrays.\<close>

definition gcm_wf :: "gcm_data \<Rightarrow> bool" where
  "gcm_wf c \<longleftrightarrow> in_arrays c \<and> bytes_in (gcm_PT_len c) \<le> 4 * length (gcm_CT c) \<and>
     bytes_in (gcm_tag_len c) \<le> 4 * length (gcm_tag c)"

fun gcm_answers ::
  "('w, 'e, 'd) rig \<Rightarrow> gcm_protos \<Rightarrow> gcm_data list \<Rightarrow> nat list \<Rightarrow> ('w, 'e, 'd) harness \<Rightarrow> ('w, 'e, 'd) harness \<Rightarrow> bool" where
  "gcm_answers rig api data [] h h' \<longleftrightarrow> h' = h"
| "gcm_answers rig api data (i # is) h h' \<longleftrightarrow> gcm_wf (data ! i) \<and>
     (\<exists>result h1. answered rig (gcm_ids api) 108 113 i (kAesGcmEncryptTest api) (gcm_request_of api (data ! i))
         (kAesGcmEncryptTestResult api) (parse_gcm_result api) h result h1 \<and>
        gcm_right api (data ! i) result \<and> gcm_answers rig api data is h1 h')"

text \<open>The harness has listened for a while.\<close>

definition listened :: "('w, 'e, 'd) rig \<Rightarrow> ('w, 'e, 'd) harness \<Rightarrow> ('w, 'e, 'd) harness \<Rightarrow> bool" where
  "listened rig h h' \<longleftrightarrow> (\<exists>bs. ReadUntil (rig_cfg rig) (BYTE_TIME * 1024) h = Inr (bs, h'))"

text \<open>The case numbers that the flag may have, and the cases that it selects.\<close>

definition selected :: "int \<Rightarrow> nat \<Rightarrow> nat list option" where
  "selected n count =
     (if n = -1 then Some [0..<count] else if 0 \<le> n \<and> n < int count then Some [nat n] else None)"

lemma records_gcm [simp, records_intros]:
  "records (read_until rig)" "records (compare_with size_line line part ws bits)"
  "records (check_gcm api c result)" "records (gcm_round rig api data i)" "records (AesGcm rig api data n)"
  by (auto simp: read_until_def compare_with_def check_gcm_def gcm_round_def AesGcm_def intro!: records_intros)

lemma passed_read_until [passed_simps]: "passed (read_until rig) h u h' \<longleftrightarrow> listened rig h h'"
  by (auto simp: read_until_def passed_simps listened_def)

lemma passed_compare_with:
  "passed (compare_with size_line line part ws bits) w u w' \<longleftrightarrow>
   bytes_in bits \<le> 4 * length ws \<and> part = array ws bits \<and> w' = w"
proof -
  have "part = array ws bits \<longleftrightarrow>
      length part = bytes_in bits \<and> (\<forall>j < bytes_in bits. part ! j = bytes_of_words ws ! j)"
    if "bytes_in bits \<le> 4 * length ws"
    using that by (auto simp: array_def list_eq_iff_nth_eq)
  then show ?thesis by (auto simp: compare_with_def passed_simps array_def)
qed

lemma passed_check_gcm:
  "passed (check_gcm api c result) w u w' \<longleftrightarrow>
   bytes_in (gcm_PT_len c) \<le> 4 * length (gcm_CT c) \<and> bytes_in (gcm_tag_len c) \<le> 4 * length (gcm_tag c) \<and>
   gcm_right api c result \<and> w' = w"
  by (auto simp: check_gcm_def passed_simps passed_compare_with gcm_right_def)

lemma passed_gcm_round:
  "passed (gcm_round rig api data i) h u h' \<longleftrightarrow>
   i < length data \<and> gcm_answers rig api data [i] h h'"
  by (auto simp: gcm_round_def passed_simps passed_check_gcm gcm_wf_def)

lemma passed_gcm_rounds:
  "passed (for_each is (gcm_round rig api data)) h u h' \<longleftrightarrow>
   (\<forall>i \<in> set is. i < length data) \<and> gcm_answers rig api data is h h'"
proof (induction "is" arbitrary: h)
  case (Cons i "is")
  have "records (for_each is (gcm_round rig api data))" by simp
  from passed_and_then [OF records_gcm(4) this] Cons show ?case
    by (auto simp: for_each_def passed_gcm_round)
qed (simp add: for_each_def passed_simps)

lemma size_t_of: "unat (word_of_int x :: u64) = nat (x mod 2 ^ 64)"
  by (simp add: uint_word_of_int flip: nat_uint_eq)

lemma gcm_indices_selected:
  assumes "count < 2 ^ 31" "- (2 ^ 31) \<le> n" "n < 2 ^ 31"
  shows "(gcm_indices n count = Inr is \<and> (\<forall>i \<in> set is. i < count)) \<longleftrightarrow> selected n count = Some is"
    and "selected n count = None \<Longrightarrow> gcm_indices n count = Inr is \<Longrightarrow> \<exists>i. is = [i] \<and> count \<le> i"
proof -
  have pos: "gcm_indices n count = Inr [nat n]" if "0 \<le> n" "n \<noteq> 2 ^ 31 - 1"
  proof -
    have "n mod 2 ^ 64 = n" "(n + 1) mod 2 ^ 64 = n + 1" using that assms by simp_all
    with that show ?thesis by (simp add: gcm_indices_def size_t_of nat_add_distrib del: of_int_add)
  qed
  have neg: "\<exists>i. gcm_indices n count = Inr [i] \<and> count \<le> i" if "n < -1"
  proof -
    let ?i = "n + 2 ^ 64"
    have "(n + 2 ^ 64) mod 2 ^ 64 = ?i" "(n + 1 + 2 ^ 64) mod 2 ^ 64 = ?i + 1"
      using that assms(2) by (simp_all add: mod_pos_pos_trivial del: mod_add_self2)
    then have "n mod 2 ^ 64 = ?i" "(n + 1) mod 2 ^ 64 = ?i + 1"
      by (simp_all only: mod_add_self2)
    then have "unat (word_of_int n :: u64) = nat ?i" "unat (word_of_int (n + 1) :: u64) = Suc (nat ?i)"
      using that assms(2) unfolding size_t_of by (simp_all add: nat_add_distrib)
    with that assms show ?thesis by (intro exI [of _ "nat ?i"]) (simp add: gcm_indices_def del: of_int_add)
  qed
  show "(gcm_indices n count = Inr is \<and> (\<forall>i \<in> set is. i < count)) \<longleftrightarrow> selected n count = Some is"
  proof (cases "n = -1")
    case True
    then show ?thesis by (auto simp: gcm_indices_def selected_def)
  next
    case False
    show ?thesis
    proof (cases "0 \<le> n")
      case True
      with pos False assms show ?thesis by (cases "n = 2 ^ 31 - 1") (auto simp: selected_def gcm_indices_def)
    next
      case negative: False
      with False neg show ?thesis by (force simp: selected_def)
    qed
  qed
  show "\<exists>i. is = [i] \<and> count \<le> i" if "selected n count = None" "gcm_indices n count = Inr is"
  proof (cases "0 \<le> n")
    case True
    with pos that assms show ?thesis by (cases "n = 2 ^ 31 - 1") (auto simp: selected_def gcm_indices_def split: if_splits)
  next
    case False
    with neg that show ?thesis by (cases "n = -1") (auto simp: selected_def)
  qed
qed

text \<open>A bad number makes the test leave the table, or overflow, as soon as it has listened.\<close>

lemma AesGcm_faults:
  assumes "length data < 2 ^ 31" "- (2 ^ 31) \<le> n" "n < 2 ^ 31" "selected n (length data) = None"
    and "listened rig (snd (setVerbosity (getVerbosity h - 1) h)) h1"
  shows "AesGcm rig api data n \<lparr>tworld = h, failed = fs\<rparr> =
    Inl (if n = 2 ^ 31 - 1 then Int_overflow else Out_of_bounds)"
proof -
  from assms(5) obtain bs where read: "ReadUntil (rig_cfg rig) (BYTE_TIME * 1024) (h\<lparr>verbosity := verbosity h - 1\<rparr>) = Inr (bs, h1)"
    by (auto simp: listened_def setVerbosity_def getVerbosity_def)
  have "AesGcm rig api data n \<lparr>tworld = h, failed = fs\<rparr> =
    bind_res (gcm_indices n (length data)) (\<lambda>is.
      and_then (for_each is (gcm_round rig api data)) (\<lambda>_.
      and_then (read_until rig) (\<lambda>_. invoke (act (setVerbosity (verbosity h))))) \<lparr>tworld = h1, failed = fs\<rparr>)"
    by (cases "gcm_indices n (length data)")
      (simp_all add: AesGcm_def and_then_def act_def attempt_def read_until_def invoke_def read setVerbosity_def getVerbosity_def)
  moreover have "and_then (for_each [i] (gcm_round rig api data)) f s = Inl Out_of_bounds"
    if "length data \<le> i" for i s and f :: "unit \<Rightarrow> ('a, 'b, 'c, unit) hproc"
    using that by (simp add: for_each_def and_then_def gcm_round_def in_bounds_def)
  moreover have "\<exists>i. gcm_indices n (length data) = Inr [i] \<and> length data \<le> i" if "n \<noteq> 2 ^ 31 - 1"
  proof (cases "gcm_indices n (length data)")
    case (Inr "is")
    from gcm_indices_selected(2) [OF assms(1-4) this] Inr show ?thesis by auto
  qed (use that in \<open>simp add: gcm_indices_def split: if_splits\<close>)
  moreover have "gcm_indices n (length data) = Inl Int_overflow" if "n = 2 ^ 31 - 1"
    using that by (simp add: gcm_indices_def)
  ultimately show ?thesis by (cases "n = 2 ^ 31 - 1") auto
qed

text \<open>C35: for a table of fewer than \<open>2 ^ 31\<close> cases and any value of the 32-bit flag, the GCM test
  passes exactly when the flag is -1 or the number of a case, and, between two times of listening,
  the chip answers the request for each of the selected cases in turn without an error and with
  exactly the expected cipher text and tag. With any other number nothing stops the test: as soon
  as it has listened the first time it accesses the table out of its bounds or, with the largest
  number, overflows.\<close>

theorem AesGcm_verdict:
  assumes "length data < 2 ^ 31" "- (2 ^ 31) \<le> n" "n < 2 ^ 31"
  shows "(passes (AesGcm rig api data n) h \<longleftrightarrow>
      (\<exists>is h1 h2 h3. selected n (length data) = Some is \<and>
         listened rig (snd (setVerbosity (getVerbosity h - 1) h)) h1 \<and>
         gcm_answers rig api data is h1 h2 \<and> listened rig h2 h3)) \<and>
    (selected n (length data) = None \<longrightarrow>
       (\<forall>h1 fs. listened rig (snd (setVerbosity (getVerbosity h - 1) h)) h1 \<longrightarrow>
          AesGcm rig api data n \<lparr>tworld = h, failed = fs\<rparr> =
            Inl (if n = 2 ^ 31 - 1 then Int_overflow else Out_of_bounds)))"
proof
  have "completes (AesGcm rig api data n) h () \<longleftrightarrow>
      (\<exists>is h1 h2 h3. (gcm_indices n (length data) = Inr is \<and> (\<forall>i \<in> set is. i < length data)) \<and>
         listened rig (snd (setVerbosity (getVerbosity h - 1) h)) h1 \<and>
         gcm_answers rig api data is h1 h2 \<and> listened rig h2 h3)"
    by (auto simp: AesGcm_def passed_simps passed_gcm_rounds bind_res_Inr_iff setVerbosity_def)
  then show "passes (AesGcm rig api data n) h \<longleftrightarrow>
      (\<exists>is h1 h2 h3. selected n (length data) = Some is \<and>
         listened rig (snd (setVerbosity (getVerbosity h - 1) h)) h1 \<and>
         gcm_answers rig api data is h1 h2 \<and> listened rig h2 h3)"
    unfolding passes_completes [OF records_gcm(5)] gcm_indices_selected(1) [OF assms] .
  show "selected n (length data) = None \<longrightarrow>
       (\<forall>h1 fs. listened rig (snd (setVerbosity (getVerbosity h - 1) h)) h1 \<longrightarrow>
          AesGcm rig api data n \<lparr>tworld = h, failed = fs\<rparr> =
            Inl (if n = 2 ^ 31 - 1 then Int_overflow else Out_of_bounds))"
    using AesGcm_faults [OF assms] by blast
qed

text \<open>Two cases, of which the second is chosen.\<close>

definition sample_gcm :: gcm_protos where
  "sample_gcm = \<lparr>
     gcm_ids = os_ids sample_protos, kAesGcmEncryptTest = 6, kAesGcmEncryptTestResult = 7,
     gcm_request = (\<lambda>k v p a n. pb_of (take 100 (of_nat n # k @ v @ p @ a))),
     parse_gcm_result = (\<lambda>n bs. Some \<lparr>gcm_code = 0, gcm_cipher_text = take 2 bs, gcm_result_tag = drop 2 bs\<rparr>),
     gcm_NO_ERROR = 0\<rparr>"

definition sample_cases :: "gcm_data list" where
  "sample_cases =
     (let c = \<lparr>gcm_key = [1, 2, 3, 4], gcm_key_len = 128, gcm_IV = [5], gcm_IV_len = 32, gcm_PT = [], gcm_PT_len = 0,
               gcm_CT = [], gcm_AAD = [], gcm_AAD_len = 0, gcm_tag = [0x04030201], gcm_tag_len = 32\<rparr>
      in [c, c\<lparr>gcm_PT := [0xbbaa], gcm_PT_len := 16, gcm_CT := [0xddcc]\<rparr>])"

theorem AesGcm_verdict_witness:
  "passes (AesGcm (spi_rig (fixed_device 5 (be16 7 @ [0xcc, 0xdd, 1, 2, 3, 4]))) sample_gcm sample_cases 1)
     (spi_harness\<lparr>tty_fd := -1\<rparr>) \<and>
   AesGcm (spi_rig (fixed_device 5 [])) sample_gcm sample_cases 2
     \<lparr>tworld = spi_harness\<lparr>tty_fd := -1\<rparr>, failed = []\<rparr> = Inl Out_of_bounds \<and>
   AesGcm (spi_rig (fixed_device 5 [])) sample_gcm sample_cases 0x7fffffff
     \<lparr>tworld = spi_harness\<lparr>tty_fd := -1\<rparr>, failed = []\<rparr> = Inl Int_overflow"
proof -
  let ?rig = "spi_rig (fixed_device 5 (be16 7 @ [0xcc, 0xdd, 1, 2, 3, 4]))"
  let ?h = "snd (setVerbosity (getVerbosity (spi_harness\<lparr>tty_fd := -1\<rparr>) - 1) (spi_harness\<lparr>tty_fd := -1\<rparr>))"
  let ?bs = "[0xcc, 0xdd, 1, 2, 3, 4] :: byte list"
  let ?c = "sample_cases ! 1"
  obtain r where r: "parse_gcm_result sample_gcm (int (length ?bs)) ?bs = Some r" by (simp add: sample_gcm_def)
  obtain req where req: "gcm_request_of sample_gcm ?c = pb_of req" "length req \<le> 508"
    by (simp add: sample_gcm_def gcm_request_of_def)
  have "hclient ?h = Some CitadeldProxyClient" "5 = id_TESTING_API_RESPONSE (gcm_ids sample_gcm)"
    by (simp_all add: setVerbosity_def spi_harness_def sample_gcm_def sample_protos_def)
  from spi_answered [where req = req and bs = ?bs and res = 7 and h = ?h and parse = "parse_gcm_result sample_gcm" and turn = 1
      and send_line = 108 and line = 113 and sub = "kAesGcmEncryptTest sample_gcm", OF this(1) req(2) _ _ this(2) r]
  obtain h' where ans: "answered ?rig (gcm_ids sample_gcm) 108 113 1 (kAesGcmEncryptTest sample_gcm) (pb_of req) 7
      (parse_gcm_result sample_gcm) ?h r h'" and fd: "tty_fd h' = tty_fd ?h" by auto
  have "gcm_right sample_gcm ?c r" using r
    by (auto simp: gcm_right_def sample_gcm_def sample_cases_def array_def bytes_in_def bytes_of_words_def le32_unfold)
  moreover have "gcm_wf ?c" by (simp add: gcm_wf_def in_arrays_def bytes_in_def sample_cases_def)
  moreover have "kAesGcmEncryptTestResult sample_gcm = 7" by (simp add: sample_gcm_def)
  ultimately have "gcm_answers ?rig sample_gcm sample_cases [1] ?h h'"
    using ans req(1) by auto
  moreover have "listened ?rig ?h ?h" "listened ?rig h' h'"
    using fd by (simp_all add: listened_def ReadUntil_def ttyState_def setVerbosity_def)
  moreover have "selected 1 (length sample_cases) = Some [1]" by (simp add: selected_def sample_cases_def)
  ultimately have pass: "passes (AesGcm ?rig sample_gcm sample_cases 1) (spi_harness\<lparr>tty_fd := -1\<rparr>)"
    using AesGcm_verdict [of sample_cases 1 ?rig sample_gcm "spi_harness\<lparr>tty_fd := -1\<rparr>"]
    by (auto simp: sample_cases_def)
  moreover have "listened (spi_rig (fixed_device 5 [])) ?h ?h"
    by (simp add: listened_def ReadUntil_def ttyState_def setVerbosity_def)
  moreover have "selected 2 (length sample_cases) = None" "selected 0x7fffffff (length sample_cases) = None"
    "length sample_cases < 2 ^ 31"
    by (simp_all add: selected_def sample_cases_def)
  ultimately have bad: "AesGcm (spi_rig (fixed_device 5 [])) sample_gcm sample_cases 2
      \<lparr>tworld = spi_harness\<lparr>tty_fd := -1\<rparr>, failed = []\<rparr> = Inl Out_of_bounds"
    "AesGcm (spi_rig (fixed_device 5 [])) sample_gcm sample_cases 0x7fffffff
      \<lparr>tworld = spi_harness\<lparr>tty_fd := -1\<rparr>, failed = []\<rparr> = Inl Int_overflow"
    using AesGcm_verdict [of sample_cases 2 "spi_rig (fixed_device 5 [])" sample_gcm "spi_harness\<lparr>tty_fd := -1\<rparr>",
        THEN conjunct2, rule_format, of ?h "[]"]
      AesGcm_verdict [of sample_cases "0x7fffffff" "spi_rig (fixed_device 5 [])" sample_gcm
        "spi_harness\<lparr>tty_fd := -1\<rparr>", THEN conjunct2, rule_format, of ?h "[]"]
    by simp_all
  with pass show ?thesis by blast
qed

end
