(* ===== verification/Weaver.thy ===== *)
theory Weaver
  imports Fixture Scripts
begin

text \<open>
  \<open>src/weaver_tests.cc\<close>: the tests of Weaver, the application that stores values under keys and
  throttles wrong attempts. The generated service is a parameter. The helpers that the tests call
  are \<open>void\<close>, so that an assertion that fails in one of them ends the helper and not the test.
\<close>

subsection \<open>The service\<close>

datatype read_error = NONE | WRONG_KEY_ERROR | THROTTLE | Other_error int

record read_response =
  read_error :: read_error
  throttle_msec :: u32
  read_value :: "byte list"

record weaver_config =
  number_of_slots :: u32
  config_key_size :: u32
  config_value_size :: u32

text \<open>The last three are the calls without a response object. \<open>plain_char_signed\<close> is a choice of
  the compiler.\<close>

record 'w weaver =
  weaver_GetConfig :: "client \<Rightarrow> 'w \<Rightarrow> int \<times> weaver_config \<times> 'w"
  weaver_Write :: "client \<Rightarrow> u32 \<Rightarrow> byte list \<Rightarrow> byte list \<Rightarrow> 'w \<Rightarrow> int \<times> 'w"
  weaver_Read :: "client \<Rightarrow> u32 \<Rightarrow> byte list \<Rightarrow> 'w \<Rightarrow> int \<times> read_response \<times> 'w"
  weaver_EraseValue :: "client \<Rightarrow> u32 \<Rightarrow> 'w \<Rightarrow> int \<times> 'w"
  weaver_Write_null :: "client \<Rightarrow> u32 \<Rightarrow> byte list \<Rightarrow> byte list \<Rightarrow> 'w \<Rightarrow> int \<times> 'w"
  weaver_Read_null :: "client \<Rightarrow> u32 \<Rightarrow> byte list \<Rightarrow> 'w \<Rightarrow> int \<times> 'w"
  weaver_EraseValue_null :: "client \<Rightarrow> u32 \<Rightarrow> 'w \<Rightarrow> int \<times> 'w"
  plain_char_signed :: bool
  APP_ERROR_BOGUS_ARGS :: int

abbreviation WEAVER :: string where "WEAVER \<equiv> ''weaver_tests.cc''"
abbreviation WEAVER_KEY_SIZE :: nat where "WEAVER_KEY_SIZE \<equiv> 16"

definition TEST_KEY :: "byte list" where
  "TEST_KEY = [1, 2, 3, 4, 5, 6, 7, 8, 9, 10, 11, 12, 13, 14, 15, 16]"

definition WRONG_KEY :: "byte list" where
  "WRONG_KEY = [100, 2, 3, 4, 5, 6, 7, 8, 9, 10, 11, 12, 13, 14, 15, 16]"

definition TEST_VALUE :: "byte list" where
  "TEST_VALUE = [1, 0, 3, 0, 5, 0, 7, 0, 0, 10, 0, 12, 0, 14, 0, 16]"

definition ZERO_VALUE :: "byte list" where
  "ZERO_VALUE = [0, 0, 0, 0, 0, 0, 0, 0, 0, 0, 0, 0, 0, 0, 0, 0]"

text \<open>The slot that most tests use.\<close>

definition SLOT_MASK :: u32 where "SLOT_MASK = 0x3f"

definition weaver_slot :: "u32 \<Rightarrow> u32" where
  "weaver_slot random = random AND SLOT_MASK"

text \<open>Everything a test runs against.\<close>

record 'w weaver_rig =
  wr_env :: "'w nos"
  wr_avb :: "'w avb"
  wr_weaver :: "'w weaver"
  wr_client :: client
  wr_slot :: u32
  wr_junk :: bool

subsection \<open>The helpers\<close>

definition testWrite ::
  "'w weaver_rig \<Rightarrow> u32 \<Rightarrow> byte list \<Rightarrow> byte list \<Rightarrow> ('w, unit) proc" where
  "testWrite rig slot key value =
     and_then (act (weaver_Write (wr_weaver rig) (wr_client rig) slot key value)) (\<lambda>st.
       ASSERT WEAVER 94 (st = APP_SUCCESS))"

text \<open>A \<open>char\<close> of the response's string at an index, which may be its size, as an \<open>int\<close>.\<close>

definition char_value :: "bool \<Rightarrow> byte \<Rightarrow> int" where
  "char_value is_signed b = (if is_signed then sint b else uint b)"

definition testRead ::
  "'w weaver_rig \<Rightarrow> u32 \<Rightarrow> byte list \<Rightarrow> byte list \<Rightarrow> ('w, unit) proc" where
  "testRead rig slot key value =
     and_then (act (\<lambda>w. case weaver_Read (wr_weaver rig) (wr_client rig) slot key w of (st, r, w) \<Rightarrow> ((st, r), w)))
       (\<lambda>(st, response).
     and_then (ASSERT WEAVER 105 (st = APP_SUCCESS)) (\<lambda>_.
     and_then (ASSERT WEAVER 106 (read_error response = NONE)) (\<lambda>_.
     and_then (ASSERT WEAVER 107 (throttle_msec response = 0)) (\<lambda>_.
       for_each [0..<WEAVER_KEY_SIZE] (\<lambda>x.
         and_then (in_bounds (x \<le> length (read_value response) \<and> x < length value)) (\<lambda>_.
           ASSERT WEAVER 110
             (char_value (plain_char_signed (wr_weaver rig)) ((read_value response @ [0]) ! x) = uint (value ! x))))))))"

definition testEraseValue :: "'w weaver_rig \<Rightarrow> u32 \<Rightarrow> ('w, unit) proc" where
  "testEraseValue rig slot =
     and_then (act (weaver_EraseValue (wr_weaver rig) (wr_client rig) slot)) (\<lambda>st.
       ASSERT WEAVER 121 (st = APP_SUCCESS))"

definition testReadWrongKey :: "'w weaver_rig \<Rightarrow> u32 \<Rightarrow> byte list \<Rightarrow> u32 \<Rightarrow> ('w, unit) proc" where
  "testReadWrongKey rig slot key throttle_sec =
     and_then (act (\<lambda>w. case weaver_Read (wr_weaver rig) (wr_client rig) slot key w of (st, r, w) \<Rightarrow> ((st, r), w)))
       (\<lambda>(st, response).
     and_then (ASSERT WEAVER 132 (st = APP_SUCCESS)) (\<lambda>_.
     and_then (ASSERT WEAVER 133 (read_error response = WRONG_KEY_ERROR)) (\<lambda>_.
     and_then (ASSERT WEAVER 134 (throttle_msec response = throttle_sec * 1000)) (\<lambda>_.
       for_each (read_value response) (\<lambda>c.
         ASSERT WEAVER 137 (char_value (plain_char_signed (wr_weaver rig)) c = 0))))))"

definition testReadThrottle :: "'w weaver_rig \<Rightarrow> u32 \<Rightarrow> byte list \<Rightarrow> u32 \<Rightarrow> ('w, unit) proc" where
  "testReadThrottle rig slot key throttle_sec =
     and_then (act (\<lambda>w. case weaver_Read (wr_weaver rig) (wr_client rig) slot key w of (st, r, w) \<Rightarrow> ((st, r), w)))
       (\<lambda>(st, response).
     and_then (ASSERT WEAVER 150 (st = APP_SUCCESS)) (\<lambda>_.
     and_then (ASSERT WEAVER 151 (read_error response = THROTTLE)) (\<lambda>_.
     and_then (ASSERT WEAVER 152 (throttle_msec response \<noteq> 0)) (\<lambda>_.
     and_then (ASSERT WEAVER 153 (throttle_msec response \<le> throttle_sec * 1000)) (\<lambda>_.
       for_each (read_value response) (\<lambda>c.
         ASSERT WEAVER 156 (char_value (plain_char_signed (wr_weaver rig)) c = 0)))))))"

definition activateThrottle ::
  "'w weaver_rig \<Rightarrow> u32 \<Rightarrow> byte list \<Rightarrow> byte list \<Rightarrow> u32 \<Rightarrow> ('w, unit) proc" where
  "activateThrottle rig slot key wrong_key throttle_sec = block
     [invoke (testWrite rig slot key TEST_VALUE),
      invoke (testReadWrongKey rig slot wrong_key 0),
      invoke (testReadWrongKey rig slot wrong_key 0),
      invoke (testReadWrongKey rig slot wrong_key 0),
      invoke (testReadWrongKey rig slot wrong_key 0),
      invoke (testReadWrongKey rig slot wrong_key throttle_sec)]"

text \<open>The assertions on the procedures of \<open>tools/nugget_tools.cc\<close>.\<close>

definition assert_sleep :: "'w weaver_rig \<Rightarrow> nat \<Rightarrow> ('w, unit) proc" where
  "assert_sleep rig line =
     and_then (attempt (\<lambda>w. bind_res (WaitForSleep (wr_env rig) (wr_client rig) None w) (\<lambda>(b, _, w). Inr (b, w))))
       (ASSERT WEAVER line)"

definition assert_reboot :: "'w weaver_rig \<Rightarrow> nat \<Rightarrow> ('w, unit) proc" where
  "assert_reboot rig line = and_then (attempt (RebootNugget (wr_env rig) (wr_client rig))) (ASSERT WEAVER line)"

definition assert_wipe :: "'w weaver_rig \<Rightarrow> nat \<Rightarrow> ('w, unit) proc" where
  "assert_wipe rig line = and_then (attempt (WipeUserData (wr_env rig) (wr_client rig))) (ASSERT WEAVER line)"

subsection \<open>The fixture\<close>

definition Weaver_SetUpTestCase ::
  "'w nos \<Rightarrow> config \<Rightarrow> fault + 'p \<Rightarrow> (('w, 'p) fixture, unit) proc" where
  "Weaver_SetUpTestCase env cfg printer = connect env cfg printer WEAVER 75"

definition Weaver_TearDownTestCase :: "'w nos \<Rightarrow> (('w, 'p) fixture, unit) proc" where
  "Weaver_TearDownTestCase env = disconnect env"

subsection \<open>The tests\<close>

definition GetConfig :: "'w weaver_rig \<Rightarrow> ('w, unit) proc" where
  "GetConfig rig =
     and_then (act (\<lambda>w. case weaver_GetConfig (wr_weaver rig) (wr_client rig) w of (st, r, w) \<Rightarrow> ((st, r), w)))
       (\<lambda>(st, response). block
          [ASSERT WEAVER 180 (st = APP_SUCCESS),
           EXPECT WEAVER 181 (number_of_slots response = 64),
           EXPECT WEAVER 182 (config_key_size response = 16),
           EXPECT WEAVER 183 (config_value_size response = 16)])"

definition WriteReadErase :: "'w weaver_rig \<Rightarrow> ('w, unit) proc" where
  "WriteReadErase rig = block
     [invoke (testWrite rig (wr_slot rig) TEST_KEY TEST_VALUE),
      invoke (testRead rig (wr_slot rig) TEST_KEY TEST_VALUE),
      invoke (testEraseValue rig (wr_slot rig)),
      invoke (testRead rig (wr_slot rig) TEST_KEY (zeros 16))]"

definition WriteToMultipleSlotsInSameRecordIncreasingOrder :: "'w weaver_rig \<Rightarrow> ('w, unit) proc" where
  "WriteToMultipleSlotsInSameRecordIncreasingOrder rig = block
     [invoke (testWrite rig 0 TEST_KEY TEST_VALUE), invoke (testWrite rig 1 TEST_KEY TEST_VALUE),
      invoke (testRead rig 0 TEST_KEY TEST_VALUE), invoke (testRead rig 1 TEST_KEY TEST_VALUE)]"

definition WriteToMultipleSlotsInSameRecordDecreasingOrder :: "'w weaver_rig \<Rightarrow> ('w, unit) proc" where
  "WriteToMultipleSlotsInSameRecordDecreasingOrder rig = block
     [invoke (testWrite rig 8 TEST_KEY TEST_VALUE), invoke (testWrite rig 7 TEST_KEY TEST_VALUE),
      invoke (testRead rig 8 TEST_KEY TEST_VALUE), invoke (testRead rig 7 TEST_KEY TEST_VALUE)]"

definition WriteToMultipleSlotsInDifferentRecordsIncreasingOrder :: "'w weaver_rig \<Rightarrow> ('w, unit) proc" where
  "WriteToMultipleSlotsInDifferentRecordsIncreasingOrder rig = block
     [invoke (testWrite rig 9 TEST_KEY TEST_VALUE), invoke (testWrite rig 10 TEST_KEY TEST_VALUE),
      invoke (testRead rig 9 TEST_KEY TEST_VALUE), invoke (testRead rig 10 TEST_KEY TEST_VALUE)]"

definition WriteToMultipleSlotsInDifferentRecordsDecreasingOrder :: "'w weaver_rig \<Rightarrow> ('w, unit) proc" where
  "WriteToMultipleSlotsInDifferentRecordsDecreasingOrder rig = block
     [invoke (testWrite rig 5 TEST_KEY TEST_VALUE), invoke (testWrite rig 4 TEST_KEY TEST_VALUE),
      invoke (testRead rig 4 TEST_KEY TEST_VALUE), invoke (testRead rig 5 TEST_KEY TEST_VALUE)]"

definition WriteDeepSleepRead :: "'w weaver_rig \<Rightarrow> ('w, unit) proc" where
  "WriteDeepSleepRead rig = block
     [invoke (testWrite rig (wr_slot rig) TEST_KEY TEST_VALUE),
      assert_sleep rig 231,
      invoke (testRead rig (wr_slot rig) TEST_KEY TEST_VALUE)]"

definition WriteHardRebootRead :: "'w weaver_rig \<Rightarrow> ('w, unit) proc" where
  "WriteHardRebootRead rig = block
     [invoke (testWrite rig (wr_slot rig) TEST_KEY TEST_VALUE),
      assert_reboot rig 237,
      invoke (testRead rig (wr_slot rig) TEST_KEY TEST_VALUE)]"

definition ReadThrottle :: "'w weaver_rig \<Rightarrow> ('w, unit) proc" where
  "ReadThrottle rig = block
     [invoke (activateThrottle rig (wr_slot rig) TEST_KEY WRONG_KEY 30),
      invoke (testReadThrottle rig (wr_slot rig) WRONG_KEY 30)]"

definition ReadThrottleAfterDeepSleep :: "'w weaver_rig \<Rightarrow> ('w, unit) proc" where
  "ReadThrottleAfterDeepSleep rig = block
     [invoke (activateThrottle rig (wr_slot rig) TEST_KEY WRONG_KEY 30),
      assert_sleep rig 248,
      invoke (testReadThrottle rig (wr_slot rig) WRONG_KEY 30)]"

definition ReadThrottleAfterHardReboot :: "'w weaver_rig \<Rightarrow> ('w, unit) proc" where
  "ReadThrottleAfterHardReboot rig = block
     [invoke (activateThrottle rig (wr_slot rig) TEST_KEY WRONG_KEY 30),
      assert_reboot rig 254,
      invoke (testReadThrottle rig (wr_slot rig) WRONG_KEY 30)]"

text \<open>\<open>waited\<close> starts at 0 and is what \<open>WaitForSleep\<close> leaves in it.\<close>

definition ReadThrottleAfterSleep :: "'w weaver_rig \<Rightarrow> ('w, unit) proc" where
  "ReadThrottleAfterSleep rig =
     and_then (invoke (activateThrottle rig (wr_slot rig) TEST_KEY WRONG_KEY 30)) (\<lambda>_.
     and_then (attempt (\<lambda>w. bind_res (WaitForSleep (wr_env rig) (wr_client rig) (Some 0) w)
                 (\<lambda>(b, waited, w). Inr ((b, waited), w)))) (\<lambda>(b, waited).
     and_then (ASSERT WEAVER 261 b) (\<lambda>_.
       invoke (testReadThrottle rig (wr_slot rig) WRONG_KEY (30 - the waited)))))"

definition ReadAttemptCounterPersistsDeepSleep :: "'w weaver_rig \<Rightarrow> ('w, unit) proc" where
  "ReadAttemptCounterPersistsDeepSleep rig = block
     [invoke (testWrite rig (wr_slot rig) TEST_KEY TEST_VALUE),
      invoke (testReadWrongKey rig (wr_slot rig) WRONG_KEY 0),
      invoke (testReadWrongKey rig (wr_slot rig) WRONG_KEY 0),
      invoke (testReadWrongKey rig (wr_slot rig) WRONG_KEY 0),
      assert_sleep rig 272,
      invoke (testReadWrongKey rig (wr_slot rig) WRONG_KEY 0),
      invoke (testReadWrongKey rig (wr_slot rig) WRONG_KEY 30)]"

definition ReadAttemptCounterPersistsHardReboot :: "'w weaver_rig \<Rightarrow> ('w, unit) proc" where
  "ReadAttemptCounterPersistsHardReboot rig = block
     [invoke (testWrite rig (wr_slot rig) TEST_KEY TEST_VALUE),
      invoke (testReadWrongKey rig (wr_slot rig) WRONG_KEY 0),
      invoke (testReadWrongKey rig (wr_slot rig) WRONG_KEY 0),
      assert_reboot rig 284,
      invoke (testReadWrongKey rig (wr_slot rig) WRONG_KEY 0),
      invoke (testReadWrongKey rig (wr_slot rig) WRONG_KEY 0),
      invoke (testReadWrongKey rig (wr_slot rig) WRONG_KEY 30)]"

definition ReadInvalidSlot :: "'w weaver_rig \<Rightarrow> ('w, unit) proc" where
  "ReadInvalidSlot rig =
     and_then (act (weaver_Read_null (wr_weaver rig) (wr_client rig) (- 1 - 3) TEST_KEY)) (\<lambda>st.
       ASSERT WEAVER 297 (st = APP_ERROR_BOGUS_ARGS (wr_weaver rig)))"

definition WriteInvalidSlot :: "'w weaver_rig \<Rightarrow> ('w, unit) proc" where
  "WriteInvalidSlot rig =
     and_then (act (weaver_Write_null (wr_weaver rig) (wr_client rig) (- 1 - 5) TEST_KEY TEST_VALUE)) (\<lambda>st.
       ASSERT WEAVER 307 (st = APP_ERROR_BOGUS_ARGS (wr_weaver rig)))"

definition EraseValueInvalidSlot :: "'w weaver_rig \<Rightarrow> ('w, unit) proc" where
  "EraseValueInvalidSlot rig =
     and_then (act (weaver_EraseValue_null (wr_weaver rig) (wr_client rig) (- 1 - 8))) (\<lambda>st.
       ASSERT WEAVER 315 (st = APP_ERROR_BOGUS_ARGS (wr_weaver rig)))"

definition WipeUserDataOnlyClearsValues :: "'w weaver_rig \<Rightarrow> ('w, unit) proc" where
  "WipeUserDataOnlyClearsValues rig = block
     [invoke (testWrite rig (wr_slot rig) TEST_KEY TEST_VALUE),
      assert_wipe rig 320,
      invoke (testRead rig (wr_slot rig) TEST_KEY ZERO_VALUE)]"

definition ProductionResetWipesUserData :: "'w weaver_rig \<Rightarrow> ('w, unit) proc" where
  "ProductionResetWipesUserData rig = block
     [and_then (attempt (SetProduction (wr_avb rig) (wr_client rig) True None 0)) (\<lambda>_. give ()),
      invoke (testWrite rig (wr_slot rig) TEST_KEY TEST_VALUE),
      invoke (ResetProduction (wr_avb rig) (wr_client rig) (wr_junk rig)),
      invoke (testRead rig (wr_slot rig) TEST_KEY ZERO_VALUE)]"

definition WipeUserDataWriteSlot0ReadSlot1 :: "'w weaver_rig \<Rightarrow> ('w, unit) proc" where
  "WipeUserDataWriteSlot0ReadSlot1 rig = block
     [invoke (testWrite rig 0 TEST_KEY TEST_VALUE),
      invoke (testWrite rig 1 TEST_KEY TEST_VALUE),
      assert_wipe rig 335,
      invoke (testWrite rig 0 TEST_KEY TEST_VALUE),
      invoke (testRead rig 1 TEST_KEY ZERO_VALUE)]"

subsection \<open>Scripts\<close>

text \<open>What a test asks of the chip, one exchange or procedure at a time.\<close>

datatype weaver_step =
    Writes u32 "byte list"
  | Reads u32 "byte list"
  | Erases u32
  | Refuses u32 u32
  | Throttles u32 u32
  | Sleeps
  | Reboots
  | Wipes
  | Set_production
  | Reset_production
  | Configured u32 u32 u32
  | Rejects_read u32
  | Rejects_write u32 "byte list"
  | Rejects_erase u32

text \<open>A value is compared without a look at its size: one that is a byte short passes when that
  byte is to be zero.\<close>

definition reads_as :: "byte list \<Rightarrow> byte list \<Rightarrow> bool" where
  "reads_as bs v \<longleftrightarrow> 15 \<le> length bs \<and> take 16 (bs @ [0]) = v"

fun takes :: "'w weaver_rig \<Rightarrow> weaver_step \<Rightarrow> 'w \<Rightarrow> 'w \<Rightarrow> bool" where
  "takes rig (Writes slot v) w w' \<longleftrightarrow>
     weaver_Write (wr_weaver rig) (wr_client rig) slot TEST_KEY v w = (APP_SUCCESS, w')"
| "takes rig (Reads slot v) w w' \<longleftrightarrow>
     (\<exists>r. weaver_Read (wr_weaver rig) (wr_client rig) slot TEST_KEY w = (APP_SUCCESS, r, w') \<and>
        read_error r = NONE \<and> throttle_msec r = 0 \<and> reads_as (read_value r) v)"
| "takes rig (Erases slot) w w' \<longleftrightarrow>
     weaver_EraseValue (wr_weaver rig) (wr_client rig) slot w = (APP_SUCCESS, w')"
| "takes rig (Refuses slot sec) w w' \<longleftrightarrow>
     (\<exists>r. weaver_Read (wr_weaver rig) (wr_client rig) slot WRONG_KEY w = (APP_SUCCESS, r, w') \<and>
        read_error r = WRONG_KEY_ERROR \<and> throttle_msec r = sec * 1000 \<and> set (read_value r) \<subseteq> {0})"
| "takes rig (Throttles slot sec) w w' \<longleftrightarrow>
     (\<exists>r. weaver_Read (wr_weaver rig) (wr_client rig) slot WRONG_KEY w = (APP_SUCCESS, r, w') \<and>
        read_error r = THROTTLE \<and> 0 < throttle_msec r \<and> throttle_msec r \<le> sec * 1000 \<and> set (read_value r) \<subseteq> {0})"
| "takes rig Sleeps w w' \<longleftrightarrow> (\<exists>x. WaitForSleep (wr_env rig) (wr_client rig) None w = Inr (True, x, w'))"
| "takes rig Reboots w w' \<longleftrightarrow> RebootNugget (wr_env rig) (wr_client rig) w = Inr (True, w')"
| "takes rig Wipes w w' \<longleftrightarrow> WipeUserData (wr_env rig) (wr_client rig) w = Inr (True, w')"
| "takes rig Set_production w w' \<longleftrightarrow>
     (\<exists>st. avb_SetProduction (wr_avb rig) (wr_client rig) \<lparr>set_production = True,
        production_data = Some (zeros (avb_device_data_size (wr_avb rig)))\<rparr> w = (st, w'))"
| "takes rig Reset_production w w' \<longleftrightarrow> left_production (wr_avb rig) (wr_client rig) w w'"
| "takes rig (Configured slots key_size value_size) w w' \<longleftrightarrow>
     (\<exists>r. weaver_GetConfig (wr_weaver rig) (wr_client rig) w = (APP_SUCCESS, r, w') \<and>
        number_of_slots r = slots \<and> config_key_size r = key_size \<and> config_value_size r = value_size)"
| "takes rig (Rejects_read slot) w w' \<longleftrightarrow>
     weaver_Read_null (wr_weaver rig) (wr_client rig) slot TEST_KEY w = (APP_ERROR_BOGUS_ARGS (wr_weaver rig), w')"
| "takes rig (Rejects_write slot v) w w' \<longleftrightarrow>
     weaver_Write_null (wr_weaver rig) (wr_client rig) slot TEST_KEY v w = (APP_ERROR_BOGUS_ARGS (wr_weaver rig), w')"
| "takes rig (Rejects_erase slot) w w' \<longleftrightarrow>
     weaver_EraseValue_null (wr_weaver rig) (wr_client rig) slot w = (APP_ERROR_BOGUS_ARGS (wr_weaver rig), w')"

subsection \<open>The helpers and scripts\<close>

lemma char_value_eq: "sint v = uint v \<Longrightarrow> char_value is_signed b = uint v \<longleftrightarrow> b = v"
proof -
  have "b = word_of_int (sint b)" "v = word_of_int (uint v)" by simp_all
  then have "sint b = uint v \<Longrightarrow> b = v" by metis
  moreover have "uint b = uint v \<Longrightarrow> b = v" by (simp only: word_uint_eq_iff)
  ultimately show "sint v = uint v \<Longrightarrow> char_value is_signed b = uint v \<longleftrightarrow> b = v"
    by (auto simp: char_value_def)
qed

lemma char_value_zero [simp]: "char_value is_signed b = 0 \<longleftrightarrow> b = 0"
  using char_value_eq [of 0 is_signed b] by simp

lemma test_values:
  "list_all (\<lambda>v. sint v = uint v) TEST_VALUE" "length TEST_VALUE = 16"
  "list_all (\<lambda>v. sint v = uint v) ZERO_VALUE" "length ZERO_VALUE = 16"
  "zeros 16 = ZERO_VALUE"
proof -
  show "zeros 16 = ZERO_VALUE" by (simp add: ZERO_VALUE_def numeral_eq_Suc)
qed (simp_all add: TEST_VALUE_def ZERO_VALUE_def)

lemma compared_value:
  assumes "list_all (\<lambda>v. sint v = uint v) v" "length v = 16"
  shows "(\<forall>x \<in> set [0..<16]. (x \<le> length bs \<and> x < length v) \<and> char_value is_signed ((bs @ [0]) ! x) = uint (v ! x)) \<longleftrightarrow>
    reads_as bs v"
proof -
  have same: "char_value is_signed b = uint (v ! x) \<longleftrightarrow> b = v ! x" if "x < 16" for b x
    using that assms by (intro char_value_eq) (simp add: list_all_length)
  have "reads_as bs v \<longleftrightarrow> 15 \<le> length bs \<and> (\<forall>x < 16. (bs @ [0]) ! x = v ! x)"
  proof -
    have "take 16 c = v \<longleftrightarrow> (\<forall>x < 16. c ! x = v ! x)" if "16 \<le> length c" for c
      using that assms(2) by (auto simp: list_eq_iff_nth_eq)
    from this [of "bs @ [0]"] show ?thesis by (auto simp: reads_as_def)
  qed
  moreover have "(\<forall>x < 16. x \<le> length bs) \<longleftrightarrow> 15 \<le> length bs" by auto
  ultimately show ?thesis using assms(2) by (auto simp: same)
qed

lemma records_weaver [simp, records_intros]:
  "records (testWrite rig slot k v)" "records (testRead rig slot k v)" "records (testEraseValue rig slot)"
  "records (testReadWrongKey rig slot k sec)" "records (testReadThrottle rig slot k sec)"
  "records (assert_sleep rig line)" "records (assert_reboot rig line)" "records (assert_wipe rig line)"
  by (auto simp: testWrite_def testRead_def testEraseValue_def testReadWrongKey_def testReadThrottle_def
      assert_sleep_def assert_reboot_def assert_wipe_def intro!: records_intros)

lemma tests_helpers:
  "tests (takes rig) (testWrite rig slot TEST_KEY v) [Writes slot v]"
  "tests (takes rig) (testRead rig slot TEST_KEY TEST_VALUE) [Reads slot TEST_VALUE]"
  "tests (takes rig) (testRead rig slot TEST_KEY ZERO_VALUE) [Reads slot ZERO_VALUE]"
  "tests (takes rig) (testEraseValue rig slot) [Erases slot]"
  "tests (takes rig) (testReadWrongKey rig slot WRONG_KEY sec) [Refuses slot sec]"
  "tests (takes rig) (testReadThrottle rig slot WRONG_KEY sec) [Throttles slot sec]"
proof -
  show "tests (takes rig) (testRead rig slot TEST_KEY TEST_VALUE) [Reads slot TEST_VALUE]"
    using compared_value [OF test_values(1,2)]
    by (auto simp: tests_def testRead_def passed_simps passed_checked_loop split: prod.splits simp del: set_upt)
  show "tests (takes rig) (testRead rig slot TEST_KEY ZERO_VALUE) [Reads slot ZERO_VALUE]"
    using compared_value [OF test_values(3,4)]
    by (auto simp: tests_def testRead_def passed_simps passed_checked_loop split: prod.splits simp del: set_upt)
qed (auto simp: tests_def testWrite_def testEraseValue_def testReadWrongKey_def testReadThrottle_def passed_simps
    word_neq_0_conv split: prod.splits)

lemma tests_procedures:
  "tests (takes rig) (assert_sleep rig line) [Sleeps]"
  "tests (takes rig) (assert_reboot rig line) [Reboots]"
  "tests (takes rig) (assert_wipe rig line) [Wipes]"
  "tests (takes rig) (and_then (attempt (SetProduction (wr_avb rig) (wr_client rig) True None 0)) (\<lambda>_. give ())) [Set_production]"
  "tests (takes rig) (ResetProduction (wr_avb rig) (wr_client rig) (wr_junk rig)) [Reset_production]"
  by (auto simp: tests_def assert_sleep_def assert_reboot_def assert_wipe_def passed_simps bind_res_Inr_iff
      SetProduction_def passed_ResetProduction)

text \<open>The tests of the configuration and of slots that do not exist.\<close>

lemma tests_single_calls:
  "tests (takes rig) (GetConfig rig) [Configured 64 16 16]"
  "tests (takes rig) (ReadInvalidSlot rig) [Rejects_read 0xfffffffc]"
  "tests (takes rig) (WriteInvalidSlot rig) [Rejects_write 0xfffffffa TEST_VALUE]"
  "tests (takes rig) (EraseValueInvalidSlot rig) [Rejects_erase 0xfffffff7]"
proof -
  have slots: "(- 4 :: u32) = 0xfffffffc" "(- 6 :: u32) = 0xfffffffa" "(- 9 :: u32) = 0xfffffff7" by simp_all
  show "tests (takes rig) (GetConfig rig) [Configured 64 16 16]"
    "tests (takes rig) (ReadInvalidSlot rig) [Rejects_read 0xfffffffc]"
    "tests (takes rig) (WriteInvalidSlot rig) [Rejects_write 0xfffffffa TEST_VALUE]"
    "tests (takes rig) (EraseValueInvalidSlot rig) [Rejects_erase 0xfffffff7]"
    by (auto simp: tests_def GetConfig_def ReadInvalidSlot_def WriteInvalidSlot_def EraseValueInvalidSlot_def
        passed_simps slots intro!: records_intros split: prod.splits)
qed

text \<open>Tests and their scripts, in the order of the file. The throttle is up after five wrong
  attempts.\<close>

definition memory_scripts :: "'w weaver_rig \<Rightarrow> (('w, unit) proc \<times> weaver_step list) list" where
  "memory_scripts rig = (let s = wr_slot rig; v = TEST_VALUE; z = ZERO_VALUE in
     [(WriteReadErase rig, [Writes s v, Reads s v, Erases s, Reads s z]),
      (WriteToMultipleSlotsInSameRecordIncreasingOrder rig, [Writes 0 v, Writes 1 v, Reads 0 v, Reads 1 v]),
      (WriteToMultipleSlotsInSameRecordDecreasingOrder rig, [Writes 8 v, Writes 7 v, Reads 8 v, Reads 7 v]),
      (WriteToMultipleSlotsInDifferentRecordsIncreasingOrder rig, [Writes 9 v, Writes 10 v, Reads 9 v, Reads 10 v]),
      (WriteToMultipleSlotsInDifferentRecordsDecreasingOrder rig, [Writes 5 v, Writes 4 v, Reads 4 v, Reads 5 v]),
      (WriteDeepSleepRead rig, [Writes s v, Sleeps, Reads s v]),
      (WriteHardRebootRead rig, [Writes s v, Reboots, Reads s v]),
      (WipeUserDataOnlyClearsValues rig, [Writes s v, Wipes, Reads s z]),
      (ProductionResetWipesUserData rig, [Set_production, Writes s v, Reset_production, Reads s z]),
      (WipeUserDataWriteSlot0ReadSlot1 rig, [Writes 0 v, Writes 1 v, Wipes, Writes 0 v, Reads 1 z])])"

definition throttling :: "u32 \<Rightarrow> u32 \<Rightarrow> weaver_step list" where
  "throttling s sec = [Writes s TEST_VALUE, Refuses s 0, Refuses s 0, Refuses s 0, Refuses s 0, Refuses s sec]"

definition throttle_scripts :: "'w weaver_rig \<Rightarrow> (('w, unit) proc \<times> weaver_step list) list" where
  "throttle_scripts rig = (let s = wr_slot rig in
     [(ReadThrottle rig, throttling s 30 @ [Throttles s 30]),
      (ReadThrottleAfterDeepSleep rig, throttling s 30 @ [Sleeps, Throttles s 30]),
      (ReadThrottleAfterHardReboot rig, throttling s 30 @ [Reboots, Throttles s 30]),
      (ReadAttemptCounterPersistsDeepSleep rig,
         [Writes s TEST_VALUE, Refuses s 0, Refuses s 0, Refuses s 0, Sleeps, Refuses s 0, Refuses s 30]),
      (ReadAttemptCounterPersistsHardReboot rig,
         [Writes s TEST_VALUE, Refuses s 0, Refuses s 0, Reboots, Refuses s 0, Refuses s 0, Refuses s 30])])"

lemma tests_activateThrottle:
  "tests (takes rig) (activateThrottle rig slot TEST_KEY WRONG_KEY sec) (throttling slot sec)"
  unfolding activateThrottle_def throttling_def by (intro tests_blockI tests_invoke tests_helpers)

lemmas tests_intros = tests_blockI tests_invoke tests_helpers tests_procedures tests_activateThrottle

lemma memory_tests: "list_all (\<lambda>(p, ss). tests (takes rig) p ss) (memory_scripts rig)"
  unfolding memory_scripts_def Let_def list.pred_inject prod.case
    WriteReadErase_def WriteToMultipleSlotsInSameRecordIncreasingOrder_def
    WriteToMultipleSlotsInSameRecordDecreasingOrder_def WriteToMultipleSlotsInDifferentRecordsIncreasingOrder_def
    WriteToMultipleSlotsInDifferentRecordsDecreasingOrder_def WriteDeepSleepRead_def WriteHardRebootRead_def
    WipeUserDataOnlyClearsValues_def ProductionResetWipesUserData_def WipeUserDataWriteSlot0ReadSlot1_def test_values(5)
  by (intro conjI tests_intros) simp_all

lemma throttle_tests: "list_all (\<lambda>(p, ss). tests (takes rig) p ss) (throttle_scripts rig)"
  unfolding throttle_scripts_def Let_def list.pred_inject prod.case ReadThrottle_def ReadThrottleAfterDeepSleep_def
    ReadThrottleAfterHardReboot_def ReadAttemptCounterPersistsDeepSleep_def ReadAttemptCounterPersistsHardReboot_def
  by (intro conjI tests_intros) simp_all

subsection \<open>What the tests decide\<close>

lemma tests_sleep_for:
  "tests (takes rig) (ReadThrottleAfterSleep rig) (throttling (wr_slot rig) 30 @ [Sleeps, Throttles (wr_slot rig) 26])"
proof -
  let ?up = "invoke (activateThrottle rig (wr_slot rig) TEST_KEY WRONG_KEY 30)"
  have up: "records ?up" "\<And>w u w'. passed ?up w u w' \<longleftrightarrow> plays (takes rig) (throttling (wr_slot rig) 30) w w'"
    using tests_invoke [OF tests_activateThrottle, of rig "wr_slot rig" 30] unfolding tests_def by blast+
  have thr: "passed (invoke (testReadThrottle rig (wr_slot rig) WRONG_KEY sec)) w u w' \<longleftrightarrow>
      takes rig (Throttles (wr_slot rig) sec) w w'" for sec w u w'
    using tests_invoke [OF tests_helpers(6), of rig "wr_slot rig" sec] unfolding tests_def by (simp del: takes.simps)
  have slept: "WaitForSleep (wr_env rig) (wr_client rig) (Some 0) w = Inr (True, waited, w') \<longleftrightarrow>
      waited = Some 4 \<and> takes rig Sleeps w w'" for waited w w'
    by (fastforce simp: WaitForSleep_def Let_def bind_res_Inr_iff wait_seconds_def split: option.splits if_splits)
  have "passed (ReadThrottleAfterSleep rig) w u w' \<longleftrightarrow>
      (\<exists>w1 w2. plays (takes rig) (throttling (wr_slot rig) 30) w w1 \<and> takes rig Sleeps w1 w2 \<and>
         takes rig (Throttles (wr_slot rig) 26) w2 w')" for w u w'
    unfolding ReadThrottleAfterSleep_def
    using up(1) by (simp add: passed_simps up(2) thr bind_res_Inr_iff split_paired_Ex ex_bool_eq slept del: takes.simps)
  moreover have "records (ReadThrottleAfterSleep rig)"
    unfolding ReadThrottleAfterSleep_def using up(1) by (auto intro!: records_intros)
  ultimately show ?thesis by (simp add: tests_def plays_append del: takes.simps)
qed

text \<open>C36: what the twenty tests of Weaver decide. Each passes exactly when the chip plays the
  test's script: a configuration of 64 slots with keys and values of 16 bytes; writes that are
  accepted, reads that give the value, or refuse or throttle a wrong key for as long as stated and
  give nothing away; sleeps, reboots, wipes and resets that succeed; and calls for slots past the
  last, which are rejected as bogus. Of the throttle, five wrong attempts after a write bring it up,
  for 30 seconds, 26 after a measured sleep.\<close>

theorem weaver_verdicts:
  "list_all (\<lambda>(test, script). \<forall>w. passes test w \<longleftrightarrow> (\<exists>w'. plays (takes rig) script w w'))
     (memory_scripts rig @ throttle_scripts rig @
      [(ReadThrottleAfterSleep rig, throttling (wr_slot rig) 30 @ [Sleeps, Throttles (wr_slot rig) 26]),
       (GetConfig rig, [Configured 64 16 16]),
       (ReadInvalidSlot rig, [Rejects_read 0xfffffffc]),
       (WriteInvalidSlot rig, [Rejects_write 0xfffffffa TEST_VALUE]),
       (EraseValueInvalidSlot rig, [Rejects_erase 0xfffffff7])])"
  by (rule verdicts)
    (simp add: memory_tests throttle_tests tests_sleep_for tests_single_calls del: takes.simps)

end
