(* ===== verification/NuggetCore.thy ===== *)
theory NuggetCore
  imports Fixture
begin

text \<open>
  \<open>src/nugget_core_tests.cc\<close>: the tests of the Nugget application itself. Two buffers are shared by
  the tests of the class: an answer stays in the output buffer, and is there at the next call.
\<close>

abbreviation CORE :: string where "CORE \<equiv> ''nugget_core_tests.cc''"

record 'w core =
  core_world :: 'w
  core_input :: vec
  core_output :: vec

text \<open>\<open>UART_OFF\<close> and \<open>UART_ENABLED\<close> are two values of the firmware's enumeration.\<close>

record 'w core_rig =
  cr_env :: "'w nos"
  cr_avb :: "'w avb"
  cr_client :: client
  UART_OFF :: byte
  UART_ENABLED :: byte

subsection \<open>The fixture\<close>

definition Core_SetUpTestCase ::
  "'w nos \<Rightarrow> config \<Rightarrow> fault + 'p \<Rightarrow> (('w, 'p) fixture, unit) proc" where
  "Core_SetUpTestCase env cfg printer = connect env cfg printer CORE 44"

definition Core_reserve :: "'w core \<Rightarrow> 'w core" where
  "Core_reserve s = s\<lparr>core_input := vec_reserve 0x4000 (core_input s), core_output := vec_reserve 0x4000 (core_output s)\<rparr>"

definition Core_TearDownTestCase :: "'w nos \<Rightarrow> (('w, 'p) fixture, unit) proc" where
  "Core_TearDownTestCase env = disconnect env"

subsection \<open>Version and device id\<close>

text \<open>A call with an empty request and the shared output buffer.\<close>

definition ask_empty :: "'w core_rig \<Rightarrow> nat \<Rightarrow> app_param \<Rightarrow> ('w core, byte list) proc" where
  "ask_empty rig line param =
     and_then (act (\<lambda>s.
       let s = s\<lparr>core_input := vec_resize 0 (core_input s)\<rparr>;
           (st, out, w) = call_app (cr_env rig) (cr_client rig) APP_ID_NUGGET param (vdata (core_input s)) (Some (core_output s)) (core_world s)
       in ((st, vdata out), s\<lparr>core_output := out, core_world := w\<rparr>))) (\<lambda>(st, bs).
     and_then (ASSERT CORE line (st = APP_SUCCESS)) (\<lambda>_. give bs))"

definition GetVersionStringTest :: "'w core_rig \<Rightarrow> ('w core, unit) proc" where
  "GetVersionStringTest rig =
     and_then (ask_empty rig 56 NUGGET_PARAM_VERSION) (\<lambda>bs. ASSERT CORE 58 (0 < length bs))"

definition isxdigit :: "byte \<Rightarrow> bool" where
  "isxdigit b \<longleftrightarrow> (let n = unat b in 48 \<le> n \<and> n \<le> 57 \<or> 65 \<le> n \<and> n \<le> 70 \<or> 97 \<le> n \<and> n \<le> 102)"

definition GetDeviceIdTest :: "'w core_rig \<Rightarrow> ('w core, unit) proc" where
  "GetDeviceIdTest rig =
     and_then (ask_empty rig 63 NUGGET_PARAM_DEVICE_ID) (\<lambda>bs.
     and_then (ASSERT CORE 65 (length bs = 18)) (\<lambda>_.
       for_each [0..<length bs] (\<lambda>i.
         if i = 8 then ASSERT CORE 68 (bs ! i = ord (CHR '':''))
         else if i = 17 then ASSERT CORE 70 (bs ! i = 0)
         else ASSERT CORE 72 (isxdigit (bs ! i)))))"

subsection \<open>The procedures\<close>

text \<open>The remaining tests do not use the shared buffers; they act on the world.\<close>

definition EnterDeepSleep :: "'w core_rig \<Rightarrow> ('w, unit) proc" where
  "EnterDeepSleep rig =
     and_then (attempt (\<lambda>w. bind_res (WaitForSleep (cr_env rig) (cr_client rig) None w) (\<lambda>(b, _, w). Inr (b, w))))
       (ASSERT CORE 78)"

definition HardRebootTest :: "'w core_rig \<Rightarrow> ('w, unit) proc" where
  "HardRebootTest rig = and_then (attempt (RebootNugget (cr_env rig) (cr_client rig))) (ASSERT CORE 82)"

definition WipeUserDataTest :: "'w core_rig \<Rightarrow> ('w, unit) proc" where
  "WipeUserDataTest rig = and_then (attempt (WipeUserData (cr_env rig) (cr_client rig))) (ASSERT CORE 86)"

text \<open>The capacity that is reserved is 1000; the reply is copied out after a check of its size.\<close>

definition GetLowPowerStats :: "'w core_rig \<Rightarrow> ('w, unit) proc" where
  "GetLowPowerStats rig =
     (let buffer = vec_reserve 1000 vec_empty in
      and_then (act (\<lambda>w.
        let (st, buffer, w) = call_app (cr_env rig) (cr_client rig) APP_ID_NUGGET NUGGET_PARAM_GET_LOW_POWER_STATS
              (vdata buffer) (Some buffer) w in ((st, vdata buffer), w))) (\<lambda>(st, bs).
      and_then (ASSERT CORE 94 (st = APP_SUCCESS)) (\<lambda>_.
      and_then (ASSERT CORE 97 (length bs \<ge> stats_size (cr_env rig))) (\<lambda>_.
      let stats = stats_of (cr_env rig) (take (stats_size (cr_env rig)) bs) in
      block [ASSERT CORE 103 (hard_reset_count stats > 0),
             ASSERT CORE 104 (time_since_hard_reset stats > 0),
             ASSERT CORE 105 (time_spent_awake stats > 0)]))))"

subsection \<open>The UART passthru\<close>

text \<open>A call with the given request and a response vector that has room for one byte. The callers
  look at its first byte without a look at its size.\<close>

definition passthru :: "'w core_rig \<Rightarrow> byte list \<Rightarrow> ('w, int \<times> byte list) proc" where
  "passthru rig send =
     (let get = vec_reserve 1 vec_empty in act (\<lambda>w.
        let (st, get, w) = call_app (cr_env rig) (cr_client rig) APP_ID_NUGGET NUGGET_PARAM_AP_UART_PASSTHRU
              send (Some get) w in ((st, vdata get), w)))"

definition read_passthru :: "'w core_rig \<Rightarrow> nat \<Rightarrow> nat \<Rightarrow> byte list \<Rightarrow> byte list \<Rightarrow> ('w, unit) proc" where
  "read_passthru rig line line' send expected =
     and_then (passthru rig send) (\<lambda>(st, get).
     and_then (ASSERT CORE line (st = APP_SUCCESS)) (\<lambda>_.
     and_then (in_bounds (get \<noteq> [])) (\<lambda>_.
       ASSERT CORE line' (get ! 0 \<in> set expected))))"

definition GetUartPassthruInBootloader :: "'w core_rig \<Rightarrow> ('w, unit) proc" where
  "GetUartPassthruInBootloader rig = read_passthru rig 113 117 [] [UART_OFF rig, UART_ENABLED rig]"

definition GetUartPassthruInHLOS :: "'w core_rig \<Rightarrow> ('w, unit) proc" where
  "GetUartPassthruInHLOS rig = block
     [invoke (BootloaderDone (cr_avb rig) (cr_client rig)),
      read_passthru rig 128 132 [] [UART_OFF rig, UART_ENABLED rig]]"

definition EnableUartPassthruInBootloader :: "'w core_rig \<Rightarrow> ('w, unit) proc" where
  "EnableUartPassthruInBootloader rig = block
     [invoke (SetBootloader (cr_env rig) (cr_client rig)),
      read_passthru rig 145 149 [UART_ENABLED rig] [UART_ENABLED rig]]"

definition DisableUartPassthruInBootloader :: "'w core_rig \<Rightarrow> ('w, unit) proc" where
  "DisableUartPassthruInBootloader rig = block
     [invoke (SetBootloader (cr_env rig) (cr_client rig)),
      read_passthru rig 160 164 [UART_OFF rig] [UART_OFF rig]]"

definition EnableUartPassthruInHLOSFails :: "'w core_rig \<Rightarrow> ('w, unit) proc" where
  "EnableUartPassthruInHLOSFails rig = block
     [invoke (BootloaderDone (cr_avb rig) (cr_client rig)),
      and_then (passthru rig [UART_ENABLED rig]) (\<lambda>(st, _). ASSERT CORE 176 (st \<noteq> APP_SUCCESS))]"

definition DisableUartPassthruInHLOSFails :: "'w core_rig \<Rightarrow> ('w, unit) proc" where
  "DisableUartPassthruInHLOSFails rig = block
     [invoke (BootloaderDone (cr_avb rig) (cr_client rig)),
      and_then (passthru rig [UART_OFF rig]) (\<lambda>(st, _). ASSERT CORE 190 (st \<noteq> APP_SUCCESS))]"

subsection \<open>What the verdicts mean\<close>

text \<open>The application answers an empty request, into the shared buffer.\<close>

definition core_replies :: "'w core_rig \<Rightarrow> app_param \<Rightarrow> 'w core \<Rightarrow> byte list \<Rightarrow> bool" where
  "core_replies rig param s bs \<longleftrightarrow>
     (\<exists>out w'. call_app (cr_env rig) (cr_client rig) APP_ID_NUGGET param [] (Some (core_output s)) (core_world s) =
        (APP_SUCCESS, out, w') \<and> vdata out = bs)"

text \<open>The switch answers, into a vector with room for one byte.\<close>

definition switched :: "'w core_rig \<Rightarrow> byte list \<Rightarrow> 'w \<Rightarrow> int \<Rightarrow> byte list \<Rightarrow> bool" where
  "switched rig send w st bs \<longleftrightarrow>
     (\<exists>out w'. call_app (cr_env rig) (cr_client rig) APP_ID_NUGGET NUGGET_PARAM_AP_UART_PASSTHRU send
          (Some (vec_reserve 1 vec_empty)) w = (st, out, w') \<and> vdata out = bs)"

lemma records_core [simp, records_intros]:
  "records (ask_empty rig line param)" "records (GetVersionStringTest rig)" "records (GetDeviceIdTest rig)"
  "records (GetLowPowerStats rig)" "records (passthru rig send)" "records (read_passthru rig line line' send expected)"
  by (auto simp: ask_empty_def GetVersionStringTest_def GetDeviceIdTest_def GetLowPowerStats_def passthru_def
      read_passthru_def Let_def intro!: records_intros split: prod.splits)

lemma completes_ask_empty:
  "(\<exists>s'. passed (ask_empty rig line param) s bs s') \<longleftrightarrow> core_replies rig param s bs"
  by (auto simp: ask_empty_def passed_simps Let_def core_replies_def vec_resize_def split: prod.splits)

lemma passed_for_each_either [passed_simps]:
  "passed (for_each xs (\<lambda>x. if c x then ASSERT file l1 (P x) else if d x then ASSERT file l2 (Q x) else ASSERT file l3 (R x))) w u w' \<longleftrightarrow>
   (\<forall>x \<in> set xs. if c x then P x else if d x then Q x else R x) \<and> w' = w"
proof (induction xs)
  case (Cons x xs)
  let ?b = "\<lambda>x. if c x then ASSERT file l1 (P x) else if d x then ASSERT file l2 (Q x) else ASSERT file l3 (R x)"
  have "records (?b x :: ('a, unit) proc)" "records (for_each xs ?b :: ('a, unit) proc)" by auto
  from passed_and_then [OF this] Cons show ?case by (auto simp: for_each_def passed_basic)
qed (simp add: for_each_def passed_simps)

text \<open>A device id: two times eight digits with a colon between them, and a zero.\<close>

definition device_id :: "byte list \<Rightarrow> bool" where
  "device_id bs \<longleftrightarrow> (\<exists>a b. bs = a @ [ord (CHR '':'')] @ b @ [0] \<and> length a = 8 \<and> length b = 8 \<and> list_all isxdigit (a @ b))"

lemma device_id_indexed:
  "length bs = 18 \<and> (\<forall>i < 18. if i = 8 then bs ! i = ord (CHR '':'') else if i = 17 then bs ! i = 0 else isxdigit (bs ! i)) \<longleftrightarrow>
   device_id bs" (is "?l \<longleftrightarrow> ?r")
proof
  assume l: ?l
  have "bs = take 8 bs @ [bs ! 8] @ take 8 (drop 9 bs) @ [bs ! 17]"
    using l by (intro nth_equalityI) (auto simp: nth_append nth_Cons' min_def)
  moreover have "bs ! 8 = ord (CHR '':'')" "bs ! 17 = 0" using l by auto
  moreover have "list_all isxdigit (take 8 bs @ take 8 (drop 9 bs))"
  proof -
    have "isxdigit (bs ! i)" if "i < 8" for i using l that by (auto dest: spec [of _ i])
    moreover have "isxdigit (bs ! (9 + i))" if "i < 8" for i using l that by (auto dest: spec [of _ "9 + i"])
    ultimately show ?thesis using l by (auto simp: list_all_length nth_append)
  qed
  ultimately show ?r
    unfolding device_id_def using l by (intro exI [of _ "take 8 bs"] exI [of _ "take 8 (drop 9 bs)"]) auto
next
  assume ?r
  then obtain a b where bs: "bs = a @ [ord (CHR '':'')] @ b @ [0]" "length a = 8" "length b = 8"
    "list_all isxdigit a" "list_all isxdigit b" by (auto simp: device_id_def)
  have "if i = 8 then bs ! i = ord (CHR '':'') else if i = 17 then bs ! i = 0 else isxdigit (bs ! i)" if "i < 18" for i
  proof -
    consider "i < 8" | "i = 8" | "9 \<le> i" "i - 9 < 8" | "i = 17" using \<open>i < 18\<close> by linarith
    then show ?thesis using bs by cases (auto simp: list_all_length nth_append nth_Cons')
  qed
  moreover have "length bs = 18" using bs by simp
  ultimately show ?l by blast
qed

lemma passed_passthru:
  "passed (passthru rig send) w x w' \<Longrightarrow> switched rig send w (fst x) (snd x)"
  "switched rig send w st bs \<Longrightarrow> \<exists>w'. passed (passthru rig send) w (st, bs) w'"
  by (auto simp: passthru_def passed_simps switched_def Let_def split: prod.splits)

lemma completes_passthru:
  assumes "\<And>x. records (f x)" "\<And>st bs w'. completes (f (st, bs)) w' u \<longleftrightarrow> P st bs"
  shows "completes (and_then (passthru rig send) f) w u \<longleftrightarrow> (\<exists>st bs. switched rig send w st bs \<and> P st bs)"
  unfolding completes_and_then [OF records_core(5) assms(1)] using assms(2)
  by (metis passed_passthru prod.collapse)

lemma completes_read_passthru:
  "completes (read_passthru rig line line' send expected) w u \<longleftrightarrow>
   (\<exists>b bs. switched rig send w APP_SUCCESS (b # bs) \<and> b \<in> set expected)"
proof -
  have "completes (read_passthru rig line line' send expected) w u \<longleftrightarrow>
      (\<exists>st bs. switched rig send w st bs \<and> st = APP_SUCCESS \<and> bs \<noteq> [] \<and> bs ! 0 \<in> set expected)"
    unfolding read_passthru_def
    by (subst completes_passthru) (auto simp: passed_simps intro!: records_intros)
  then show ?thesis by (metis list.exhaust list.discI nth_Cons_0)
qed

lemma empty_passthru:
  "switched rig send w APP_SUCCESS [] \<longleftrightarrow> read_passthru rig line line' send expected (fresh w) = Inl Out_of_bounds"
  by (auto simp: read_passthru_def passthru_def switched_def and_then_def act_def ASSERT_def in_bounds_def
      Let_def split: prod.splits)

lemma passes_two:
  fixes p q :: "('w, unit) proc"
  assumes "records p" "records q"
  shows "passes (block [invoke p, q]) w \<longleftrightarrow> (\<exists>w'. passed p w () w' \<and> completes q w' ())"
  using assms by (simp add: passes_completes passed_simps) (simp add: completes_def)

lemma refused_passthru:
  "records (and_then (passthru rig send) (\<lambda>(st, _). ASSERT CORE line (st \<noteq> APP_SUCCESS)))"
  "completes (and_then (passthru rig send) (\<lambda>(st, _). ASSERT CORE line (st \<noteq> APP_SUCCESS))) w u \<longleftrightarrow>
   (\<exists>st bs. switched rig send w st bs \<and> st \<noteq> APP_SUCCESS)"
proof -
  show "completes (and_then (passthru rig send) (\<lambda>(st, _). ASSERT CORE line (st \<noteq> APP_SUCCESS))) w u \<longleftrightarrow>
     (\<exists>st bs. switched rig send w st bs \<and> st \<noteq> APP_SUCCESS)"
    by (rule completes_passthru) (auto simp: passed_simps intro!: records_intros)
qed (auto intro!: records_intros)

text \<open>The device enters and leaves its bootloader.\<close>

definition enters_bootloader :: "'w core_rig \<Rightarrow> 'w \<Rightarrow> 'w \<Rightarrow> bool" where
  "enters_bootloader rig w w' \<longleftrightarrow>
     (\<exists>out. call_app (cr_env rig) (cr_client rig) APP_ID_AVB_TEST (Param 0) [] (Some vec_empty) w = (APP_SUCCESS, out, w'))"

definition leaves_bootloader :: "'w core_rig \<Rightarrow> 'w \<Rightarrow> 'w \<Rightarrow> bool" where
  "leaves_bootloader rig w w' \<longleftrightarrow> avb_BootloaderDone (cr_avb rig) (cr_client rig) w = (APP_SUCCESS, w')"

lemma passed_modes [passed_simps]:
  "passed (SetBootloader (cr_env rig) (cr_client rig)) w u w' \<longleftrightarrow> enters_bootloader rig w w'"
  "passed (BootloaderDone (cr_avb rig) (cr_client rig)) w u w' \<longleftrightarrow> leaves_bootloader rig w w'"
  by (auto simp: SetBootloader_def BootloaderDone_def enters_bootloader_def leaves_bootloader_def passed_simps
      split: prod.splits)

lemma shared_buffer_verdicts:
  "passes (GetVersionStringTest rig) s \<longleftrightarrow> (\<exists>bs. core_replies rig NUGGET_PARAM_VERSION s bs \<and> bs \<noteq> [])"
  "passes (GetDeviceIdTest rig) s \<longleftrightarrow> (\<exists>bs. core_replies rig NUGGET_PARAM_DEVICE_ID s bs \<and> device_id bs)"
proof -
  show "passes (GetVersionStringTest rig) s \<longleftrightarrow> (\<exists>bs. core_replies rig NUGGET_PARAM_VERSION s bs \<and> bs \<noteq> [])"
    unfolding passes_completes [OF records_core(2)] completes_ask_empty [symmetric, where line = 56]
    by (auto simp: GetVersionStringTest_def passed_simps)
  have "completes (GetDeviceIdTest rig) s () \<longleftrightarrow> (\<exists>bs s'. passed (ask_empty rig 63 NUGGET_PARAM_DEVICE_ID) s bs s' \<and>
      length bs = 18 \<and> (\<forall>i \<in> {..<18}. if i = 8 then bs ! i = ord (CHR '':'') else if i = 17 then bs ! i = 0 else isxdigit (bs ! i)))"
    unfolding GetDeviceIdTest_def
    by (simp add: passed_simps completes_def atLeast0LessThan cong: conj_cong if_cong) blast
  then show "passes (GetDeviceIdTest rig) s \<longleftrightarrow> (\<exists>bs. core_replies rig NUGGET_PARAM_DEVICE_ID s bs \<and> device_id bs)"
    unfolding passes_completes [OF records_core(3)] completes_ask_empty [symmetric, where line = 63]
      device_id_indexed [symmetric] Ball_def lessThan_iff by blast
qed

lemma procedure_verdicts:
  "passes (EnterDeepSleep rig) w \<longleftrightarrow> (\<exists>x w'. WaitForSleep (cr_env rig) (cr_client rig) None w = Inr (True, x, w'))"
  "passes (HardRebootTest rig) w \<longleftrightarrow> (\<exists>w'. RebootNugget (cr_env rig) (cr_client rig) w = Inr (True, w'))"
  "passes (WipeUserDataTest rig) w \<longleftrightarrow> (\<exists>w'. WipeUserData (cr_env rig) (cr_client rig) w = Inr (True, w'))"
proof -
  have "records (EnterDeepSleep rig)" "records (HardRebootTest rig)" "records (WipeUserDataTest rig)"
    by (auto simp: EnterDeepSleep_def HardRebootTest_def WipeUserDataTest_def intro!: records_intros)
  note passes = this [THEN passes_completes]
  show "passes (EnterDeepSleep rig) w \<longleftrightarrow> (\<exists>x w'. WaitForSleep (cr_env rig) (cr_client rig) None w = Inr (True, x, w'))"
    "passes (HardRebootTest rig) w \<longleftrightarrow> (\<exists>w'. RebootNugget (cr_env rig) (cr_client rig) w = Inr (True, w'))"
    "passes (WipeUserDataTest rig) w \<longleftrightarrow> (\<exists>w'. WipeUserData (cr_env rig) (cr_client rig) w = Inr (True, w'))"
    unfolding passes
    by (auto simp: EnterDeepSleep_def HardRebootTest_def WipeUserDataTest_def passed_simps bind_res_Inr_iff)
qed

lemma GetLowPowerStats_verdict:
  "passes (GetLowPowerStats rig) w \<longleftrightarrow>
   (\<exists>v w'. call_app (cr_env rig) (cr_client rig) APP_ID_NUGGET NUGGET_PARAM_GET_LOW_POWER_STATS []
        (Some (vec_reserve 1000 vec_empty)) w = (APP_SUCCESS, v, w') \<and> stats_size (cr_env rig) \<le> length (vdata v) \<and>
      0 < hard_reset_count (snapshot (cr_env rig) (vdata v)) \<and>
      0 < time_since_hard_reset (snapshot (cr_env rig) (vdata v)) \<and>
      0 < time_spent_awake (snapshot (cr_env rig) (vdata v)))"
  unfolding passes_completes [OF records_core(4)]
  by (cases "call_app (cr_env rig) (cr_client rig) APP_ID_NUGGET NUGGET_PARAM_GET_LOW_POWER_STATS []
        (Some (vec_reserve 1000 vec_empty)) w")
    (auto simp: GetLowPowerStats_def Let_def passed_simps snapshot_def intro!: records_intros)

lemma readable_verdicts:
  "passes (GetUartPassthruInBootloader rig) w \<longleftrightarrow>
    (\<exists>b bs. switched rig [] w APP_SUCCESS (b # bs) \<and> b \<in> {UART_OFF rig, UART_ENABLED rig})"
  "passes (GetUartPassthruInHLOS rig) w \<longleftrightarrow>
    (\<exists>w' b bs. leaves_bootloader rig w w' \<and> switched rig [] w' APP_SUCCESS (b # bs) \<and>
       b \<in> {UART_OFF rig, UART_ENABLED rig})"
proof -
  show "passes (GetUartPassthruInBootloader rig) w \<longleftrightarrow>
    (\<exists>b bs. switched rig [] w APP_SUCCESS (b # bs) \<and> b \<in> {UART_OFF rig, UART_ENABLED rig})"
    by (simp add: GetUartPassthruInBootloader_def passes_completes completes_read_passthru)
  show "passes (GetUartPassthruInHLOS rig) w \<longleftrightarrow>
    (\<exists>w' b bs. leaves_bootloader rig w w' \<and> switched rig [] w' APP_SUCCESS (b # bs) \<and>
       b \<in> {UART_OFF rig, UART_ENABLED rig})"
    unfolding GetUartPassthruInHLOS_def by (subst passes_two) (auto simp: completes_read_passthru passed_modes)
qed

lemma switching_verdicts:
  "passes (EnableUartPassthruInBootloader rig) w \<longleftrightarrow>
    (\<exists>w' bs. enters_bootloader rig w w' \<and> switched rig [UART_ENABLED rig] w' APP_SUCCESS (UART_ENABLED rig # bs))"
  "passes (DisableUartPassthruInBootloader rig) w \<longleftrightarrow>
    (\<exists>w' bs. enters_bootloader rig w w' \<and> switched rig [UART_OFF rig] w' APP_SUCCESS (UART_OFF rig # bs))"
  "passes (EnableUartPassthruInHLOSFails rig) w \<longleftrightarrow>
    (\<exists>w' st bs. leaves_bootloader rig w w' \<and> switched rig [UART_ENABLED rig] w' st bs \<and> st \<noteq> APP_SUCCESS)"
  "passes (DisableUartPassthruInHLOSFails rig) w \<longleftrightarrow>
    (\<exists>w' st bs. leaves_bootloader rig w w' \<and> switched rig [UART_OFF rig] w' st bs \<and> st \<noteq> APP_SUCCESS)"
  unfolding EnableUartPassthruInBootloader_def DisableUartPassthruInBootloader_def
    EnableUartPassthruInHLOSFails_def DisableUartPassthruInHLOSFails_def
  by ((subst passes_two, simp, simp add: refused_passthru, simp add: refused_passthru completes_read_passthru passed_modes))+

text \<open>C37: what the twelve tests of the Nugget application decide. The version must not be empty and
  the device id must have its form; the chip must sleep, reboot and wipe as the procedures judge it;
  and the statistics must be complete and count a reset and some time. The switch of the UART must
  be readable as it is and after the bootloader has been left; in the bootloader a write is answered
  with the value written, on or off, and after it either is refused, with any status but success. A
  successful answer that is empty is read past its end.\<close>

theorem core_verdicts:
  "(passes (GetVersionStringTest rig) s \<longleftrightarrow> (\<exists>bs. core_replies rig NUGGET_PARAM_VERSION s bs \<and> bs \<noteq> [])) \<and>
   (passes (GetDeviceIdTest rig) s \<longleftrightarrow> (\<exists>bs. core_replies rig NUGGET_PARAM_DEVICE_ID s bs \<and> device_id bs)) \<and>
   (passes (EnterDeepSleep rig) w \<longleftrightarrow> (\<exists>x w'. WaitForSleep (cr_env rig) (cr_client rig) None w = Inr (True, x, w'))) \<and>
   (passes (HardRebootTest rig) w \<longleftrightarrow> (\<exists>w'. RebootNugget (cr_env rig) (cr_client rig) w = Inr (True, w'))) \<and>
   (passes (WipeUserDataTest rig) w \<longleftrightarrow> (\<exists>w'. WipeUserData (cr_env rig) (cr_client rig) w = Inr (True, w'))) \<and>
   (passes (GetLowPowerStats rig) w \<longleftrightarrow>
      (\<exists>v w'. call_app (cr_env rig) (cr_client rig) APP_ID_NUGGET NUGGET_PARAM_GET_LOW_POWER_STATS []
           (Some (vec_reserve 1000 vec_empty)) w = (APP_SUCCESS, v, w') \<and> stats_size (cr_env rig) \<le> length (vdata v) \<and>
         0 < hard_reset_count (snapshot (cr_env rig) (vdata v)) \<and>
         0 < time_since_hard_reset (snapshot (cr_env rig) (vdata v)) \<and>
         0 < time_spent_awake (snapshot (cr_env rig) (vdata v)))) \<and>
   (passes (GetUartPassthruInBootloader rig) w \<longleftrightarrow>
      (\<exists>b bs. switched rig [] w APP_SUCCESS (b # bs) \<and> b \<in> {UART_OFF rig, UART_ENABLED rig})) \<and>
   (passes (GetUartPassthruInHLOS rig) w \<longleftrightarrow>
      (\<exists>w' b bs. leaves_bootloader rig w w' \<and> switched rig [] w' APP_SUCCESS (b # bs) \<and>
         b \<in> {UART_OFF rig, UART_ENABLED rig})) \<and>
   (passes (EnableUartPassthruInBootloader rig) w \<longleftrightarrow>
      (\<exists>w' bs. enters_bootloader rig w w' \<and> switched rig [UART_ENABLED rig] w' APP_SUCCESS (UART_ENABLED rig # bs))) \<and>
   (passes (DisableUartPassthruInBootloader rig) w \<longleftrightarrow>
      (\<exists>w' bs. enters_bootloader rig w w' \<and> switched rig [UART_OFF rig] w' APP_SUCCESS (UART_OFF rig # bs))) \<and>
   (passes (EnableUartPassthruInHLOSFails rig) w \<longleftrightarrow>
      (\<exists>w' st bs. leaves_bootloader rig w w' \<and> switched rig [UART_ENABLED rig] w' st bs \<and> st \<noteq> APP_SUCCESS)) \<and>
   (passes (DisableUartPassthruInHLOSFails rig) w \<longleftrightarrow>
      (\<exists>w' st bs. leaves_bootloader rig w w' \<and> switched rig [UART_OFF rig] w' st bs \<and> st \<noteq> APP_SUCCESS)) \<and>
   (switched rig [] w APP_SUCCESS [] \<longleftrightarrow> GetUartPassthruInBootloader rig (fresh w) = Inl Out_of_bounds)"
  by (intro conjI shared_buffer_verdicts procedure_verdicts GetLowPowerStats_verdict readable_verdicts
      switching_verdicts) (unfold GetUartPassthruInBootloader_def, rule empty_passthru)

end
