(* ===== verification/StressTest.thy ===== *)
theory StressTest
  imports DeviceTest
begin

text \<open>
  \<open>src/stress_test.cc\<close>: the program that starts the chip's own stress test and then waits to be
  stopped. What is printed to the two streams is kept, the standard output in the harness. On the
  way out, however the program ends, \<open>cleanup\<close> reboots the chip through the harness.
\<close>

text \<open>\<open>TestHarness::RebootNugget\<close> (\<open>src/util.cc\<close>) hands on the harness's client, a pointer that is
  null until the SPI transport has made one; the procedure calls through it.\<close>

definition TestHarness_RebootNugget ::
  "'w nos \<Rightarrow> ('w, 'e, 'd) harness \<Rightarrow> fault + (bool \<times> ('w, 'e, 'd) harness)" where
  "TestHarness_RebootNugget env h =
     (case hclient h of
        None \<Rightarrow> Inl Out_of_bounds
      | Some c \<Rightarrow> bind_res (RebootNugget env c (world h)) (\<lambda>(b, w). Inr (b, h\<lparr>world := w\<rparr>)))"

subsection \<open>The program\<close>

definition put_cout :: "string \<Rightarrow> ('w, 'e, 'd) harness \<Rightarrow> ('w, 'e, 'd) harness" where
  "put_cout s h = h\<lparr>cout := cout h @ s\<rparr>"

definition cleanup :: "'w nos \<Rightarrow> ('w, 'e, 'd) harness \<Rightarrow> fault + ('w, 'e, 'd) harness" where
  "cleanup env h =
     (let h = put_cout (''Performing Reboot!'' @ [NL]) h in
      bind_res (TestHarness_RebootNugget env h) (\<lambda>(_, h).
        Inr (put_cout (''Done!'' @ [NL]) h)))"

text \<open>\<open>notice_text\<close> is the text of a notice, when the bytes parse as one.\<close>

record stress_protos =
  st_ids :: message_ids
  kFullStressTest :: u16
  kFullStressResult :: u16
  st_empty :: pb_message
  st_notice_text :: "int \<Rightarrow> byte list \<Rightarrow> string option"
  APImessageID_Name :: "u16 \<Rightarrow> string"
  OneofTestResultsCase_Name :: "u16 \<Rightarrow> string"

text \<open>\<open>main\<close> returns 1, with what it has printed as an error, or waits for a signal.\<close>

datatype stress_end = Returned_1 string | Waits

text \<open>The judgement on the answer.\<close>

definition stress_answer :: "stress_protos \<Rightarrow> raw_message \<Rightarrow> fault + stress_end" where
  "stress_answer api msg =
     (if mtype msg \<noteq> id_TESTING_API_RESPONSE (st_ids api)
      then (let text = ''Unexpected received message type: '' @ APImessageID_Name api (mtype msg) @
                       '' ('' @ dec_str (unat (mtype msg)) @ '')'' @ [NL] in
            if mtype msg = id_NOTICE (st_ids api)
            then bind_res (parse_at (st_notice_text api) 0 (uint (data_len msg)) msg) (\<lambda>notice.
                   Inr (Returned_1 (case notice of None \<Rightarrow> text | Some s \<Rightarrow> text @ s)))
            else Inr (Returned_1 text))
      else if data_len msg \<noteq> 2
      then Inr (Returned_1 (''Unexpected received message length: '' @ dec_str (unat (data_len msg)) @ [NL]))
      else bind_res (read_prefix 2 (mdata msg)) (\<lambda>bs.
        let subtype = be16_of (bs ! 0) (bs ! 1) in
        if subtype \<noteq> kFullStressResult api
        then Inr (Returned_1 (''Unexpected received message sub type: '' @ OneofTestResultsCase_Name api subtype @
                              '' ('' @ dec_str (unat subtype) @ '')'' @ [NL]))
        else Inr Waits))"

definition stress_run ::
  "('w, 'e, 'd) rig \<Rightarrow> stress_protos \<Rightarrow> ('w, 'e, 'd) harness \<Rightarrow> fault + (stress_end \<times> ('w, 'e, 'd) harness)" where
  "stress_run rig api h =
     bind_res (SendOneofProto (rig_env rig) (rig_ops rig) (rig_cfg rig) (uninitialized rig 50 0)
         (id_TESTING_API_CALL (st_ids api)) (kFullStressTest api) (st_empty api)
         (put_cout (''SendOneofProto()'' @ [NL]) h)) (\<lambda>(result, h).
     if result \<noteq> NO_ERROR
     then Inr (Returned_1 (''SendOneofProto() ERROR: '' @ error_codes_name result @ [NL]), h)
     else
     bind_res (GetData (rig_ops rig) (rig_cfg rig) (uninitialized rig 61 0) MSG_TIME
         (put_cout (''GetData()'' @ [NL]) h)) (\<lambda>(e, msg, h).
     if e \<noteq> NO_ERROR
     then Inr (Returned_1 (''GetData() ERROR: '' @ error_codes_name result @ [NL]), h)
     else
     bind_res (stress_answer api msg) (\<lambda>verdict.
       Inr (verdict, if verdict = Waits then put_cout (''Waiting!'' @ [NL]) h else h))))"

text \<open>The signals that \<open>main\<close> installs handlers for, and what a handler does: it ends the
  program with a status, or it returns.\<close>

datatype stress_signal = SIGINT | SIGABRT | SIGHUP
datatype handling = Exits int | Goes_on

definition signal_handler :: handling where
  "signal_handler = Exits 0"

definition signal_ignore :: handling where
  "signal_ignore = Goes_on"

definition installed :: "stress_signal \<Rightarrow> handling" where
  "installed s = (case s of SIGINT \<Rightarrow> signal_handler | SIGABRT \<Rightarrow> signal_handler | SIGHUP \<Rightarrow> signal_ignore)"

text \<open>The waiting, on the signals that come: the status with which it ends, if it does.\<close>

fun wait_loop :: "stress_signal list \<Rightarrow> fault + int" where
  "wait_loop [] = Inl Waiting"
| "wait_loop (s # ss) = (case installed s of Exits status \<Rightarrow> Inr status | Goes_on \<Rightarrow> wait_loop ss)"

text \<open>The program's exit status. Whether \<open>main\<close> returns or a signal ends the waiting,
  \<open>cleanup\<close> runs at the exit. (Signals that come before the waiting are not modelled.)\<close>

definition stress_main ::
  "('w, 'e, 'd) rig \<Rightarrow> stress_protos \<Rightarrow> stress_signal list \<Rightarrow> ('w, 'e, 'd) harness \<Rightarrow>
   fault + (int \<times> stress_end \<times> ('w, 'e, 'd) harness)" where
  "stress_main rig api signals h =
     bind_res (stress_run rig api h) (\<lambda>(e, h).
     bind_res (case e of Returned_1 err \<Rightarrow> Inr 1 | Waits \<Rightarrow> wait_loop signals) (\<lambda>status.
     bind_res (cleanup (rig_env rig) h) (\<lambda>h. Inr (status, e, h))))"

subsection \<open>What it does\<close>

lemma put_cout_sel [simp]:
  "hclient (put_cout s h) = hclient h" "world (put_cout s h) = world h"
  by (simp_all add: put_cout_def)

lemma BlockingWrite_client: "BlockingWrite bs n h = Inr h' \<Longrightarrow> hclient h' = hclient h"
  by (auto simp: BlockingWrite_def Let_def bind_res_Inr_iff)

lemma uart_keeps_client:
  assumes "uses_ahdlc cfg"
  shows "SendData env ops cfg m h = Inr (e, h') \<Longrightarrow> hclient h' = hclient h"
    "GetData ops cfg m timeout h = Inr (e, m', h') \<Longrightarrow> hclient h' = hclient h"
proof -
  assume "SendData env ops cfg m h = Inr (e, h')"
  then have "SendAhdlc ops m h = Inr (e, h')" by (simp add: dispatch(1) [OF assms])
  then obtain good e1 where
    "(if \<not> good then Inr (TRANSPORT_ERROR, h\<lparr>encoder := e1\<rparr>)
      else bind_res (BlockingWrite (frame_buffer ops e1) (frame_index ops e1) (h\<lparr>encoder := e1\<rparr>)) (\<lambda>h. Inr (NO_ERROR, h))) =
     Inr (e, h')"
    by (auto simp: SendAhdlc_def Let_def bind_res_Inr_iff)
  then show "hclient h' = hclient h"
    by (cases good) (auto simp: bind_res_Inr_iff dest: BlockingWrite_client)
next
  assume "GetData ops cfg m timeout h = Inr (e, m', h')"
  then have "GetAhdlc ops m timeout h = Inr (e, m', h')" by (simp add: dispatch(2) [OF assms])
  then show "hclient h' = hclient h" by (auto simp: GetAhdlc_def Let_def bind_res_Inr_iff)
qed

lemma SendOneofProto_keeps_client:
  "uses_ahdlc cfg \<Longrightarrow> SendOneofProto env ops cfg m t sub p h = Inr (e, h') \<Longrightarrow> hclient h' = hclient h"
  by (auto simp: SendOneofProto_def Let_def bind_res_Inr_iff split: if_splits option.splits dest: uart_keeps_client(1))

lemma stress_run_keeps_client:
  assumes "uses_ahdlc (rig_cfg rig)" "stress_run rig api h = Inr (e, h')"
  shows "hclient h' = hclient h"
proof -
  note kept = SendOneofProto_keeps_client [OF assms(1)] uart_keeps_client(2) [OF assms(1)]
  from assms(2) obtain result h1 where
    send: "SendOneofProto (rig_env rig) (rig_ops rig) (rig_cfg rig) (uninitialized rig 50 0)
      (id_TESTING_API_CALL (st_ids api)) (kFullStressTest api) (st_empty api)
      (put_cout (''SendOneofProto()'' @ [NL]) h) = Inr (result, h1)"
    by (auto simp: stress_run_def bind_res_Inr_iff)
  show ?thesis
  proof (cases "result = NO_ERROR")
    case False
    then show ?thesis using assms(2) send kept(1) [OF send] by (simp add: stress_run_def)
  next
    case True
    with assms(2) send obtain r m h2 where
      get: "GetData (rig_ops rig) (rig_cfg rig) (uninitialized rig 61 0) MSG_TIME
        (put_cout (''GetData()'' @ [NL]) h1) = Inr (r, m, h2)"
      by (auto simp: stress_run_def bind_res_Inr_iff)
    then have "hclient h' = hclient h2"
      using assms(2) send True by (auto simp: stress_run_def bind_res_Inr_iff split: if_splits)
    with kept(1) [OF send] kept(2) [OF get] show ?thesis by simp
  qed
qed

lemma stress_answer_waits:
  "stress_answer api m = Inr Waits \<longleftrightarrow>
   mtype m = id_TESTING_API_RESPONSE (st_ids api) \<and> data_len m = 2 \<and> 2 \<le> length (mdata m) \<and>
   take 2 (mdata m) = be16 (kFullStressResult api)"
proof (cases "2 \<le> length (mdata m)")
  case True
  then obtain a b r where "mdata m = a # b # r" by (cases "mdata m"; cases "tl (mdata m)") auto
  then show ?thesis
    by (auto simp: stress_answer_def Let_def bind_res_Inr_iff read_prefix_def be16_of_eq_iff split: if_splits option.splits)
qed (auto simp: stress_answer_def Let_def bind_res_Inr_iff read_prefix_def split: if_splits option.splits)

text \<open>The waiting ends at the first signal that is not to be ignored.\<close>

lemma wait_loop_ends: "wait_loop ss = (if set ss \<subseteq> {SIGHUP} then Inl Waiting else Inr 0)"
  by (induction ss) (auto simp: installed_def signal_handler_def signal_ignore_def split: stress_signal.splits)

text \<open>How a run that has come to its end goes on: it waits for ever if only \<open>SIGHUP\<close> comes, and
  otherwise ends with \<open>cleanup\<close>, with status 1 after an error and 0 after a signal.\<close>

lemma stress_main_run:
  assumes "stress_run rig api h = Inr (e, h')"
  shows "stress_main rig api signals h =
    (if e = Waits \<and> set signals \<subseteq> {SIGHUP} then Inl Waiting
     else bind_res (cleanup (rig_env rig) h') (\<lambda>h. Inr (if e = Waits then 0 else 1, e, h)))"
proof (cases e)
  case (Returned_1 err)
  with assms show ?thesis by (simp add: stress_main_def)
next
  case Waits
  with assms show ?thesis by (simp add: stress_main_def wait_loop_ends)
qed

text \<open>C38: the stress test waits for its end exactly when the chip answers the request with nothing
  but the subtype of the stress test's result. When no answer comes, what is printed names the result
  of the sending, which is \<open>NO_ERROR\<close>, and not that of the reception. The program then waits for
  ever if no other signal than \<open>SIGHUP\<close> comes, and otherwise reboots the chip once and ends, with
  status 0 if it has waited and 1 if not; but over the UART no client is ever made, so that every such
  end calls through a null pointer in place of the reboot.\<close>

theorem stress_test_ends:
  assumes "SendOneofProto (rig_env rig) (rig_ops rig) (rig_cfg rig) (uninitialized rig 50 0)
      (id_TESTING_API_CALL (st_ids api)) (kFullStressTest api) (st_empty api)
      (put_cout (''SendOneofProto()'' @ [NL]) h) = Inr (NO_ERROR, h1)"
    and "GetData (rig_ops rig) (rig_cfg rig) (uninitialized rig 61 0) MSG_TIME
      (put_cout (''GetData()'' @ [NL]) h1) = Inr (e, m, h2)"
  shows "((\<exists>h'. stress_run rig api h = Inr (Waits, h')) \<longleftrightarrow>
      e = NO_ERROR \<and> mtype m = id_TESTING_API_RESPONSE (st_ids api) \<and> data_len m = 2 \<and> 2 \<le> length (mdata m) \<and>
      take 2 (mdata m) = be16 (kFullStressResult api)) \<and>
    (e \<noteq> NO_ERROR \<longrightarrow> stress_run rig api h = Inr (Returned_1 (''GetData() ERROR: NO_ERROR'' @ [NL]), h2)) \<and>
    (\<forall>stop h'. stress_run rig api h = Inr (stop, h') \<longrightarrow> stress_main rig api signals h =
       (if stop = Waits \<and> set signals \<subseteq> {SIGHUP} then Inl Waiting
        else if uses_ahdlc (rig_cfg rig) \<and> hclient h = None then Inl Out_of_bounds
        else bind_res (cleanup (rig_env rig) h') (\<lambda>h. Inr (if stop = Waits then 0 else 1, stop, h))))"
proof (intro conjI impI allI)
  show "(\<exists>h'. stress_run rig api h = Inr (Waits, h')) \<longleftrightarrow>
      e = NO_ERROR \<and> mtype m = id_TESTING_API_RESPONSE (st_ids api) \<and> data_len m = 2 \<and> 2 \<le> length (mdata m) \<and>
      take 2 (mdata m) = be16 (kFullStressResult api)"
    unfolding stress_answer_waits [symmetric] using assms by (simp add: stress_run_def bind_res_Inr_iff)
  show "stress_run rig api h = Inr (Returned_1 (''GetData() ERROR: NO_ERROR'' @ [NL]), h2)" if "e \<noteq> NO_ERROR"
    using assms that by (simp add: stress_run_def error_codes_name_def)
  fix stop h'
  assume run: "stress_run rig api h = Inr (stop, h')"
  have "cleanup (rig_env rig) h' = Inl Out_of_bounds" if "uses_ahdlc (rig_cfg rig)" "hclient h = None"
    using that stress_run_keeps_client [OF that(1) run] by (simp add: cleanup_def TestHarness_RebootNugget_def Let_def)
  then show "stress_main rig api signals h =
       (if stop = Waits \<and> set signals \<subseteq> {SIGHUP} then Inl Waiting
        else if uses_ahdlc (rig_cfg rig) \<and> hclient h = None then Inl Out_of_bounds
        else bind_res (cleanup (rig_env rig) h') (\<lambda>h. Inr (if stop = Waits then 0 else 1, stop, h)))"
    by (simp add: stress_main_run [OF run])
qed

text \<open>A line on which the request can be written and nothing comes back.\<close>

definition uart_rig :: "(unit, byte list, byte list \<times> bool) rig" where
  "uart_rig = \<lparr>rig_env = echo_device, rig_ops = flag_ahdlc, rig_cfg = uart_config, uninitialized = (\<lambda>_ _. message_of 0 [])\<rparr>"

definition sample_stress :: stress_protos where
  "sample_stress = \<lparr>
     st_ids = \<lparr>id_NOTICE = 1, id_SEND_SEQUENCE = 2, id_ECHO_THIS = 3, id_TESTING_API_CALL = 4,
               id_TESTING_API_RESPONSE = 5\<rparr>,
     kFullStressTest = 1, kFullStressResult = 2, st_empty = pb_of [], st_notice_text = (\<lambda>_ _. None),
     APImessageID_Name = (\<lambda>_. []), OneofTestResultsCase_Name = (\<lambda>_. [])\<rparr>"

theorem stress_test_ends_witness:
  "stress_main uart_rig sample_stress [SIGHUP]
     ((ahdlc_sample [Nothing 11] [0, 1000000000])\<lparr>tty := \<lparr>rx = [Nothing 11], wr = [Wrote 6], clk = [0, 1000000000], tx = []\<rparr>\<rparr>) =
   Inl Out_of_bounds"
proof -
  let ?h = "(ahdlc_sample [Nothing 11] [0, 1000000000])
    \<lparr>tty := \<lparr>rx = [Nothing 11], wr = [Wrote 6], clk = [0, 1000000000], tx = []\<rparr>\<rparr>"
  let ?begun = "put_cout (''SendOneofProto()'' @ [NL]) ?h"
  have empty: "st_empty sample_stress = pb_of []" "id_TESTING_API_CALL (st_ids sample_stress) = 4"
    "kFullStressTest sample_stress = 1" by (simp_all add: sample_stress_def)
  have rig: "rig_env uart_rig = echo_device" "rig_ops uart_rig = flag_ahdlc" "rig_cfg uart_rig = uart_config"
    "uninitialized uart_rig line turn = message_of 0 []" for line turn by (simp_all add: uart_rig_def)
  have uart: "uses_ahdlc uart_config" by (simp add: uses_ahdlc_def uart_config_def)
  obtain m where m: "SendOneofProto echo_device flag_ahdlc uart_config (message_of 0 []) 4 1 (pb_of []) ?begun =
      SendData echo_device flag_ahdlc uart_config m ?begun" "mtype m = 4" "payload m = be16 1 @ []" "sendable m"
    using SendOneofProto_fits [of "[]" "message_of 0 []" echo_device flag_ahdlc uart_config 4 1 ?begun]
    by (metis message_of_nil_wf le0 list.size(3))
  have "read_prefix (unat (data_len m)) (mdata m) = Inr [0, 1]"
    using m(3,4) by (simp add: sendable_def message_wf_def payload_def fault_simps be16_def)
  then obtain h1 where send: "SendAhdlc flag_ahdlc m ?begun = Inr (NO_ERROR, h1)"
    and h1: "tty h1 = \<lparr>rx = [Nothing 11], wr = [], clk = [0, 1000000000], tx = [0, 4, 0, 1, 0, 126]\<rparr>"
      "decoder h1 = ([], False)"
    using m(2) by (simp add: SendAhdlc_def encode_message_def Let_def flag_ahdlc_def BlockingWrite_def fault_simps
        ahdlc_sample_def sample_harness_def print_at_def put_cout_def)
  have "\<exists>h2. GetAhdlc flag_ahdlc (message_of 0 []) MSG_TIME (put_cout (''GetData()'' @ [NL]) h1) =
      Inr (TIMEOUT, message_of 0 [], h2)"
    using h1 by (simp add: GetAhdlc_def Let_def get_loop.simps elapsed_us_def signed_divide_int_def BYTE_TIME_def put_cout_def)
  then obtain h2 where get: "GetAhdlc flag_ahdlc (message_of 0 []) MSG_TIME (put_cout (''GetData()'' @ [NL]) h1) =
      Inr (TIMEOUT, message_of 0 [], h2)" by blast
  have "SendOneofProto (rig_env uart_rig) (rig_ops uart_rig) (rig_cfg uart_rig) (uninitialized uart_rig 50 0)
      (id_TESTING_API_CALL (st_ids sample_stress)) (kFullStressTest sample_stress) (st_empty sample_stress) ?begun =
      Inr (NO_ERROR, h1)"
    unfolding rig empty m(1) dispatch(1) [OF uart] send ..
  note ends = stress_test_ends [OF this, unfolded rig dispatch(2) [OF uart], OF get]
  moreover have "hclient ?h = None" by (simp add: ahdlc_sample_def sample_harness_def)
  moreover obtain err where "stress_run uart_rig sample_stress ?h = Inr (Returned_1 err, h2)" using ends by simp
  ultimately show ?thesis using uart by (simp add: rig)
qed

end
