(* ===== verification/AvbTests.thy ===== *)
theory AvbTests
  imports Fixture Scripts
begin

text \<open>
  \<open>src/avb_tests.cc\<close>, all but its signed resets, which are in \<open>AvbReset\<close>: the tests of the locks,
  of production mode and of the rollback counters of the verified boot application. The generated
  service is a parameter, and so are the constants of \<open>avb.h\<close>.
\<close>

subsection \<open>The service\<close>

datatype avb_lock = BOOT | CARRIER | DEVICE | OWNER

record carrier_unlock =
  unlock_nonce :: u64
  unlock_version :: u64
  unlock_signature :: "byte list"

record carrier_lock_test_request =
  last_nonce :: u64
  test_version :: u64
  test_device_data :: "byte list"
  test_token :: carrier_unlock

record production_reset_test_request =
  prt_selector :: u32
  prt_nonce :: u64
  prt_signature :: "byte list option"
  prt_device_data :: "byte list option"

record 'w avb_calls =
  ac_Load :: "client \<Rightarrow> byte \<Rightarrow> 'w \<Rightarrow> int \<times> u64 \<times> 'w"
  ac_Store :: "client \<Rightarrow> byte \<Rightarrow> u64 \<Rightarrow> 'w \<Rightarrow> int \<times> 'w"
  ac_SetDeviceLock :: "client \<Rightarrow> byte \<Rightarrow> 'w \<Rightarrow> int \<times> 'w"
  ac_SetBootLock :: "client \<Rightarrow> byte \<Rightarrow> 'w \<Rightarrow> int \<times> 'w"
  ac_SetOwnerLock :: "client \<Rightarrow> byte \<Rightarrow> byte list option \<Rightarrow> 'w \<Rightarrow> int \<times> 'w"
  ac_GetOwnerKey :: "client \<Rightarrow> u32 \<Rightarrow> nat option \<Rightarrow> 'w \<Rightarrow> int \<times> byte list \<times> 'w"
  ac_CarrierLock :: "client \<Rightarrow> byte \<Rightarrow> byte list option \<Rightarrow> 'w \<Rightarrow> int \<times> 'w"
  ac_CarrierLockTest :: "client \<Rightarrow> carrier_lock_test_request \<Rightarrow> 'w \<Rightarrow> int \<times> 'w"
  ac_ProductionResetTest :: "client \<Rightarrow> production_reset_test_request \<Rightarrow> 'w \<Rightarrow> int \<times> 'w"
  AVB_METADATA_MAX_SIZE :: nat
  AVB_CHUNK_MAX_SIZE :: nat
  lock_index :: "avb_lock \<Rightarrow> nat"
  APP_ERROR_AVB_AUTHORIZATION :: int
  APP_ERROR_AVB_HLOS :: int
  APP_ERROR_AVB_DENIED :: int
  APP_ERROR_AVB_BOOTLOADER :: int

abbreviation AVB_TESTS :: string where "AVB_TESTS \<equiv> ''avb_tests.cc''"

text \<open>Everything a test runs against; \<open>ar_junk\<close> is what \<open>ResetProduction\<close> finds in its own
  uninitialized variable.\<close>

record 'w avb_rig =
  ar_env :: "'w nos"
  ar_avb :: "'w avb"
  ar_calls :: "'w avb_calls"
  ar_client :: client
  ar_junk :: bool

text \<open>The local variables of the tests that outlive a call: \<open>bootloader\<close>, \<open>production\<close>, \<open>locks\<close> and
  \<open>value\<close>. A test runs on them and the world.\<close>

record avb_vars =
  var_bootloader :: bool
  var_production :: bool
  var_locks :: "byte list"
  var_value :: u64

record 'w avb_run =
  run_world :: 'w
  run_vars :: avb_vars

subsection \<open>Constants\<close>

definition LAST_NONCE :: u64 where "LAST_NONCE = 0x4141414141414140"
definition VERSION :: u64 where "VERSION = 1"
definition NONCE :: u64 where "NONCE = 0x4141414141414141"

text \<open>Arrays whose size is a constant of \<open>avb.h\<close>; what the initializer does not give is zero.\<close>

definition DEVICE_DATA :: "'w avb_rig \<Rightarrow> byte list" where
  "DEVICE_DATA rig = replicate 32 0x42 @ replicate (avb_device_data_size (ar_avb rig) - 32) 0"

definition SIGNATURE_bytes :: "byte list" where
  "SIGNATURE_bytes =
   [0x68, 0x86, 0x9a, 0x16, 0xca, 0x62, 0xea, 0xa9, 0x9b, 0xa0, 0x51, 0x03, 0xa6, 0x00, 0x3f, 0xe8,
    0xf1, 0x43, 0xe6, 0xb7, 0xde, 0x76, 0xfe, 0x21, 0x65, 0x87, 0x78, 0xe5, 0x1d, 0x11, 0x6a, 0xe1,
    0x7b, 0xc6, 0x2e, 0xe2, 0x96, 0x25, 0x48, 0xa7, 0x09, 0x43, 0x2c, 0xfd, 0x28, 0xa9, 0x66, 0x8a,
    0x09, 0xd5, 0x83, 0x3b, 0xde, 0x18, 0x5d, 0xef, 0x50, 0x12, 0x8a, 0x8d, 0xfb, 0x2d, 0x46, 0x20,
    0x69, 0x55, 0x4e, 0x86, 0x63, 0xf6, 0x10, 0xe3, 0x59, 0x3f, 0x55, 0x72, 0x18, 0xcb, 0x60, 0x80,
    0x0d, 0x2e, 0x2f, 0xfc, 0xc2, 0xbf, 0xda, 0x3f, 0x4f, 0x2b, 0x6b, 0xf1, 0x5d, 0x28, 0x6b, 0x2b,
    0x9b, 0x92, 0xf3, 0x4e, 0xf2, 0xb6, 0x23, 0x8e, 0x50, 0x64, 0xf6, 0xee, 0xc7, 0x78, 0x6a, 0xe0,
    0xed, 0xce, 0x2c, 0x1f, 0x0a, 0x47, 0x43, 0x5c, 0xe4, 0x69, 0xc5, 0xc1, 0xf9, 0x52, 0x8c, 0xed,
    0xfd, 0x71, 0x8f, 0x9a, 0xde, 0x62, 0xfc, 0x21, 0x07, 0xf9, 0x5f, 0xe1, 0x1e, 0xdc, 0x65, 0x95,
    0x15, 0xc8, 0xe7, 0xf2, 0xce, 0xa9, 0xd0, 0x55, 0xf1, 0x18, 0x89, 0xae, 0xe8, 0x47, 0xd8, 0x8a,
    0x1f, 0x68, 0xa8, 0x6f, 0x5e, 0x5c, 0xda, 0x3d, 0x98, 0xeb, 0x82, 0xf8, 0x1f, 0x7a, 0x43, 0x6d,
    0x3a, 0x7c, 0x36, 0x76, 0x4f, 0x55, 0xa4, 0x55, 0x5f, 0x52, 0x47, 0xa5, 0x71, 0x17, 0x7b, 0x73,
    0xaa, 0x5c, 0x85, 0x94, 0xb6, 0xe2, 0x37, 0x1f, 0x22, 0x29, 0x46, 0x59, 0x20, 0x1f, 0x49, 0x36,
    0x50, 0xa9, 0x60, 0x5d, 0xeb, 0x99, 0x3f, 0x92, 0x31, 0xa0, 0x1d, 0xad, 0xdb, 0xde, 0x40, 0xf6,
    0xaf, 0x9c, 0x36, 0xe4, 0x0c, 0xf4, 0xcc, 0xaf, 0x9f, 0x8b, 0xf9, 0xe6, 0x12, 0x53, 0x4e, 0x58,
    0xeb, 0x9a, 0x57, 0x08, 0x89, 0xa5, 0x4f, 0x7c, 0xb9, 0x78, 0x07, 0x02, 0x17, 0x2c, 0xce, 0xb8]"

definition SIGNATURE :: "'w avb_rig \<Rightarrow> byte list" where
  "SIGNATURE rig = SIGNATURE_bytes @ replicate (avb_signature_size (ar_avb rig) - 256) 0"

subsection \<open>Calls\<close>

text \<open>A field of type \<open>bytes\<close> set from a pointer and a size, unless either is null.\<close>

definition optional_field :: "byte list option \<Rightarrow> nat \<Rightarrow> fault + byte list option" where
  "optional_field data sz =
     (case data of
        Some bs \<Rightarrow> if 0 < sz then bind_res (read_prefix sz bs) (\<lambda>bs. Inr (Some bs)) else Inr None
      | None \<Rightarrow> Inr None)"

definition Load :: "'w avb_rig \<Rightarrow> byte \<Rightarrow> u64 \<Rightarrow> 'w \<Rightarrow> (int \<times> u64) \<times> 'w" where
  "Load rig slot version w =
     (let (code, response, w) = ac_Load (ar_calls rig) (ar_client rig) slot w in
      ((code, if code = APP_SUCCESS then response else version), w))"

definition Store :: "'w avb_rig \<Rightarrow> byte \<Rightarrow> u64 \<Rightarrow> 'w \<Rightarrow> fault + (int \<times> 'w)" where
  "Store rig slot version w = Inr (ac_Store (ar_calls rig) (ar_client rig) slot version w)"

definition SetDeviceLock :: "'w avb_rig \<Rightarrow> byte \<Rightarrow> 'w \<Rightarrow> fault + (int \<times> 'w)" where
  "SetDeviceLock rig locked w = Inr (ac_SetDeviceLock (ar_calls rig) (ar_client rig) locked w)"

definition SetBootLock :: "'w avb_rig \<Rightarrow> byte \<Rightarrow> 'w \<Rightarrow> fault + (int \<times> 'w)" where
  "SetBootLock rig locked w = Inr (ac_SetBootLock (ar_calls rig) (ar_client rig) locked w)"

definition SetOwnerLock ::
  "'w avb_rig \<Rightarrow> byte \<Rightarrow> byte list option \<Rightarrow> nat \<Rightarrow> 'w \<Rightarrow> fault + (int \<times> 'w)" where
  "SetOwnerLock rig locked metadata sz w =
     bind_res (optional_field metadata sz) (\<lambda>key.
       Inr (ac_SetOwnerLock (ar_calls rig) (ar_client rig) locked key w))"

definition SetCarrierLock ::
  "'w avb_rig \<Rightarrow> byte \<Rightarrow> byte list option \<Rightarrow> nat \<Rightarrow> 'w \<Rightarrow> fault + (int \<times> 'w)" where
  "SetCarrierLock rig locked metadata sz w =
     bind_res (optional_field metadata sz) (\<lambda>data.
       Inr (ac_CarrierLock (ar_calls rig) (ar_client rig) locked data w))"

text \<open>The outcome: the code, and the contents of \<open>metadata\<close> and \<open>*size\<close>. The chunk is copied
  without a look at the room there is.\<close>

definition GetOwnerKey ::
  "'w avb_rig \<Rightarrow> u32 \<Rightarrow> byte list option \<Rightarrow> nat option \<Rightarrow> 'w \<Rightarrow>
   fault + ((int \<times> byte list option \<times> nat option) \<times> 'w)" where
  "GetOwnerKey rig offset metadata sz w =
     (let (code, chunk, w) = ac_GetOwnerKey (ar_calls rig) (ar_client rig) offset sz w in
      if code \<noteq> APP_SUCCESS then Inr ((code, metadata, sz), w)
      else
        bind_res (case metadata of
                    None \<Rightarrow> Inr None
                  | Some dst \<Rightarrow> bind_res (write_at 0 chunk dst) (\<lambda>dst. Inr (Some dst)))
          (\<lambda>metadata. Inr ((code, metadata, map_option (\<lambda>_. length chunk) sz), w)))"

definition ProductionResetTest ::
  "'w avb_rig \<Rightarrow> u32 \<Rightarrow> u64 \<Rightarrow> byte list option \<Rightarrow> nat \<Rightarrow> byte list option \<Rightarrow> nat \<Rightarrow> 'w \<Rightarrow>
   fault + (int \<times> 'w)" where
  "ProductionResetTest rig selector nonce device_data dlen signature signature_len w =
     bind_res (optional_field signature signature_len) (\<lambda>sig.
     bind_res (optional_field device_data dlen) (\<lambda>data.
       Inr (ac_ProductionResetTest (ar_calls rig) (ar_client rig)
         \<lparr>prt_selector = selector, prt_nonce = nonce, prt_signature = sig, prt_device_data = data\<rparr> w)))"

subsection \<open>Statements of the tests\<close>

text \<open>Statements that only touch the world, or only look at the variables.\<close>

definition on_world :: "('w, 'a) proc \<Rightarrow> ('w avb_run, 'a) proc" where
  "on_world p s =
     bind_res (p \<lparr>tworld = run_world (tworld s), failed = failed s\<rparr>) (\<lambda>(r, s').
       Inr (r, \<lparr>tworld = (tworld s)\<lparr>run_world := tworld s'\<rparr>, failed = failed s'\<rparr>))"

definition look :: "(avb_vars \<Rightarrow> ('w avb_run, 'a) proc) \<Rightarrow> ('w avb_run, 'a) proc" where
  "look f s = f (run_vars (tworld s)) s"

definition change :: "(avb_vars \<Rightarrow> avb_vars) \<Rightarrow> ('w avb_run, unit) proc" where
  "change f = act (\<lambda>v. ((), v\<lparr>run_vars := f (run_vars v)\<rparr>))"

text \<open>A call whose code is asserted; \<open>ASSERT_NO_ERROR\<close> asserts \<open>APP_SUCCESS\<close>.\<close>

definition answers :: "nat \<Rightarrow> ('w \<Rightarrow> fault + (int \<times> 'w)) \<Rightarrow> int \<Rightarrow> ('w avb_run, unit) proc" where
  "answers line call code =
     on_world (and_then (attempt call) (\<lambda>value. ASSERT AVB_TESTS line (value = code)))"

abbreviation gives_success :: "nat \<Rightarrow> ('w \<Rightarrow> fault + (int \<times> 'w)) \<Rightarrow> ('w avb_run, unit) proc" where
  "gives_success line call \<equiv> answers line call APP_SUCCESS"

text \<open>\<open>GetState\<close> with the addresses of those variables that are wanted.\<close>

definition query :: "'w avb_rig \<Rightarrow> bool \<Rightarrow> bool \<Rightarrow> bool \<Rightarrow> ('w avb_run, unit) proc" where
  "query rig b p l = look (\<lambda>v.
     and_then (on_world (GetState (ar_avb rig) (ar_client rig)
         (if b then Some (var_bootloader v) else None) (if p then Some (var_production v) else None)
         (if l then Some (var_locks v) else None)))
       (\<lambda>(b', p', l').
          change (\<lambda>v. v\<lparr>var_bootloader := (case b' of None \<Rightarrow> var_bootloader v | Some x \<Rightarrow> x),
                        var_production := (case p' of None \<Rightarrow> var_production v | Some x \<Rightarrow> x),
                        var_locks := (case l' of None \<Rightarrow> var_locks v | Some x \<Rightarrow> x)\<rparr>)))"

text \<open>\<open>GetState\<close> followed by checks on what it wrote, in the order of the variables, each with its
  line. Only the variables that are checked are passed.\<close>

definition check_state ::
  "'w avb_rig \<Rightarrow> (nat \<Rightarrow> bool \<Rightarrow> ('w avb_run, unit) proc) \<Rightarrow> (nat \<times> bool) option \<Rightarrow> (nat \<times> bool) option \<Rightarrow>
   (nat \<times> avb_lock \<times> byte) list \<Rightarrow> ('w avb_run, unit) proc" where
  "check_state rig check b p ls = block
     ([query rig (b \<noteq> None) (p \<noteq> None) (ls \<noteq> [])] @
      (case b of None \<Rightarrow> [] | Some (line, x) \<Rightarrow> [look (\<lambda>v. check line (var_bootloader v = x))]) @
      (case p of None \<Rightarrow> [] | Some (line, x) \<Rightarrow> [look (\<lambda>v. check line (var_production v = x))]) @
      map (\<lambda>(line, l, x). look (\<lambda>v.
             and_then (in_bounds (lock_index (ar_calls rig) l < length (var_locks v))) (\<lambda>_.
               check line (var_locks v ! lock_index (ar_calls rig) l = x)))) ls)"

abbreviation assert_state ::
  "'w avb_rig \<Rightarrow> (nat \<times> bool) option \<Rightarrow> (nat \<times> bool) option \<Rightarrow> (nat \<times> avb_lock \<times> byte) list \<Rightarrow>
   ('w avb_run, unit) proc" where
  "assert_state rig \<equiv> check_state rig (ASSERT AVB_TESTS)"

abbreviation expect_state ::
  "'w avb_rig \<Rightarrow> (nat \<times> bool) option \<Rightarrow> (nat \<times> bool) option \<Rightarrow> (nat \<times> avb_lock \<times> byte) list \<Rightarrow>
   ('w avb_run, unit) proc" where
  "expect_state rig \<equiv> check_state rig (EXPECT AVB_TESTS)"

definition set_bootloader :: "'w avb_rig \<Rightarrow> ('w avb_run, unit) proc" where
  "set_bootloader rig = on_world (invoke (SetBootloader (ar_env rig) (ar_client rig)))"

definition bootloader_done :: "'w avb_rig \<Rightarrow> ('w avb_run, unit) proc" where
  "bootloader_done rig = on_world (invoke (BootloaderDone (ar_avb rig) (ar_client rig)))"

definition reset_production :: "'w avb_rig \<Rightarrow> ('w avb_run, unit) proc" where
  "reset_production rig = on_world (invoke (ResetProduction (ar_avb rig) (ar_client rig) (ar_junk rig)))"

definition wipe_data :: "'w avb_rig \<Rightarrow> nat \<Rightarrow> ('w avb_run, unit) proc" where
  "wipe_data rig line =
     on_world (and_then (attempt (WipeUserData (ar_env rig) (ar_client rig))) (ASSERT AVB_TESTS line))"

abbreviation reset_locks :: "'w avb_rig \<Rightarrow> 'w \<Rightarrow> fault + (int \<times> 'w)" where
  "reset_locks rig \<equiv> Reset (ar_avb rig) (ar_client rig) LOCKS None 0"

abbreviation go_production :: "'w avb_rig \<Rightarrow> bool \<Rightarrow> 'w \<Rightarrow> fault + (int \<times> 'w)" where
  "go_production rig b \<equiv> SetProduction (ar_avb rig) (ar_client rig) b None 0"

abbreviation device_data_lock :: "'w avb_rig \<Rightarrow> byte \<Rightarrow> 'w \<Rightarrow> fault + (int \<times> 'w)" where
  "device_data_lock rig locked \<equiv> SetCarrierLock rig locked (Some (DEVICE_DATA rig)) (length (DEVICE_DATA rig))"


subsection \<open>The fixture\<close>

definition Avb_SetUpTestCase ::
  "'w nos \<Rightarrow> config \<Rightarrow> fault + 'p \<Rightarrow> (('w, 'p) fixture, unit) proc" where
  "Avb_SetUpTestCase env cfg printer = connect env cfg printer AVB_TESTS 105"

definition Avb_TearDownTestCase :: "'w nos \<Rightarrow> (('w, 'p) fixture, unit) proc" where
  "Avb_TearDownTestCase env = disconnect env"

definition AvbTest_SetUp :: "'w avb_rig \<Rightarrow> ('w avb_run, unit) proc" where
  "AvbTest_SetUp rig = block
     [bootloader_done rig,
      reset_production rig,
      gives_success 131 (reset_locks rig),
      expect_state rig (Some (134, False)) (Some (135, False))
        [(136, BOOT, 0), (137, CARRIER, 0), (138, DEVICE, 0), (139, OWNER, 0)]]"

subsection \<open>The tests of the locks\<close>

definition CarrierLockTest :: "'w avb_rig \<Rightarrow> ('w avb_run, unit) proc" where
  "CarrierLockTest rig =
     (let carrier_data = replicate (avb_device_data_size (ar_avb rig)) 0 in block
     [gives_success 351 (SetCarrierLock rig 0x12 (Some carrier_data) (length carrier_data)),
      assert_state rig None None [(354, CARRIER, 0x12)],
      gives_success 357 (SetCarrierLock rig 0 None 0),
      set_bootloader rig,
      gives_success 362 (go_production rig True),
      bootloader_done rig,
      answers 367 (SetCarrierLock rig 0x12 (Some carrier_data) (length carrier_data))
        (APP_ERROR_AVB_AUTHORIZATION (ar_calls rig)),
      assert_state rig None None [(370, CARRIER, 0)],
      answers 373 (SetCarrierLock rig 0 None 0) (APP_ERROR_AVB_AUTHORIZATION (ar_calls rig))])"

text \<open>The request owns the token once it is set, so the later change is one of the request.\<close>

definition carrier_request :: "'w avb_rig \<Rightarrow> carrier_lock_test_request" where
  "carrier_request rig =
     \<lparr>last_nonce = LAST_NONCE, test_version = VERSION, test_device_data = DEVICE_DATA rig,
      test_token = \<lparr>unlock_nonce = NONCE, unlock_version = VERSION, unlock_signature = SIGNATURE rig\<rparr>\<rparr>"

definition carrier_call :: "'w avb_rig \<Rightarrow> carrier_lock_test_request \<Rightarrow> 'w \<Rightarrow> fault + (int \<times> 'w)" where
  "carrier_call rig rq w = Inr (ac_CarrierLockTest (ar_calls rig) (ar_client rig) rq w)"

definition CarrierUnlockTest :: "'w avb_rig \<Rightarrow> ('w avb_run, unit) proc" where
  "CarrierUnlockTest rig = (let rq = carrier_request rig in block
     [gives_success 393 (carrier_call rig rq),
      answers 398 (carrier_call rig (rq\<lparr>test_token := (test_token rq)\<lparr>unlock_nonce := NONCE + 1\<rparr>\<rparr>))
        (APP_ERROR_AVB_AUTHORIZATION (ar_calls rig))])"

definition DeviceLockTest :: "'w avb_rig \<Rightarrow> ('w avb_run, unit) proc" where
  "DeviceLockTest rig = block
     [set_bootloader rig,
      gives_success 411 (go_production rig True),
      answers 414 (SetDeviceLock rig 0x12) (APP_ERROR_AVB_HLOS (ar_calls rig)),
      reset_production rig,
      set_bootloader rig,
      gives_success 421 (SetDeviceLock rig 0x34),
      assert_state rig (Some (424, True)) (Some (425, False)) [(426, DEVICE, 0x34)],
      answers 430 (SetDeviceLock rig 0x56) (APP_ERROR_AVB_DENIED (ar_calls rig)),
      assert_state rig None None [(433, DEVICE, 0x34)],
      gives_success 437 (SetDeviceLock rig 0x00),
      assert_state rig None None [(440, DEVICE, 0x00)]]"

definition SetDeviceLockIsIdempotent :: "'w avb_rig \<Rightarrow> ('w avb_run, unit) proc" where
  "SetDeviceLockIsIdempotent rig = block
     [gives_success 444 (SetDeviceLock rig 0x65), gives_success 445 (SetDeviceLock rig 0x65)]"

definition BootLockTest :: "'w avb_rig \<Rightarrow> ('w avb_run, unit) proc" where
  "BootLockTest rig = block
     [gives_success 454 (go_production rig True),
      answers 458 (SetBootLock rig 0x12) (APP_ERROR_AVB_BOOTLOADER (ar_calls rig)),
      assert_state rig None None [(461, BOOT, 0x00)],
      set_bootloader rig,
      gives_success 466 (SetBootLock rig 0x12),
      assert_state rig None None [(469, BOOT, 0x12)],
      gives_success 472 (SetBootLock rig 0x0),
      assert_state rig None None [(475, BOOT, 0x00)],
      reset_production rig,
      gives_success 480 (reset_locks rig),
      gives_success 483 (device_data_lock rig 0x34),
      gives_success 486 (go_production rig True),
      set_bootloader rig,
      gives_success 491 (SetBootLock rig 0x56),
      answers 495 (SetBootLock rig 0x0) (APP_ERROR_AVB_DENIED (ar_calls rig)),
      answers 499 (SetBootLock rig 0x42) (APP_ERROR_AVB_DENIED (ar_calls rig)),
      assert_state rig None None [(502, CARRIER, 0x34), (503, BOOT, 0x56)],
      reset_production rig,
      gives_success 508 (reset_locks rig),
      gives_success 510 (go_production rig True),
      set_bootloader rig,
      answers 515 (SetDeviceLock rig 0x78) (APP_ERROR_AVB_HLOS (ar_calls rig)),
      bootloader_done rig,
      gives_success 519 (SetDeviceLock rig 0x78),
      set_bootloader rig,
      gives_success 525 (SetBootLock rig 0x9A),
      answers 529 (SetBootLock rig 0x0) (APP_ERROR_AVB_DENIED (ar_calls rig)),
      assert_state rig None None [(532, DEVICE, 0x78), (533, BOOT, 0x9A)]]"

definition SetBootLockIsIdempotent :: "'w avb_rig \<Rightarrow> ('w avb_run, unit) proc" where
  "SetBootLockIsIdempotent rig = block
     [gives_success 537 (SetBootLock rig 0x12), gives_success 538 (SetBootLock rig 0x12)]"

definition SetBootLockAfterWipingUserData :: "'w avb_rig \<Rightarrow> ('w avb_run, unit) proc" where
  "SetBootLockAfterWipingUserData rig = block
     [gives_success 543 (go_production rig True),
      set_bootloader rig,
      wipe_data rig 545,
      gives_success 546 (SetBootLock rig 0xdc)]"

definition ProductionMode :: "'w avb_rig \<Rightarrow> ('w avb_run, unit) proc" where
  "ProductionMode rig = block
     [assert_state rig None (Some (616, False)) [],
      set_bootloader rig,
      gives_success 621 (SetOwnerLock rig 0x11 None 0),
      gives_success 624 (SetBootLock rig 0x22),
      gives_success 627 (device_data_lock rig 0x33),
      gives_success 630 (SetDeviceLock rig 0x44),
      gives_success 634 (go_production rig True),
      assert_state rig None (Some (637, True))
        [(638, OWNER, 0x11), (639, BOOT, 0x22), (640, CARRIER, 0x33), (641, DEVICE, 0x44)],
      answers 645 (go_production rig False) (APP_ERROR_AVB_AUTHORIZATION (ar_calls rig)),
      bootloader_done rig,
      answers 648 (go_production rig False) (APP_ERROR_AVB_AUTHORIZATION (ar_calls rig))]"

text \<open>\<open>Reset\<close> in the source.\<close>

definition Reset_test :: "'w avb_rig \<Rightarrow> ('w avb_run, unit) proc" where
  "Reset_test rig = block
     [set_bootloader rig,
      gives_success 697 (SetBootLock rig 0x12),
      gives_success 700 (SetDeviceLock rig 0x34),
      gives_success 703 (go_production rig True),
      bootloader_done rig,
      assert_state rig (Some (708, False)) (Some (709, True)) [(710, BOOT, 0x12), (711, DEVICE, 0x34)],
      answers 715 (reset_locks rig) (APP_ERROR_AVB_DENIED (ar_calls rig)),
      assert_state rig (Some (718, False)) (Some (719, True)) [(720, BOOT, 0x12), (721, DEVICE, 0x34)],
      reset_production rig,
      gives_success 726 (reset_locks rig),
      assert_state rig (Some (729, False)) (Some (730, False)) [(731, BOOT, 0x00), (732, DEVICE, 0x00)]]"

definition WipeUserDataDoesNotLockDeviceLock :: "'w avb_rig \<Rightarrow> ('w avb_run, unit) proc" where
  "WipeUserDataDoesNotLockDeviceLock rig = block
     [gives_success 884 (SetDeviceLock rig 0x00),
      wipe_data rig 885,
      expect_state rig None None [(889, DEVICE, 0x00)]]"

subsection \<open>Rollback counters\<close>

text \<open>\<open>Load\<close> into \<open>value\<close>, and the two assertions after it.\<close>

definition load_value :: "'w avb_rig \<Rightarrow> byte \<Rightarrow> nat \<Rightarrow> nat \<Rightarrow> u64 \<Rightarrow> ('w avb_run, unit) proc" where
  "load_value rig slot line line' expected = look (\<lambda>v.
     and_then (on_world (act (Load rig slot (var_value v)))) (\<lambda>(code, version).
     and_then (change (\<lambda>v. v\<lparr>var_value := version\<rparr>)) (\<lambda>_.
     and_then (ASSERT AVB_TESTS line (code = APP_SUCCESS)) (\<lambda>_.
       look (\<lambda>v. ASSERT AVB_TESTS line' (var_value v = expected))))))"

definition Rollback :: "'w avb_rig \<Rightarrow> ('w avb_run, unit) proc" where
  "Rollback rig = block
     [change (\<lambda>v. v\<lparr>var_value := - 1\<rparr>),
      gives_success 658 (go_production rig True),
      for_each [0..<8] (\<lambda>i. block
        [answers 661 (Store rig (of_nat i) (0xFF00000011223344 + of_nat i)) (APP_ERROR_AVB_BOOTLOADER (ar_calls rig)),
         load_value rig (of_nat i) 664 665 0]),
      set_bootloader rig,
      for_each [0..<8] (\<lambda>i. block
        [gives_success 672 (Store rig (of_nat i) (0xFF00000011223344 + of_nat i)),
         load_value rig (of_nat i) 675 676 (0xFF00000011223344 + of_nat i),
         gives_success 679 (Store rig (of_nat i) (0x8800000011223344 - of_nat i)),
         load_value rig (of_nat i) 682 683 (0x8800000011223344 - of_nat i)])]"


subsection \<open>The owner lock\<close>

text \<open>The owner's key is filled two bytes at a time. It is read back in chunks; what a chunk's array
  holds before does not matter, as a reply that does not fill it fails the next assertion. Arrays
  have at least one element.\<close>

fun fill_key :: "nat list \<Rightarrow> byte list \<Rightarrow> fault + byte list" where
  "fill_key [] key = Inr key"
| "fill_key (i # is) key =
     bind_res (write_at i [of_nat (i div 256), of_nat (i div 256)] key) (fill_key is)"

definition owner_key :: "'w avb_rig \<Rightarrow> fault + byte list" where
  "owner_key rig =
     (let n = AVB_METADATA_MAX_SIZE (ar_calls rig) in fill_key (filter even [0..<n]) (replicate n 0))"

definition chunk_offsets :: "'w avb_rig \<Rightarrow> nat list" where
  "chunk_offsets rig =
     (let n = AVB_METADATA_MAX_SIZE (ar_calls rig); k = AVB_CHUNK_MAX_SIZE (ar_calls rig)
      in map (\<lambda>i. i * k) [0..<(n + k - 1) div k])"

definition read_chunk :: "'w avb_rig \<Rightarrow> byte list \<Rightarrow> nat \<Rightarrow> ('w avb_run, unit) proc" where
  "read_chunk rig key i =
     (let n = AVB_CHUNK_MAX_SIZE (ar_calls rig) in
      and_then (on_world (attempt (GetOwnerKey rig (of_nat i) (Some (replicate n 0)) (Some n)))) (\<lambda>(code, chunk, sz).
      and_then (ASSERT AVB_TESTS 574 (code = APP_SUCCESS)) (\<lambda>_.
      and_then (ASSERT AVB_TESTS 575 (sz = Some n)) (\<lambda>_.
        for_each [0..<n] (\<lambda>j.
          and_then (in_bounds (i + j < length key)) (\<lambda>_.
            ASSERT AVB_TESTS 577 (the chunk ! j = key ! (i + j))))))))"

definition owner_lock_body :: "'w avb_rig \<Rightarrow> byte list \<Rightarrow> ('w avb_run, unit) proc" where
  "owner_lock_body rig key = block
     [gives_success 564 (SetOwnerLock rig 0x65 (Some key) (length key)),
      assert_state rig None None [(567, OWNER, 0x65)],
      for_each (chunk_offsets rig) (read_chunk rig key),
      answers 583 (SetOwnerLock rig 0x87 (Some key) (length key)) (APP_ERROR_AVB_DENIED (ar_calls rig)),
      assert_state rig None None [(586, OWNER, 0x65)],
      gives_success 590 (SetOwnerLock rig 0x00 (Some key) (length key)),
      assert_state rig None None [(593, OWNER, 0x00)],
      set_bootloader rig,
      gives_success 598 (SetBootLock rig 0x43),
      assert_state rig None None [(601, BOOT, 0x43)],
      answers 605 (SetOwnerLock rig 0x21 (Some key) (length key)) (APP_ERROR_AVB_DENIED (ar_calls rig))]"

definition OwnerLockTest :: "'w avb_rig \<Rightarrow> ('w avb_run, unit) proc" where
  "OwnerLockTest rig =
     and_then (attempt (\<lambda>v. bind_res (owner_key rig) (\<lambda>key. Inr (key, v)))) (owner_lock_body rig)"

subsection \<open>Steps\<close>

text \<open>What the tests ask of the application, one call at a time.\<close>

datatype avb_call =
    Device_lock byte
  | Boot_lock byte
  | Owner_lock byte "byte list option"
  | Carrier_lock byte "byte list option"
  | Carrier_test carrier_lock_test_request
  | Production bool
  | Reset_locks
  | Stores byte u64

fun ask :: "'w avb_rig \<Rightarrow> avb_call \<Rightarrow> 'w \<Rightarrow> int \<times> 'w" where
  "ask rig (Device_lock b) = ac_SetDeviceLock (ar_calls rig) (ar_client rig) b"
| "ask rig (Boot_lock b) = ac_SetBootLock (ar_calls rig) (ar_client rig) b"
| "ask rig (Owner_lock b key) = ac_SetOwnerLock (ar_calls rig) (ar_client rig) b key"
| "ask rig (Carrier_lock b data) = ac_CarrierLock (ar_calls rig) (ar_client rig) b data"
| "ask rig (Carrier_test rq) = ac_CarrierLockTest (ar_calls rig) (ar_client rig) rq"
| "ask rig (Production b) = avb_SetProduction (ar_avb rig) (ar_client rig)
     \<lparr>set_production = b,
      production_data = (if b then Some (replicate (avb_device_data_size (ar_avb rig)) 0) else None)\<rparr>"
| "ask rig Reset_locks = avb_Reset (ar_avb rig) (ar_client rig)
     \<lparr>kind = LOCKS, token_selector = CURRENT, token_signature = replicate (avb_signature_size (ar_avb rig)) 0\<rparr>"
| "ask rig (Stores slot version) = ac_Store (ar_calls rig) (ar_client rig) slot version"

text \<open>The state that is to be reported has the bootloader and production flags that are given and
  the locks that are listed. A reply with fewer than four locks leaves the last ones of the array as
  they were, and those are what is compared.\<close>

datatype avb_step =
    Answers avb_call int
  | Boot_mode
  | Boot_done
  | Resets_production
  | Wipes_data
  | Reports "bool option" "bool option" "(avb_lock \<times> byte) list"
  | Gives_key nat "byte list"
  | Presets u64
  | Loads byte u64

fun moves :: "'w avb_rig \<Rightarrow> avb_step \<Rightarrow> 'w \<Rightarrow> 'w \<Rightarrow> bool" where
  "moves rig (Answers call code) w w' \<longleftrightarrow> ask rig call w = (code, w')"
| "moves rig Boot_mode w w' \<longleftrightarrow>
     (\<exists>reply. call_app (ar_env rig) (ar_client rig) APP_ID_AVB_TEST (Param 0) [] (Some vec_empty) w = (APP_SUCCESS, reply, w'))"
| "moves rig Boot_done w w' \<longleftrightarrow> avb_BootloaderDone (ar_avb rig) (ar_client rig) w = (APP_SUCCESS, w')"
| "moves rig Resets_production w w' \<longleftrightarrow> left_production (ar_avb rig) (ar_client rig) w w'"
| "moves rig Wipes_data w w' \<longleftrightarrow> WipeUserData (ar_env rig) (ar_client rig) w = Inr (True, w')"
| "moves rig (Gives_key i bs) w w' \<longleftrightarrow>
     ac_GetOwnerKey (ar_calls rig) (ar_client rig) (of_nat i) (Some (AVB_CHUNK_MAX_SIZE (ar_calls rig))) w =
       (APP_SUCCESS, bs, w') \<and> length bs = AVB_CHUNK_MAX_SIZE (ar_calls rig)"
| "moves rig _ w w' \<longleftrightarrow> False"

definition reported :: "get_state_response \<Rightarrow> bool \<Rightarrow> bool \<Rightarrow> bool \<Rightarrow> avb_vars \<Rightarrow> avb_vars" where
  "reported r b p l vs = vs
     \<lparr>var_bootloader := (if b then bootloader r else var_bootloader vs),
      var_production := (if p then production r else var_production vs),
      var_locks := (if l then locks r @ drop (length (locks r)) (var_locks vs) else var_locks vs)\<rparr>"

definition lock_reads :: "'w avb_rig \<Rightarrow> byte list \<Rightarrow> avb_lock \<times> byte \<Rightarrow> bool" where
  "lock_reads rig lks = (\<lambda>(l, x).
     lock_index (ar_calls rig) l < length lks \<and> lks ! lock_index (ar_calls rig) l = x)"

fun gives :: "'w avb_rig \<Rightarrow> avb_step \<Rightarrow> 'w avb_run \<Rightarrow> 'w avb_run \<Rightarrow> bool" where
  "gives rig (Reports b p ls) v v' \<longleftrightarrow>
     (\<exists>r w'. avb_GetState (ar_avb rig) (ar_client rig) (run_world v) = (APP_SUCCESS, r, w') \<and>
        number_of_locks r = 4 \<and> (ls \<noteq> [] \<longrightarrow> length (locks r) \<le> length (var_locks (run_vars v))) \<and>
        v' = \<lparr>run_world = w', run_vars = reported r (b \<noteq> None) (p \<noteq> None) (ls \<noteq> []) (run_vars v)\<rparr> \<and>
        b \<in> {None, Some (bootloader r)} \<and> p \<in> {None, Some (production r)} \<and>
        list_all (lock_reads rig (var_locks (run_vars v'))) ls)"
| "gives rig (Presets x) v v' \<longleftrightarrow> v' = v\<lparr>run_vars := (run_vars v)\<lparr>var_value := x\<rparr>\<rparr>"
| "gives rig (Loads slot x) v v' \<longleftrightarrow>
     (\<exists>w'. ac_Load (ar_calls rig) (ar_client rig) slot (run_world v) = (APP_SUCCESS, x, w') \<and>
        v' = \<lparr>run_world = w', run_vars = (run_vars v)\<lparr>var_value := x\<rparr>\<rparr>)"
| "gives rig s v v' \<longleftrightarrow> (\<exists>w'. moves rig s (run_world v) w' \<and> v' = v\<lparr>run_world := w'\<rparr>)"


subsection \<open>Statements and steps\<close>

lemma run_eq: "v = \<lparr>run_world = run_world v, run_vars = run_vars v\<rparr>"
  by simp

lemma records_on_world [simp, records_intros]:
  assumes "records p"
  shows "records (on_world p)"
  unfolding records_def by (auto simp: on_world_def bind_res_Inr_iff dest!: recordsD [OF assms])

lemma passed_on_world [passed_simps]:
  "passed (on_world p) v x v' \<longleftrightarrow> (\<exists>w'. passed p (run_world v) x w' \<and> v' = v\<lparr>run_world := w'\<rparr>)"
proof -
  have "\<lparr>tworld = w, failed = []\<rparr> = fresh w" for w :: 'a by (simp add: fresh_def)
  then show ?thesis
    by (auto simp: passed_def on_world_def bind_res_Inr_iff fresh_def)
      (metis tst.surjective unit.exhaust)
qed

lemma records_look [simp, records_intros]: "(\<And>v. records (f v)) \<Longrightarrow> records (look f)"
  by (simp add: records_def look_def)

lemma passed_look [passed_simps]: "passed (look f) v x v' \<longleftrightarrow> passed (f (run_vars v)) v x v'"
  by (simp add: passed_def look_def)

lemma records_change [simp, records_intros]: "records (change f)"
  by (simp add: change_def)

lemma passed_change [passed_simps]:
  "passed (change f) v x v' \<longleftrightarrow> v' = v\<lparr>run_vars := f (run_vars v)\<rparr>"
  by (auto simp: change_def passed_basic)

lemma records_query [simp, records_intros]: "records (query rig b p l)"
  unfolding query_def by (intro records_intros)

lemma passed_query:
  "passed (query rig b p l) v u v' \<longleftrightarrow>
    (\<exists>r w'. avb_GetState (ar_avb rig) (ar_client rig) (run_world v) = (APP_SUCCESS, r, w') \<and>
       number_of_locks r = 4 \<and> (l \<longrightarrow> length (locks r) \<le> length (var_locks (run_vars v))) \<and>
       v' = \<lparr>run_world = w', run_vars = reported r b p l (run_vars v)\<rparr>)"
  by (cases v; cases b; cases p; cases l)
    (auto simp: query_def passed_simps passed_GetState reported_def)


text \<open>Statements that only look.\<close>

definition guards :: "('w, unit) proc \<Rightarrow> ('w \<Rightarrow> bool) \<Rightarrow> bool" where
  "guards p Q \<longleftrightarrow> records p \<and> (\<forall>w u w'. passed p w u w' \<longleftrightarrow> Q w \<and> w' = w)"

lemma guards_block:
  "list_all (\<lambda>g. guards (fst g) (snd g)) gs \<Longrightarrow>
   guards (block (map fst gs)) (\<lambda>w. list_all (\<lambda>g. snd g w) gs)"
proof (induction gs)
  case Nil
  then show ?case by (simp add: guards_def passed_basic)
next
  case (Cons g gs)
  then have "guards (fst g) (snd g)" "guards (block (map fst gs)) (\<lambda>w. list_all (\<lambda>g. snd g w) gs)"
    by simp_all
  then show ?case
    using passed_and_then [of "fst g" "\<lambda>_. block (map fst gs)"]
      records_and_then [of "fst g" "\<lambda>_. block (map fst gs)"]
    by (auto simp: guards_def)
qed

lemma guards_look: "(\<And>vs. guards (f vs) (\<lambda>v. Q vs)) \<Longrightarrow> guards (look f) (\<lambda>v. Q (run_vars v))"
  by (auto simp: guards_def passed_look)

lemma guards_checks:
  "guards (ASSERT file line b) (\<lambda>w. b)" "guards (EXPECT file line b) (\<lambda>w. b)"
  by (simp_all add: guards_def passed_basic)

lemma guards_bound: "guards p (\<lambda>w. Q) \<Longrightarrow> guards (and_then (in_bounds b) (\<lambda>_. p)) (\<lambda>w. b \<and> Q)"
  by (auto simp: guards_def passed_simps)

lemma tests_check_state:
  assumes check: "\<And>line x. guards (check line x) (\<lambda>v. x)"
  shows "tests (gives rig) (check_state rig check b p ls)
    [Reports (map_option snd b) (map_option snd p) (map snd ls)]"
proof -
  let ?idx = "lock_index (ar_calls rig)"
  define gs :: "(('a avb_run, unit) proc \<times> ('a avb_run \<Rightarrow> bool)) list" where "gs =
    (case b of None \<Rightarrow> [] | Some (line, x) \<Rightarrow>
       [(look (\<lambda>vs. check line (var_bootloader vs = x)), \<lambda>v. var_bootloader (run_vars v) = x)]) @
    (case p of None \<Rightarrow> [] | Some (line, x) \<Rightarrow>
       [(look (\<lambda>vs. check line (var_production vs = x)), \<lambda>v. var_production (run_vars v) = x)]) @
    map (\<lambda>(line, l, x).
      (look (\<lambda>vs. and_then (in_bounds (?idx l < length (var_locks vs))) (\<lambda>_. check line (var_locks vs ! ?idx l = x))),
       \<lambda>v. lock_reads rig (var_locks (run_vars v)) (l, x))) ls"
  have "list_all (\<lambda>g. guards (fst g) (snd g)) gs"
    unfolding gs_def
    by (auto simp: list_all_iff lock_reads_def split: option.splits
        intro!: guards_look guards_bound check)
  from guards_block [OF this] have gs: "records (block (map fst gs))"
    "\<And>v u v'. passed (block (map fst gs)) v u v' \<longleftrightarrow> list_all (\<lambda>g. snd g v) gs \<and> v' = v"
    by (auto simp: guards_def)
  have eq: "check_state rig check b p ls = block (query rig (b \<noteq> None) (p \<noteq> None) (ls \<noteq> []) # map fst gs)"
    unfolding check_state_def gs_def
    by (cases b; cases p) (simp_all add: split_def comp_def del: block.simps)
  have holds: "list_all (\<lambda>g. snd g v) gs \<longleftrightarrow>
      (\<forall>x. map_option snd b = Some x \<longrightarrow> var_bootloader (run_vars v) = x) \<and>
      (\<forall>x. map_option snd p = Some x \<longrightarrow> var_production (run_vars v) = x) \<and>
      list_all (lock_reads rig (var_locks (run_vars v))) (map snd ls)" for v
    unfolding gs_def
    by (cases b; cases p) (auto simp: split_def list.pred_map comp_def lock_reads_def)
  have pass: "passed (check_state rig check b p ls) v u v' \<longleftrightarrow>
      passed (query rig (b \<noteq> None) (p \<noteq> None) (ls \<noteq> [])) v () v' \<and> list_all (\<lambda>g. snd g v') gs" for v u v'
    unfolding eq passed_block [OF records_query gs(1)] gs(2) by blast
  have flags: "(\<forall>x. map_option snd b = Some x \<longrightarrow> var_bootloader (reported r (b \<noteq> None) (p \<noteq> None) l vs) = x) \<longleftrightarrow>
      map_option snd b \<in> {None, Some (bootloader r)}"
    "(\<forall>x. map_option snd p = Some x \<longrightarrow> var_production (reported r (b \<noteq> None) (p \<noteq> None) l vs) = x) \<longleftrightarrow>
      map_option snd p \<in> {None, Some (production r)}" for r l vs
    by (cases b; cases p; auto simp: reported_def)+
  have "passed (check_state rig check b p ls) v u v' \<longleftrightarrow>
      gives rig (Reports (map_option snd b) (map_option snd p) (map snd ls)) v v'" for v u v'
  proof -
    let ?call = "\<lambda>r w'. avb_GetState (ar_avb rig) (ar_client rig) (run_world v) = (APP_SUCCESS, r, w') \<and>
      number_of_locks r = 4 \<and> (ls \<noteq> [] \<longrightarrow> length (locks r) \<le> length (var_locks (run_vars v))) \<and>
      v' = \<lparr>run_world = w', run_vars = reported r (b \<noteq> None) (p \<noteq> None) (ls \<noteq> []) (run_vars v)\<rparr>"
    have list: "?call r w' \<and> list_all (\<lambda>g. snd g v') gs \<longleftrightarrow> ?call r w' \<and>
        map_option snd b \<in> {None, Some (bootloader r)} \<and> map_option snd p \<in> {None, Some (production r)} \<and>
        list_all (lock_reads rig (var_locks (run_vars v'))) (map snd ls)" for r w'
    proof (cases "run_vars v' = reported r (b \<noteq> None) (p \<noteq> None) (ls \<noteq> []) (run_vars v)")
      case True
      show ?thesis unfolding holds True flags by (rule refl)
    next
      case False
      then have "\<not> ?call r w'" by auto
      then show ?thesis by (simp only: simp_thms)
    qed
    have "passed (check_state rig check b p ls) v u v' \<longleftrightarrow> (\<exists>r w'. ?call r w' \<and> list_all (\<lambda>g. snd g v') gs)"
      unfolding pass passed_query by blast
    then have "passed (check_state rig check b p ls) v u v' \<longleftrightarrow> (\<exists>r w'. ?call r w' \<and>
        map_option snd b \<in> {None, Some (bootloader r)} \<and> map_option snd p \<in> {None, Some (production r)} \<and>
        list_all (lock_reads rig (var_locks (run_vars v'))) (map snd ls))"
      unfolding list .
    then show ?thesis by (simp del: insert_iff)
  qed
  moreover have "records (check_state rig check b p ls)"
    unfolding eq block.simps by (intro records_intros gs(1))
  ultimately show ?thesis by (simp add: tests_def del: gives.simps)
qed


lemma optional_field_whole: "optional_field (Some bs) (length bs) = Inr (if bs = [] then None else Some bs)"
  "optional_field None sz = Inr None"
  by (auto simp: optional_field_def read_prefix_simps)

lemma tests_answers:
  assumes "\<And>w. call w = Inr (ask rig c w)"
  shows "tests (gives rig) (answers line call code) [Answers c code]"
  by (auto simp: tests_def answers_def passed_simps assms)

text \<open>An array that is sent with its size.\<close>

definition sent :: "byte list \<Rightarrow> byte list option" where
  "sent bs = (if bs = [] then None else Some bs)"

lemma tests_calls:
  "tests (gives rig) (answers line (SetDeviceLock rig b) code) [Answers (Device_lock b) code]"
  "tests (gives rig) (answers line (SetBootLock rig b) code) [Answers (Boot_lock b) code]"
  "tests (gives rig) (answers line (SetOwnerLock rig b None 0) code) [Answers (Owner_lock b None) code]"
  "tests (gives rig) (answers line (SetOwnerLock rig b (Some bs) (length bs)) code) [Answers (Owner_lock b (sent bs)) code]"
  "tests (gives rig) (answers line (SetCarrierLock rig b None 0) code) [Answers (Carrier_lock b None) code]"
  "tests (gives rig) (answers line (SetCarrierLock rig b (Some bs) (length bs)) code) [Answers (Carrier_lock b (sent bs)) code]"
  "tests (gives rig) (answers line (carrier_call rig rq) code) [Answers (Carrier_test rq) code]"
  "tests (gives rig) (answers line (go_production rig p) code) [Answers (Production p) code]"
  "tests (gives rig) (answers line (reset_locks rig) code) [Answers Reset_locks code]"
  "tests (gives rig) (answers line (Store rig slot version) code) [Answers (Stores slot version) code]"
  by (rule tests_answers; simp add: SetDeviceLock_def SetBootLock_def SetOwnerLock_def SetCarrierLock_def
      carrier_call_def SetProduction_def Reset_def Store_def optional_field_whole sent_def)+

lemma tests_statements:
  "tests (gives rig) (set_bootloader rig) [Boot_mode]"
  "tests (gives rig) (bootloader_done rig) [Boot_done]"
  "tests (gives rig) (reset_production rig) [Resets_production]"
  "tests (gives rig) (wipe_data rig line) [Wipes_data]"
  "tests (gives rig) (change (\<lambda>v. v\<lparr>var_value := x\<rparr>)) [Presets x]"
  by (auto simp: tests_def set_bootloader_def SetBootloader_def bootloader_done_def BootloaderDone_def
      reset_production_def wipe_data_def passed_simps passed_ResetProduction split: prod.splits)

lemma tests_load_value: "tests (gives rig) (load_value rig slot line line' x) [Loads slot x]"
  by (auto simp: tests_def load_value_def passed_simps Load_def Let_def split: prod.splits)

lemma tests_assert_state:
  "tests (gives rig) (assert_state rig b p ls) [Reports (map_option snd b) (map_option snd p) (map snd ls)]"
  by (rule tests_check_state) (rule guards_checks)

lemma tests_expect_state:
  "tests (gives rig) (expect_state rig b p ls) [Reports (map_option snd b) (map_option snd p) (map snd ls)]"
  by (rule tests_check_state) (rule guards_checks)


subsection \<open>Scripts\<close>

definition setup_script :: "avb_step list" where
  "setup_script =
     [Boot_done, Resets_production, Answers Reset_locks 0,
      Reports (Some False) (Some False) [(BOOT, 0), (CARRIER, 0), (DEVICE, 0), (OWNER, 0)]]"

definition boot_lock_script :: "'w avb_rig \<Rightarrow> avb_step list" where
  "boot_lock_script rig =
     (let denied = APP_ERROR_AVB_DENIED (ar_calls rig) in
      [Answers (Production True) 0, Answers (Boot_lock 0x12) (APP_ERROR_AVB_BOOTLOADER (ar_calls rig)),
       Reports None None [(BOOT, 0)],
       Boot_mode, Answers (Boot_lock 0x12) 0, Reports None None [(BOOT, 0x12)],
       Answers (Boot_lock 0) 0, Reports None None [(BOOT, 0)],
       Resets_production, Answers Reset_locks 0, Answers (Carrier_lock 0x34 (sent (DEVICE_DATA rig))) 0,
       Answers (Production True) 0, Boot_mode, Answers (Boot_lock 0x56) 0,
       Answers (Boot_lock 0) denied, Answers (Boot_lock 0x42) denied,
       Reports None None [(CARRIER, 0x34), (BOOT, 0x56)],
       Resets_production, Answers Reset_locks 0, Answers (Production True) 0, Boot_mode,
       Answers (Device_lock 0x78) (APP_ERROR_AVB_HLOS (ar_calls rig)),
       Boot_done, Answers (Device_lock 0x78) 0, Boot_mode, Answers (Boot_lock 0x9A) 0,
       Answers (Boot_lock 0) denied, Reports None None [(DEVICE, 0x78), (BOOT, 0x9A)]])"

definition rollback_script :: "'w avb_rig \<Rightarrow> avb_step list" where
  "rollback_script rig =
     [Presets (- 1), Answers (Production True) 0] @
     concat (map (\<lambda>i.
       [Answers (Stores (of_nat i) (0xFF00000011223344 + of_nat i)) (APP_ERROR_AVB_BOOTLOADER (ar_calls rig)),
        Loads (of_nat i) 0]) [0..<8]) @
     Boot_mode #
     concat (map (\<lambda>i.
       [Answers (Stores (of_nat i) (0xFF00000011223344 + of_nat i)) 0, Loads (of_nat i) (0xFF00000011223344 + of_nat i),
        Answers (Stores (of_nat i) (0x8800000011223344 - of_nat i)) 0, Loads (of_nat i) (0x8800000011223344 - of_nat i)])
       [0..<8])"

definition avb_scripts :: "'w avb_rig \<Rightarrow> (('w avb_run, unit) proc \<times> avb_step list) list" where
  "avb_scripts rig =
     (let authorization = APP_ERROR_AVB_AUTHORIZATION (ar_calls rig);
          denied = APP_ERROR_AVB_DENIED (ar_calls rig);
          hlos = APP_ERROR_AVB_HLOS (ar_calls rig);
          data = sent (DEVICE_DATA rig);
          zero_data = sent (replicate (avb_device_data_size (ar_avb rig)) 0);
          rq = carrier_request rig in
      [(CarrierLockTest rig,
        [Answers (Carrier_lock 0x12 zero_data) 0, Reports None None [(CARRIER, 0x12)],
         Answers (Carrier_lock 0 None) 0, Boot_mode, Answers (Production True) 0, Boot_done,
         Answers (Carrier_lock 0x12 zero_data) authorization, Reports None None [(CARRIER, 0)],
         Answers (Carrier_lock 0 None) authorization]),
       (CarrierUnlockTest rig,
        [Answers (Carrier_test rq) 0,
         Answers (Carrier_test (rq\<lparr>test_token := (test_token rq)\<lparr>unlock_nonce := NONCE + 1\<rparr>\<rparr>)) authorization]),
       (DeviceLockTest rig,
        [Boot_mode, Answers (Production True) 0, Answers (Device_lock 0x12) hlos, Resets_production, Boot_mode,
         Answers (Device_lock 0x34) 0, Reports (Some True) (Some False) [(DEVICE, 0x34)],
         Answers (Device_lock 0x56) denied, Reports None None [(DEVICE, 0x34)],
         Answers (Device_lock 0) 0, Reports None None [(DEVICE, 0)]]),
       (SetDeviceLockIsIdempotent rig, [Answers (Device_lock 0x65) 0, Answers (Device_lock 0x65) 0]),
       (BootLockTest rig, boot_lock_script rig),
       (SetBootLockIsIdempotent rig, [Answers (Boot_lock 0x12) 0, Answers (Boot_lock 0x12) 0]),
       (SetBootLockAfterWipingUserData rig,
        [Answers (Production True) 0, Boot_mode, Wipes_data, Answers (Boot_lock 0xdc) 0]),
       (ProductionMode rig,
        [Reports None (Some False) [], Boot_mode, Answers (Owner_lock 0x11 None) 0, Answers (Boot_lock 0x22) 0,
         Answers (Carrier_lock 0x33 data) 0, Answers (Device_lock 0x44) 0, Answers (Production True) 0,
         Reports None (Some True) [(OWNER, 0x11), (BOOT, 0x22), (CARRIER, 0x33), (DEVICE, 0x44)],
         Answers (Production False) authorization, Boot_done, Answers (Production False) authorization]),
       (Rollback rig, rollback_script rig),
       (Reset_test rig,
        [Boot_mode, Answers (Boot_lock 0x12) 0, Answers (Device_lock 0x34) 0, Answers (Production True) 0, Boot_done,
         Reports (Some False) (Some True) [(BOOT, 0x12), (DEVICE, 0x34)], Answers Reset_locks denied,
         Reports (Some False) (Some True) [(BOOT, 0x12), (DEVICE, 0x34)], Resets_production, Answers Reset_locks 0,
         Reports (Some False) (Some False) [(BOOT, 0), (DEVICE, 0)]]),
       (WipeUserDataDoesNotLockDeviceLock rig,
        [Answers (Device_lock 0) 0, Wipes_data, Reports None None [(DEVICE, 0)]])])"

text \<open>The checks of one state, with the script's step written out.\<close>

lemma tests_states:
  "map_option snd b = b' \<Longrightarrow> map_option snd p = p' \<Longrightarrow> map snd ls = ls' \<Longrightarrow>
   tests (gives rig) (assert_state rig b p ls) [Reports b' p' ls']"
  "map_option snd b = b' \<Longrightarrow> map_option snd p = p' \<Longrightarrow> map snd ls = ls' \<Longrightarrow>
   tests (gives rig) (expect_state rig b p ls) [Reports b' p' ls']"
  using tests_assert_state [of rig b p ls] tests_expect_state [of rig b p ls] by auto

lemmas avb_intros = tests_blockI(1,3) tests_calls tests_statements tests_load_value tests_states

lemma tests_setup: "tests (gives rig) (AvbTest_SetUp rig) setup_script"
  unfolding AvbTest_SetUp_def setup_script_def by (intro avb_intros) simp_all

lemma tests_rollback: "tests (gives rig) (Rollback rig) (rollback_script rig)"
  unfolding Rollback_def rollback_script_def append.simps
  by (intro tests_single tests_blockI(3) tests_statements tests_calls tests_blockI(2) tests_for_each avb_intros)

lemma tests_boot_lock: "tests (gives rig) (BootLockTest rig) (boot_lock_script rig)"
  unfolding BootLockTest_def boot_lock_script_def Let_def by (intro avb_intros) simp_all

lemma avb_tests: "list_all (\<lambda>(p, ss). tests (gives rig) p ss) (avb_scripts rig)"
  unfolding avb_scripts_def Let_def list.pred_inject prod.case CarrierLockTest_def CarrierUnlockTest_def
    DeviceLockTest_def SetDeviceLockIsIdempotent_def SetBootLockIsIdempotent_def
    SetBootLockAfterWipingUserData_def ProductionMode_def Reset_test_def WipeUserDataDoesNotLockDeviceLock_def
  by (intro conjI tests_rollback tests_boot_lock avb_intros TrueI) simp_all


subsection \<open>Reading the owner's key back\<close>

definition key_byte :: "nat \<Rightarrow> byte" where
  "key_byte i = of_nat (i div 256)"

lemma fill_key_from:
  "j \<le> m \<Longrightarrow> length key = 2 * m \<Longrightarrow>
   fill_key (map (\<lambda>k. 2 * k) [j..<m]) key = Inr (take (2 * j) key @ map key_byte [2 * j..<2 * m])"
proof (induction "m - j" arbitrary: j key)
  case 0
  then show ?case by simp
next
  case (Suc n)
  then have j: "j < m" by simp
  let ?pair = "[key_byte (2 * j), key_byte (2 * j)]"
  let ?key = "take (2 * j) key @ ?pair @ drop (2 * j + 2) key"
  have pair: "key_byte (Suc (2 * j)) = key_byte (2 * j)"
  proof -
    have "Suc (2 * j) div 256 = 2 * j div 256"
      using div_mult2_eq [of "Suc (2 * j)" 2 128] div_mult2_eq [of "2 * j" 2 128] by simp
    then show ?thesis by (simp only: key_byte_def)
  qed
  have "write_at (2 * j) ?pair key = Inr ?key"
    using j Suc.prems by (subst write_at_ok) auto
  then have "fill_key (map (\<lambda>k. 2 * k) [j..<m]) key = fill_key (map (\<lambda>k. 2 * k) [Suc j..<m]) ?key"
    using j by (simp add: upt_conv_Cons key_byte_def)
  also have "\<dots> = Inr (take (2 * Suc j) ?key @ map key_byte [2 * Suc j..<2 * m])"
    by (rule Suc.hyps(1)) (use Suc j in auto)
  also have "take (2 * Suc j) ?key = take (2 * j) key @ ?pair"
    using j Suc.prems by simp
  finally show ?case
    using j by (simp add: upt_conv_Cons pair)
qed

lemma owner_key_filled:
  assumes "even (AVB_METADATA_MAX_SIZE (ar_calls rig))"
  shows "owner_key rig = Inr (map key_byte [0..<AVB_METADATA_MAX_SIZE (ar_calls rig)])"
proof -
  from assms obtain m where m: "AVB_METADATA_MAX_SIZE (ar_calls rig) = 2 * m" by auto
  have "filter even [0..<2 * m] = map (\<lambda>k. 2 * k) [0..<m]"
    by (induction m) auto
  with fill_key_from [of 0 m "replicate (2 * m) 0"] m show ?thesis
    by (simp add: owner_key_def Let_def)
qed

lemma records_read_chunk: "records (read_chunk rig key i)"
  unfolding read_chunk_def Let_def by (intro records_intros records_case_prod)

lemma compared_chunk:
  "length bs = n \<and> (\<forall>j \<in> set [0..<n]. i + j < length key \<and> bs ! j = key ! (i + j)) \<longleftrightarrow>
   bs = take n (drop i key) \<and> length bs = n"
proof (cases "n = 0 \<or> i + n \<le> length key")
  case True
  then have "(\<forall>j \<in> set [0..<n]. i + j < length key \<and> bs ! j = key ! (i + j)) \<longleftrightarrow> (\<forall>j < n. bs ! j = key ! (i + j))"
    by auto
  moreover have "bs = take n (drop i key) \<longleftrightarrow> (\<forall>j < n. bs ! j = key ! (i + j))" if len: "length bs = n"
  proof -
    have "take n (drop i key) ! j = key ! (i + j)" if "j < n" for j using True that by auto
    moreover have "length (take n (drop i key)) = n" using True by auto
    ultimately show ?thesis unfolding list_eq_iff_nth_eq len by metis
  qed
  ultimately show ?thesis by blast
next
  case False
  then have "n - 1 \<in> set [0..<n]" "\<not> i + (n - 1) < length key" "length (take n (drop i key)) \<noteq> n" by auto
  then show ?thesis by blast
qed

lemma tests_read_chunk:
  "tests (gives rig) (read_chunk rig key i)
     [Gives_key i (take (AVB_CHUNK_MAX_SIZE (ar_calls rig)) (drop i key))]"
proof -
  let ?n = "AVB_CHUNK_MAX_SIZE (ar_calls rig)"
  have got: "GetOwnerKey rig (of_nat i) (Some (replicate ?n 0)) (Some ?n) w = Inr ((APP_SUCCESS, chunk, Some ?n), w') \<longleftrightarrow>
      (\<exists>bs. ac_GetOwnerKey (ar_calls rig) (ar_client rig) (of_nat i) (Some ?n) w = (APP_SUCCESS, bs, w') \<and>
        length bs = ?n \<and> chunk = Some bs)" for w chunk w'
    by (auto simp: GetOwnerKey_def Let_def bind_res_Inr_iff write_at_def split: prod.splits if_splits)
  have "passed (read_chunk rig key i) v u v' \<longleftrightarrow> (\<exists>w' bs.
      ac_GetOwnerKey (ar_calls rig) (ar_client rig) (of_nat i) (Some ?n) (run_world v) = (APP_SUCCESS, bs, w') \<and>
      (length bs = ?n \<and> (\<forall>j \<in> set [0..<?n]. i + j < length key \<and> bs ! j = key ! (i + j))) \<and>
      v' = v\<lparr>run_world := w'\<rparr>)" for v u v'
    unfolding read_chunk_def Let_def
    by (simp add: passed_simps passed_checked_loop split_paired_Ex got del: set_upt) force
  then show ?thesis
    unfolding tests_def compared_chunk by (auto simp: records_read_chunk)
qed


definition owner_lock_script :: "'w avb_rig \<Rightarrow> byte list \<Rightarrow> avb_step list" where
  "owner_lock_script rig key =
     (let denied = APP_ERROR_AVB_DENIED (ar_calls rig) in
      Answers (Owner_lock 0x65 (sent key)) 0 # Reports None None [(OWNER, 0x65)] #
      map (\<lambda>i. Gives_key i (take (AVB_CHUNK_MAX_SIZE (ar_calls rig)) (drop i key))) (chunk_offsets rig) @
      [Answers (Owner_lock 0x87 (sent key)) denied, Reports None None [(OWNER, 0x65)],
       Answers (Owner_lock 0 (sent key)) 0, Reports None None [(OWNER, 0)],
       Boot_mode, Answers (Boot_lock 0x43) 0, Reports None None [(BOOT, 0x43)],
       Answers (Owner_lock 0x21 (sent key)) denied])"

lemma tests_read_chunks:
  "tests (gives rig) (for_each is (read_chunk rig key))
     (map (\<lambda>i. Gives_key i (take (AVB_CHUNK_MAX_SIZE (ar_calls rig)) (drop i key))) is)"
  using tests_for_each [of "is" "gives rig" "read_chunk rig key", OF tests_read_chunk] by simp

text \<open>An array of an odd size would be written past its end when it is filled. A chunk that the end
  of the key cuts short cannot be given: its step asks for a whole one.\<close>

lemma tests_owner_lock_body: "tests (gives rig) (owner_lock_body rig key) (owner_lock_script rig key)"
  unfolding owner_lock_body_def owner_lock_script_def Let_def
  by (rule tests_blockI(3), intro avb_intros, rule tests_blockI(3), (intro avb_intros; simp),
      rule tests_blockI(2), rule tests_read_chunks, (intro avb_intros; simp))

lemma tests_owner_lock:
  assumes "even (AVB_METADATA_MAX_SIZE (ar_calls rig))"
  shows "tests (gives rig) (OwnerLockTest rig)
    (owner_lock_script rig (map key_byte [0..<AVB_METADATA_MAX_SIZE (ar_calls rig)]))"
  using testsD [OF tests_owner_lock_body, of rig]
  by (simp add: tests_def OwnerLockTest_def owner_key_filled [OF assms] passed_simps)

subsection \<open>Tests after their fixture\<close>

text \<open>A function body with variables of its own, which are not initialized.\<close>

definition with_vars :: "avb_vars \<Rightarrow> ('w avb_run, 'a) proc \<Rightarrow> ('w, 'a) proc" where
  "with_vars vs p s =
     bind_res (p \<lparr>tworld = \<lparr>run_world = tworld s, run_vars = vs\<rparr>, failed = failed s\<rparr>) (\<lambda>(r, s').
       Inr (r, \<lparr>tworld = run_world (tworld s'), failed = failed s'\<rparr>))"

lemma records_with_vars [simp, records_intros]:
  assumes "records p"
  shows "records (with_vars vs p)"
  unfolding records_def by (auto simp: with_vars_def bind_res_Inr_iff dest!: recordsD [OF assms])

lemma passed_with_vars:
  "passed (with_vars vs p) w x w' \<longleftrightarrow>
    (\<exists>v. passed p \<lparr>run_world = w, run_vars = vs\<rparr> x v \<and> w' = run_world v)"
proof -
  have "\<lparr>tworld = v, failed = []\<rparr> = fresh v" for v :: "'a avb_run" by (simp add: fresh_def)
  then show ?thesis
    by (auto simp: passed_def with_vars_def bind_res_Inr_iff fresh_def)
      (metis tst.surjective unit.exhaust)
qed

lemma run_avb_test:
  assumes "tests (gives rig) test script"
  shows "passes (run_test (with_vars vs (AvbTest_SetUp rig)) (with_vars vs' test)) w \<longleftrightarrow>
    (\<exists>v v'. plays (gives rig) setup_script \<lparr>run_world = w, run_vars = vs\<rparr> v \<and>
       plays (gives rig) script \<lparr>run_world = run_world v, run_vars = vs'\<rparr> v')"
  using testsD [OF assms] testsD [OF tests_setup, of rig]
  by (auto simp: passes_run_test passes_passed passed_with_vars simp del: gives.simps)

text \<open>A test that has no such variables runs after the fixture as well.\<close>

lemma run_after_setup:
  assumes "records test"
  shows "passes (run_test (with_vars vs (AvbTest_SetUp rig)) test) w \<longleftrightarrow>
    (\<exists>v. plays (gives rig) setup_script \<lparr>run_world = w, run_vars = vs\<rparr> v \<and> passes test (run_world v))"
  using testsD [OF tests_setup, of rig] assms
  by (auto simp: passes_run_test passed_with_vars simp del: gives.simps)

text \<open>The tests of the locks, of the mode and of the counters, after the fixture.\<close>

definition avb_verdict :: "'w avb_rig \<Rightarrow> ('w avb_run, unit) proc \<Rightarrow> avb_step list \<Rightarrow> bool" where
  "avb_verdict rig test script \<longleftrightarrow> (\<forall>vs vs' w.
     passes (run_test (with_vars vs (AvbTest_SetUp rig)) (with_vars vs' test)) w \<longleftrightarrow>
     (\<exists>v v'. plays (gives rig) setup_script \<lparr>run_world = w, run_vars = vs\<rparr> v \<and>
        plays (gives rig) script \<lparr>run_world = run_world v, run_vars = vs'\<rparr> v'))"

lemma script_verdicts: "list_all (\<lambda>(test, script). avb_verdict rig test script) (avb_scripts rig)"
proof (rule list.pred_mono_strong [OF avb_tests], goal_cases)
  case (1 z)
  obtain test script where z: "z = (test, script)" by (rule prod.exhaust)
  with 1(2) have "tests (gives rig) test script" by simp
  then show ?case unfolding z prod.case avb_verdict_def by (simp only: run_avb_test simp_thms)
qed

text \<open>The owner's key has two bytes written at every even index, so that an array of an odd size is
  written past its end.\<close>

lemma fill_key_fits: "fill_key is key = Inr key' \<Longrightarrow> i \<in> set is \<Longrightarrow> i + 2 \<le> length key"
proof (induction "is" key rule: fill_key.induct)
  case (2 j js key)
  then obtain key1 where key1: "write_at j [of_nat (j div 256), of_nat (j div 256)] key = Inr key1"
    "fill_key js key1 = Inr key'" by (auto simp: bind_res_Inr_iff)
  have "j + 2 \<le> length key" using key1(1) by (auto simp: write_at_def split: if_splits)
  with write_at_length [OF key1(1)] "2.IH" [OF key1(2)] "2.prems"(2) show ?case by auto
qed simp

lemma OwnerLock_verdict:
  "passes (run_test (with_vars vs (AvbTest_SetUp rig)) (with_vars vs' (OwnerLockTest rig))) w \<longleftrightarrow>
   even (AVB_METADATA_MAX_SIZE (ar_calls rig)) \<and>
   (\<exists>v v'. plays (gives rig) setup_script \<lparr>run_world = w, run_vars = vs\<rparr> v \<and>
      plays (gives rig) (owner_lock_script rig (map key_byte [0..<AVB_METADATA_MAX_SIZE (ar_calls rig)]))
        \<lparr>run_world = run_world v, run_vars = vs'\<rparr> v')"
proof (cases "even (AVB_METADATA_MAX_SIZE (ar_calls rig))")
  case True
  from run_avb_test [OF tests_owner_lock [OF this], of vs vs' w] True show ?thesis by simp
next
  case False
  let ?n = "AVB_METADATA_MAX_SIZE (ar_calls rig)"
  have "?n - 1 \<in> set (filter even [0..<?n])" using False by (simp add: odd_pos)
  with fill_key_fits [of "filter even [0..<?n]" "replicate ?n 0"] have "owner_key rig \<noteq> Inr key" for key
    unfolding owner_key_def Let_def by fastforce
  then have "\<not> passed (OwnerLockTest rig) v u v'" for v u v'
    by (auto simp: OwnerLockTest_def passed_def and_then_def attempt_def bind_res_Inr_iff)
  then have "\<not> passed (with_vars vs' (OwnerLockTest rig)) w' u w''" for w' u w''
    by (simp add: passed_with_vars)
  moreover have "records (with_vars vs' (OwnerLockTest rig))"
    unfolding OwnerLockTest_def using testsD(1) [OF tests_owner_lock_body] by (intro records_intros) auto
  moreover have "records (with_vars vs (AvbTest_SetUp rig))"
    using testsD(1) [OF tests_setup] by (intro records_intros)
  ultimately show ?thesis using False by (simp add: passes_run_test passes_passed)
qed

end
