(* ===== verification/Session.thy ===== *)
theory Session
  imports StressTest
begin

text \<open>
  \<open>TestHarness\<close> as a state machine: the public operations of \<open>src/util.h\<close>, performed in any order
  on a constructed harness. The invariant is that the buffers and the frame codec stay within their
  bounds, which is what keeps the next operation within its arrays, apart from the two that leave
  them. Besides, the harness develops in one direction: its line stays the one it opened, what was
  written stays written, and a client once made is kept.
\<close>

subsection \<open>How a harness develops\<close>

definition evolves :: "('w, 'e, 'd) harness \<Rightarrow> ('w, 'e, 'd) harness \<Rightarrow> bool" where
  "evolves h h' \<longleftrightarrow>
     tty_fd h' = tty_fd h \<and> tty_state h' = tty_state h \<and> print_uart_worker h' = print_uart_worker h \<and>
     (\<exists>bs. consumes (rx (tty h)) bs (rx (tty h'))) \<and> (\<exists>bs. tx (tty h') = tx (tty h) @ bs) \<and>
     (\<exists>s. cout h' = cout h @ s) \<and> (hclient h \<noteq> None \<longrightarrow> hclient h' = hclient h)"

lemma evolves_refl [simp, intro]: "evolves h h"
  by (auto simp: evolves_def)

lemma evolves_trans: "evolves h h1 \<Longrightarrow> evolves h1 h2 \<Longrightarrow> evolves h h2"
  unfolding evolves_def by (auto intro: consumes_trans)

lemma evolves_print_at [simp, intro]: "evolves h (print_at level s h)"
  by (auto simp: evolves_def print_at_def)

lemma evolves_updates [simp, intro]:
  "evolves h (h\<lparr>verbosity := v\<rparr>)" "evolves h (h\<lparr>output_buffer := ob\<rparr>)" "evolves h (h\<lparr>input_buffer := ib\<rparr>)"
  "evolves h (h\<lparr>encoder := e\<rparr>)" "evolves h (h\<lparr>world := w\<rparr>)" "evolves h (h\<lparr>output_buffer := ob, world := w\<rparr>)"
  by (auto simp: evolves_def)

lemma evolves_tty:
  "consumes (rx (tty h)) bs (rx t) \<Longrightarrow> tx t = tx (tty h) @ sent \<Longrightarrow> evolves h (h\<lparr>tty := t\<rparr>)"
  by (auto simp: evolves_def)

lemma evolves_print_after: "evolves h h' \<Longrightarrow> evolves h (print_at level s h')"
  by (rule evolves_trans [OF _ evolves_print_at])

text \<open>A computation started on \<open>h\<close> whose result holds a later state of it.\<close>

definition leads :: "('w, 'e, 'd) harness \<Rightarrow> ('a \<Rightarrow> ('w, 'e, 'd) harness) \<Rightarrow> fault + 'a \<Rightarrow> bool" where
  "leads h proj r \<longleftrightarrow> (\<forall>x. r = Inr x \<longrightarrow> evolves h (proj x))"

lemma leads_simps [simp]: "leads h proj (Inr x) \<longleftrightarrow> evolves h (proj x)" "leads h proj (Inl e)"
  by (simp_all add: leads_def)

lemma leads_bind:
  "leads h p r \<Longrightarrow> (\<And>x. evolves h (p x) \<Longrightarrow> leads h q (k x)) \<Longrightarrow> leads h q (bind_res r k)"
  by (cases r) auto

lemma leads_pure: "(\<And>x. leads h q (k x)) \<Longrightarrow> leads h q (bind_res r k)"
  by (cases r) auto

lemma leads_from: "evolves h0 h \<Longrightarrow> leads h q r \<Longrightarrow> leads h0 q r"
  by (auto simp: leads_def intro: evolves_trans)

lemma leadsD: "leads h q r \<Longrightarrow> r = Inr x \<Longrightarrow> evolves h (q x)"
  by simp

subsection \<open>The line\<close>

lemma leads_ReadLineUntilBlock: "leads h snd (ReadLineUntilBlock h)"
proof (cases "ttyState h \<and> clk (tty h) \<noteq> []")
  case True
  then obtain now ts where clk: "ttyState h" "clk (tty h) = now # ts" by (auto simp: neq_Nil_conv)
  show ?thesis
  proof (cases "line_loop now [] (rx (tty h)) ts")
    case (Inr x)
    obtain line rs ts' where x: "x = (line, rs, ts')" by (cases x)
    with Inr line_loop_consumes [of now "[]" "rx (tty h)" ts line rs ts'] obtain bs where
      "consumes (rx (tty h)) bs rs" by auto
    then have "evolves h (h\<lparr>tty := (tty h)\<lparr>rx := rs, clk := ts'\<rparr>\<rparr>)" by (intro evolves_tty [of h bs _ "[]"]) simp_all
    with clk Inr x show ?thesis
      by (simp add: ReadLineUntilBlock_def Let_def evolves_print_after)
  qed (use clk in \<open>simp add: ReadLineUntilBlock_def Let_def\<close>)
qed (auto simp: ReadLineUntilBlock_def Let_def)

lemma leads_flush_loop: "leads h id (flush_loop h)"
proof (induction h rule: flush_loop.induct)
  case (1 h)
  show ?case
  proof (cases "ReadLineUntilBlock h")
    case (Inr x)
    obtain line h' where x: "x = (line, h')" by (cases x)
    from leadsD [OF leads_ReadLineUntilBlock Inr] have step: "evolves h h'" by (simp add: x)
    show ?thesis
    proof (cases "line = []")
      case True
      with Inr x step show ?thesis by (simp add: flush_loop.simps [of h])
    next
      case False
      from leads_from [OF step 1 [OF Inr x [symmetric] False]] Inr x False show ?thesis
        by (simp add: flush_loop.simps [of h])
    qed
  qed (simp add: flush_loop.simps)
qed

lemma leads_await_prompt: "leads h id (await_prompt h)"
proof (induction h rule: await_prompt.induct)
  case (1 h)
  show ?case
  proof (cases "\<exists>x. ttyState h \<and> ReadLineUntilBlock h = Inr x")
    case True
    then obtain line h' where x: "\<not> \<not> ttyState h" "ReadLineUntilBlock h = Inr (line, h')" by auto
    from leadsD [OF leads_ReadLineUntilBlock x(2)] have step: "evolves h h'" by simp
    show ?thesis
    proof (cases "line = bytes_of ''> ''")
      case True
      with x step show ?thesis by (simp add: await_prompt.simps [of h])
    next
      case False
      from leads_from [OF step 1 [OF x refl False]] x False show ?thesis
        by (simp add: await_prompt.simps [of h])
    qed
  next
    case False
    then show ?thesis by (auto simp: await_prompt.simps [of h] split: sum.splits)
  qed
qed

lemma leads_ReadUntil: "leads h snd (ReadUntil cfg limit h)"
proof (cases "no_uart cfg \<or> \<not> ttyState h \<or> clk (tty h) = []")
  case False
  then obtain start ts where clk: "\<not> (no_uart cfg \<or> \<not> ttyState h)" "clk (tty h) = start # ts"
    by (auto simp: neq_Nil_conv)
  show ?thesis
  proof (cases "until_loop limit start [] (rx (tty h)) ts")
    case (Inr x)
    obtain bs rs ts' where x: "x = (bs, rs, ts')" by (cases x)
    with Inr until_loop_consumes [of limit start "[]" "rx (tty h)" ts bs rs ts'] have
      "consumes (rx (tty h)) bs rs" by auto
    then have "evolves h (h\<lparr>tty := (tty h)\<lparr>rx := rs, clk := ts'\<rparr>\<rparr>)" by (intro evolves_tty [of h bs _ "[]"]) simp_all
    with clk Inr x show ?thesis
      by (simp add: ReadUntil_def Let_def evolves_print_after)
  qed (use clk in \<open>simp add: ReadUntil_def Let_def\<close>)
qed (auto simp: ReadUntil_def Let_def)

lemma leads_BlockingWrite: "leads h id (BlockingWrite bs n h)"
proof -
  let ?h = "\<lambda>out. print_at INFO (log_buffer ''TX: '' out) h"
  have "leads h id (bind_res (write_loop out (wr (tty h)) (tx (tty h)))
      (\<lambda>(ws, sent). Inr ((?h out)\<lparr>tty := (tty h)\<lparr>wr := ws, tx := sent\<rparr>\<rparr>)))" for out
  proof (cases "write_loop out (wr (tty h)) (tx (tty h))")
    case (Inr x)
    obtain ws sent where x: "x = (ws, sent)" by (cases x)
    with Inr write_loop_sent [of out "wr (tty h)" "tx (tty h)" ws sent] have "sent = tx (tty h) @ out" by simp
    then have "evolves (?h out) ((?h out)\<lparr>tty := (tty h)\<lparr>wr := ws, tx := sent\<rparr>\<rparr>)"
      by (intro evolves_tty [of "?h out" "[]" _ out]) (auto intro: consumes_refl)
    from evolves_trans [OF evolves_print_at this] Inr x show ?thesis by simp
  qed simp
  from leads_pure [of h id, OF this] show ?thesis
    unfolding BlockingWrite_def Let_def print_at_sel .
qed


lemma leads_bind_id:
  "leads h id r \<Longrightarrow> (\<And>h'. leads h' q (k h')) \<Longrightarrow> leads h q (bind_res r k)"
  "leads h snd r' \<Longrightarrow> (\<And>x h'. leads h' q (k' (x, h'))) \<Longrightarrow> leads h q (bind_res r' k')"
  by (auto intro!: leads_bind intro: leads_from)

lemma leads_print: "leads (print_at level s h) q r \<Longrightarrow> leads h q r"
  by (rule leads_from [OF evolves_print_at])

subsection \<open>The transports\<close>

abbreviation last_state :: "int \<times> raw_message \<times> ('w, 'e, 'd) harness \<Rightarrow> ('w, 'e, 'd) harness" where
  "last_state \<equiv> \<lambda>(e, m, h). h"

lemma leads_ensure_client: "leads h snd (ensure_client env cfg h)"
proof (cases "hclient h")
  case None
  then show ?thesis
    by (auto simp: ensure_client_def Let_def leads_def evolves_def split: prod.splits if_splits)
qed simp

lemma leads_SendSpi: "leads h snd (SendSpi env cfg m h)"
  unfolding SendSpi_def Let_def
proof (rule leads_bind_id(2) [OF leads_ensure_client], unfold prod.case, intro leads_pure)
  fix c buf and h1 :: "('a, 'b, 'c) harness"
  let ?h = "print_at INFO (log_buffer ''SPI_TX: '' buf) (h1\<lparr>input_buffer := buf\<rparr>)"
  have "evolves h1 (?h\<lparr>output_buffer := ob, world := w\<rparr>)" for ob w
    by (rule evolves_trans [OF evolves_updates(3) evolves_trans [OF evolves_print_at evolves_updates(6)]])
  then show "leads h1 snd (case call_app env c APP_ID_PROTOBUF (Param (mtype m)) buf
      (Some (vec_resize (vcap (output_buffer ?h)) (output_buffer ?h))) (world ?h) of
      (st, out, w) \<Rightarrow> Inr (st, ?h\<lparr>output_buffer := out, world := w\<rparr>))"
    by (auto split: prod.splits)
qed

lemma leads_GetSpi: "leads h last_state (GetSpi m timeout h)"
  unfolding GetSpi_def Let_def
  by (simp, intro impI leads_pure) (simp add: evolves_trans [OF evolves_print_at evolves_updates(2)])

lemma leads_SendAhdlc: "leads h snd (SendAhdlc ops m h)"
  unfolding SendAhdlc_def Let_def
proof (rule leads_pure, goal_cases)
  case (1 x)
  have "leads h snd (bind_res (BlockingWrite bs n (h\<lparr>encoder := e\<rparr>)) (\<lambda>h. Inr (NO_ERROR, h)))" for bs n e
    by (rule leads_from [OF evolves_updates(4) leads_bind_id(1) [OF leads_BlockingWrite]]) simp
  then show ?case by (cases x) simp
qed

lemma leads_GetAhdlc: "leads h last_state (GetAhdlc ops m timeout h)"
proof -
  let ?out = "if INFO \<le> verbosity h then ''RX: '' else ''''"
  show ?thesis
  proof (cases "get_loop ops (verbosity h) timeout 0 m (rx (tty h)) (clk (tty h)) (decoder h) ?out")
    case (Inr x)
    obtain e m' rs ts d out where x: "x = (e, m', rs, ts, d, out)" by (cases x)
    from get_loop_outcome [OF Inr [unfolded x]] obtain bs where "consumes (rx (tty h)) bs rs" by blast
    then have "evolves h (h\<lparr>tty := (tty h)\<lparr>rx := rs, clk := ts\<rparr>, decoder := d, cout := cout h @ out\<rparr>)"
      by (auto simp: evolves_def)
    with Inr x show ?thesis by (simp add: GetAhdlc_def Let_def)
  qed (simp add: GetAhdlc_def Let_def)
qed

lemma leads_data: "leads h snd (SendData env ops cfg m h)" "leads h last_state (GetData ops cfg m timeout h)"
  by (simp_all add: SendData_def GetData_def leads_SendSpi leads_SendAhdlc leads_GetSpi leads_GetAhdlc)


lemma leads_protos:
  "leads h snd (SendProto env ops cfg m t pb h)" "leads h snd (SendOneofProto env ops cfg m t sub pb h)"
proof -
  have "leads h snd (case z of None \<Rightarrow> Inr (e, h) | Some bs \<Rightarrow>
      bind_res (write_at i bs data) (\<lambda>data. SendData env ops cfg (f data) h))" for z e i data f
    by (cases z) (auto intro: leads_pure leads_data)
  then show "leads h snd (SendProto env ops cfg m t pb h)" "leads h snd (SendOneofProto env ops cfg m t sub pb h)"
    unfolding SendProto_def SendOneofProto_def Let_def by auto
qed

lemma leads_To_proto_api: "leads h snd (SwitchFromConsoleToProtoApi cfg h)"
  unfolding SwitchFromConsoleToProtoApi_def Let_def
  by (rule leads_print [of INFO _ h])
    (auto intro!: leads_bind_id leads_ReadUntil leads_BlockingWrite leads_await_prompt)

abbreviation end_state :: "bool \<times> raw_message option \<times> ('w, 'e, 'd) harness \<Rightarrow> ('w, 'e, 'd) harness" where
  "end_state \<equiv> \<lambda>(b, out, h). h"

lemma leads_To_console: "leads h end_state (SwitchFromProtoApiToConsole ops api cfg m out h)"
  unfolding SwitchFromProtoApiToConsole_def Let_def
proof (rule leads_print [of INFO _ h], rule leads_pure, rule leads_bind_id(2) [OF leads_SendAhdlc], goal_cases)
  case (1 msg e h1)
  have read: "leads h2 end_state (bind_res (ReadUntil cfg limit h2) (\<lambda>(_, h). Inr (b, z, print_at INFO s h)))"
    for h2 limit b z s
    by (rule leads_bind_id(2) [OF leads_ReadUntil]) simp
  show ?case
    unfolding prod.case
    by (auto intro!: leads_bind [OF leads_GetAhdlc] evolves_print_after leads_from [OF _ leads_print [OF read]]
        split: prod.splits)
qed

lemma leads_Reboot: "leads h snd (TestHarness_RebootNugget env h)"
  by (cases "hclient h") (auto simp: TestHarness_RebootNugget_def intro!: leads_pure split: prod.splits)


subsection \<open>What leaves the transport's state alone\<close>

definition same_codec :: "('w, 'e, 'd) harness \<Rightarrow> ('w, 'e, 'd) harness \<Rightarrow> bool" where
  "same_codec h h' \<longleftrightarrow> output_buffer h' = output_buffer h \<and> encoder h' = encoder h \<and> decoder h' = decoder h"

lemma same_codec_simps [simp]:
  "same_codec h h" "same_codec h (print_at level s h') \<longleftrightarrow> same_codec h h'"
  "same_codec (print_at level s h) h' \<longleftrightarrow> same_codec h h'"
  "same_codec h (h'\<lparr>tty := t\<rparr>) \<longleftrightarrow> same_codec h h'"
  by (simp_all add: same_codec_def)

lemma same_codec_trans: "same_codec h h1 \<Longrightarrow> same_codec h1 h2 \<Longrightarrow> same_codec h h2"
  by (simp add: same_codec_def)

lemma harness_inv_same_codec: "same_codec h h' \<Longrightarrow> harness_inv env ops cfg h \<Longrightarrow> harness_inv env ops cfg h'"
  by (auto simp: same_codec_def harness_inv_def harness_ready_def spi_ready_def)

lemma line_loop_not_oob: "line_loop prev line rs ts \<noteq> Inl Out_of_bounds"
  by (induction prev line rs ts rule: line_loop.induct) (auto split: list.splits)

lemma until_loop_not_oob: "until_loop limit start acc rs ts \<noteq> Inl Out_of_bounds"
  by (induction limit start acc rs ts rule: until_loop.induct) (auto split: option.splits)

lemma safe_ReadLineUntilBlock: "safe (\<lambda>(line, h'). same_codec h h') (ReadLineUntilBlock h)"
proof (cases "ttyState h \<and> clk (tty h) \<noteq> []")
  case True
  then obtain now ts where clk: "ttyState h" "clk (tty h) = now # ts" by (auto simp: neq_Nil_conv)
  then show ?thesis
    using line_loop_not_oob [of now "[]" "rx (tty h)" ts]
    by (cases "line_loop now [] (rx (tty h)) ts") (auto simp: ReadLineUntilBlock_def Let_def split: prod.splits)
qed (auto simp: ReadLineUntilBlock_def Let_def)

lemma safe_flush_loop: "safe (same_codec h) (flush_loop h)"
proof (induction h rule: flush_loop.induct)
  case (1 h)
  show ?case
  proof (cases "ReadLineUntilBlock h")
    case (Inl e)
    then show ?thesis using safe_ReadLineUntilBlock [of h] by (simp add: flush_loop.simps [of h])
  next
    case (Inr x)
    obtain line h' where x: "x = (line, h')" by (cases x)
    have same: "same_codec h h'" using safe_ReadLineUntilBlock [of h] by (simp add: Inr x)
    show ?thesis
    proof (cases "line = []")
      case False
      from 1 [OF Inr x [symmetric] False] have "safe (same_codec h) (flush_loop h')"
        by (rule safe_mono) (rule same_codec_trans [OF same])
      with Inr x False show ?thesis by (simp add: flush_loop.simps [of h])
    qed (use Inr x same in \<open>simp add: flush_loop.simps [of h]\<close>)
  qed
qed

lemma safe_await_prompt: "safe (same_codec h) (await_prompt h)"
proof (induction h rule: await_prompt.induct)
  case (1 h)
  show ?case
  proof (cases "ttyState h")
    case tty: True
    show ?thesis
    proof (cases "ReadLineUntilBlock h")
      case (Inl e)
      then show ?thesis using safe_ReadLineUntilBlock [of h] tty by (simp add: await_prompt.simps [of h])
    next
      case (Inr x)
      obtain line h' where x: "x = (line, h')" by (cases x)
      have same: "same_codec h h'" using safe_ReadLineUntilBlock [of h] by (simp add: Inr x)
      show ?thesis
      proof (cases "line = bytes_of ''> ''")
        case False
        from tty have "\<not> \<not> ttyState h" by simp
        from 1 [OF this Inr x [symmetric] False] have "safe (same_codec h) (await_prompt h')"
          by (rule safe_mono) (rule same_codec_trans [OF same])
        with tty Inr x False show ?thesis by (simp add: await_prompt.simps [of h])
      next
        case True
        with tty Inr x same show ?thesis by (simp add: await_prompt.simps [of h])
      qed
    qed
  qed (simp add: await_prompt.simps)
qed

lemma safe_ReadUntil: "safe (\<lambda>(bs, h'). same_codec h h') (ReadUntil cfg limit h)"
proof (cases "no_uart cfg \<or> \<not> ttyState h \<or> clk (tty h) = []")
  case False
  then obtain start ts where clk: "\<not> (no_uart cfg \<or> \<not> ttyState h)" "clk (tty h) = start # ts"
    by (auto simp: neq_Nil_conv)
  then show ?thesis
    using until_loop_not_oob [of limit start "[]" "rx (tty h)" ts]
    by (cases "until_loop limit start [] (rx (tty h)) ts") (auto simp: ReadUntil_def Let_def split: prod.splits)
qed (auto simp: ReadUntil_def Let_def)

lemma safe_BlockingWrite:
  assumes "n \<le> length bs"
  shows "safe (same_codec h) (BlockingWrite bs n h)"
  using assms write_loop_not_oob [of "take n bs" "wr (tty h)" "tx (tty h)"]
  by (cases "write_loop (take n bs) (wr (tty h)) (tx (tty h))")
    (auto simp: BlockingWrite_def fault_simps Let_def split: prod.splits)

lemma safe_same_bind:
  "safe (same_codec h) r \<Longrightarrow> (\<And>h'. safe (\<lambda>(b, h2). same_codec h' h2) (k h')) \<Longrightarrow>
   safe (\<lambda>(b, h2). same_codec h h2) (bind_res r k)"
  "safe (\<lambda>(x, h'). same_codec h h') r' \<Longrightarrow> (\<And>x h'. safe (\<lambda>(b, h2). same_codec h' h2) (k' (x, h'))) \<Longrightarrow>
   safe (\<lambda>(b, h2). same_codec h h2) (bind_res r' k')"
  by (auto intro!: safe_bind intro: safe_mono same_codec_trans)

lemma safe_To_proto_api: "safe (\<lambda>(b, h'). same_codec h h') (SwitchFromConsoleToProtoApi cfg h)"
proof -
  let ?h = "print_at INFO (''SwitchFromConsoleToProtoApi() start'' @ [NL]) h"
  have "safe (\<lambda>(b, h'). same_codec ?h h') (SwitchFromConsoleToProtoApi cfg h)"
    unfolding SwitchFromConsoleToProtoApi_def Let_def
    by (auto simp del: same_codec_simps(3) simp: bytes_of_def
        intro!: safe_same_bind safe_ReadUntil safe_BlockingWrite safe_await_prompt)
  then show ?thesis by simp
qed


subsection \<open>The operations and the states they reach\<close>

record ('w, 'e, 'd) site =
  site_env :: "'w nos"
  site_ops :: "('e, 'd) ahdlc"
  site_cfg :: config
  site_api :: switch_api

text \<open>What the libraries and the device promise: replies that fit the buffer they are for, a frame
  codec that keeps to its buffers, complete statistics, and a request that fits in a message.\<close>

definition contracts :: "('w, 'e, 'd) site \<Rightarrow> bool" where
  "contracts site \<longleftrightarrow>
     replies_fit (site_env site) \<and> ahdlc_bounded (site_ops site) \<and> ahdlc_inits (site_ops site) \<and>
     stats_replies_full (site_env site) \<and>
     length (revert_request (site_api site)) \<le> PROTO_BUFFER_MAX_LEN - 2"

text \<open>The operations that act on the harness. The queries (\<open>ttyState\<close>, \<open>getVerbosity\<close>,
  \<open>UsingSpi\<close>) leave it as it is, and \<open>PrintUntilClosed\<close> is the printing thread's. A message
  variable of the caller, or of the operation, comes with its contents.\<close>

datatype operation =
    Set_verbosity int
  | Flush_console
  | Read_until int
  | Reboot_nugget
  | Send_data raw_message
  | Send_proto raw_message u16 "byte list"
  | Send_oneof_proto raw_message u16 u16 "byte list"
  | Get_data raw_message int
  | Console_to_proto_api
  | Proto_api_to_console raw_message "raw_message option"

fun perform ::
  "('w, 'e, 'd) site \<Rightarrow> operation \<Rightarrow> ('w, 'e, 'd) harness \<Rightarrow> fault + ('w, 'e, 'd) harness" where
  "perform site (Set_verbosity v) h = Inr (snd (setVerbosity v h))"
| "perform site Flush_console h = flushConsole (site_cfg site) h"
| "perform site (Read_until limit) h =
     bind_res (ReadUntil (site_cfg site) limit h) (\<lambda>(bs, h). Inr h)"
| "perform site Reboot_nugget h = bind_res (TestHarness_RebootNugget (site_env site) h) (\<lambda>(b, h). Inr h)"
| "perform site (Send_data m) h =
     bind_res (SendData (site_env site) (site_ops site) (site_cfg site) m h) (\<lambda>(e, h). Inr h)"
| "perform site (Send_proto m t bs) h =
     bind_res (SendProto (site_env site) (site_ops site) (site_cfg site) m t (pb_of bs) h) (\<lambda>(e, h). Inr h)"
| "perform site (Send_oneof_proto m t sub bs) h =
     bind_res (SendOneofProto (site_env site) (site_ops site) (site_cfg site) m t sub (pb_of bs) h) (\<lambda>(e, h). Inr h)"
| "perform site (Get_data m timeout) h =
     bind_res (GetData (site_ops site) (site_cfg site) m timeout h) (\<lambda>(e, m, h). Inr h)"
| "perform site Console_to_proto_api h =
     bind_res (SwitchFromConsoleToProtoApi (site_cfg site) h) (\<lambda>(b, h). Inr h)"
| "perform site (Proto_api_to_console m out) h =
     bind_res (SwitchFromProtoApiToConsole (site_ops site) (site_api site) (site_cfg site) m out h)
       (\<lambda>(b, out, h). Inr h)"

text \<open>What a caller sees to: the messages it passes are whole, with a length within the array where
  they are sent as they are, and the way back to the console, which uses the frame codec, is taken
  only when aHDLC is the transport, since otherwise \<open>Init\<close> leaves the codec uninitialized.\<close>

fun proper :: "('w, 'e, 'd) site \<Rightarrow> operation \<Rightarrow> bool" where
  "proper site (Send_data m) \<longleftrightarrow> sendable m"
| "proper site (Send_proto m t bs) \<longleftrightarrow> message_wf m"
| "proper site (Send_oneof_proto m t sub bs) \<longleftrightarrow> message_wf m"
| "proper site (Get_data m timeout) \<longleftrightarrow> message_wf m"
| "proper site (Proto_api_to_console m out) \<longleftrightarrow> message_wf m \<and> uses_ahdlc (site_cfg site)"
| "proper site _ \<longleftrightarrow> True"

text \<open>The calls that nevertheless leave an array or follow a null pointer.\<close>

fun breaks_out :: "('w, 'e, 'd) harness \<Rightarrow> operation \<Rightarrow> bool" where
  "breaks_out h (Send_oneof_proto m t sub bs) \<longleftrightarrow> length bs \<in> {509, 510}"
| "breaks_out h Reboot_nugget \<longleftrightarrow> hclient h = None"
| "breaks_out h _ \<longleftrightarrow> False"

inductive reachable ::
  "('w, 'e, 'd) site \<Rightarrow> ('w, 'e, 'd) harness \<Rightarrow> ('w, 'e, 'd) harness \<Rightarrow> bool" for site h0 where
  built: "reachable site h0 h0"
| moved: "reachable site h0 h \<Longrightarrow> proper site op \<Longrightarrow> perform site op h = Inr h' \<Longrightarrow> reachable site h0 h'"

lemma reachable_trans: "reachable site h1 h2 \<Longrightarrow> reachable site h0 h1 \<Longrightarrow> reachable site h0 h2"
  by (induction rule: reachable.induct) (auto intro: reachable.moved)

text \<open>Each operation develops the harness, proper or not.\<close>

lemma perform_evolves: "perform site op h = Inr h' \<Longrightarrow> evolves h h'"
proof -
  assume run: "perform site op h = Inr h'"
  have "leads h id (perform site op h)"
    by (cases op)
      (auto simp: setVerbosity_def flushConsole_def
        intro!: leads_flush_loop leads_bind [OF leads_ReadUntil] leads_bind [OF leads_Reboot]
          leads_bind [OF leads_data(1)] leads_bind [OF leads_data(2)] leads_bind [OF leads_protos(1)]
          leads_bind [OF leads_protos(2)] leads_bind [OF leads_To_proto_api] leads_bind [OF leads_To_console])
  with run show ?thesis by simp
qed


subsection \<open>The invariant\<close>

lemma safe_result: "safe P r \<Longrightarrow> (\<And>x. P x \<Longrightarrow> Q (f x)) \<Longrightarrow> safe Q (bind_res r (\<lambda>x. Inr (f x)))"
  by (cases r) auto

lemma safe_send:
  assumes "harness_inv env ops cfg h" "sendable m"
  shows "safe (\<lambda>(e, h'). harness_inv env ops cfg h') (SendData env ops cfg m h)"
  by (rule harness.send_safe [OF assms])

lemma safe_protos:
  assumes inv: "harness_inv env ops cfg h" and m: "message_wf m"
  shows "safe (\<lambda>(e, h'). harness_inv env ops cfg h') (SendProto env ops cfg m t (pb_of bs) h)"
    and "length bs \<notin> {509, 510} \<Longrightarrow>
      safe (\<lambda>(e, h'). harness_inv env ops cfg h') (SendOneofProto env ops cfg m t sub (pb_of bs) h)"
proof -
  show "safe (\<lambda>(e, h'). harness_inv env ops cfg h') (SendProto env ops cfg m t (pb_of bs) h)"
  proof (cases "length bs \<le> PROTO_BUFFER_MAX_LEN - 2")
    case True
    from SendProto_fits [OF this m, of env ops cfg t h] safe_send [OF inv] show ?thesis by metis
  next
    case False
    with inv show ?thesis by (simp add: SendProto_def Let_def pb_of_def PROTO_BUFFER_MAX_LEN_def)
  qed
  assume size: "length bs \<notin> {509, 510}"
  show "safe (\<lambda>(e, h'). harness_inv env ops cfg h') (SendOneofProto env ops cfg m t sub (pb_of bs) h)"
  proof (cases "length bs \<le> PROTO_BUFFER_MAX_LEN - 4")
    case True
    from SendOneofProto_fits [OF this m, of env ops cfg t sub h] safe_send [OF inv] show ?thesis by metis
  next
    case False
    with inv size show ?thesis by (simp add: SendOneofProto_def Let_def pb_of_def PROTO_BUFFER_MAX_LEN_def)
  qed
qed

lemma safe_To_console:
  assumes inv: "harness_inv env ops cfg h" and "uses_ahdlc cfg" "message_wf m"
    and "length (revert_request api) \<le> PROTO_BUFFER_MAX_LEN - 2"
  shows "safe (\<lambda>x. harness_inv env ops cfg (end_state x)) (SwitchFromProtoApiToConsole ops api cfg m out h)"
proof -
  have inv_iff: "harness_inv env ops cfg h \<longleftrightarrow> replies_fit env \<and> ahdlc_inv ops h" for h :: "('a, 'b, 'c) harness"
    using assms(2) by (auto simp: harness_inv_def harness_ready_def ahdlc_inv_def)
  have printed: "ahdlc_inv ops (print_at level s h) \<longleftrightarrow> ahdlc_inv ops h" for level s and h :: "('a, 'b, 'c) harness"
    by (simp add: ahdlc_inv_def)
  from inv have h: "replies_fit env" "ahdlc_inv ops h" by (simp_all add: inv_iff)
  obtain msg where msg: "revert_message api m = Inr msg" "sendable msg"
    using revert_message_ok [OF assms(3,4)] .
  have read: "safe (\<lambda>x. ahdlc_inv ops (end_state x))
      (bind_res (ReadUntil cfg limit h2) (\<lambda>(_, h). Inr (b, z, print_at INFO s h)))" if "ahdlc_inv ops h2"
    for h2 :: "('a, 'b, 'c) harness" and limit b z s
  proof (rule safe_bind [OF safe_ReadUntil], clarify)
    fix bs and h3 :: "('a, 'b, 'c) harness"
    assume "same_codec h2 h3"
    then have "ahdlc_inv ops h3" using that by (simp add: same_codec_def ahdlc_inv_def)
    then show "safe (\<lambda>x. ahdlc_inv ops (end_state x)) (Inr (b, z, print_at INFO s h3))"
      by (simp add: printed)
  qed
  show ?thesis
    unfolding SwitchFromProtoApiToConsole_def Let_def msg(1) bind_res_simps
  proof (rule safe_bind [OF SendAhdlc_safe], goal_cases)
    case (3 x)
    then show ?case
      using h(1) sendable_wf [OF msg(2)]
      by (cases x) (auto intro!: safe_bind [OF GetAhdlc_safe] read simp: inv_iff printed)
  qed (use h msg in \<open>simp_all add: printed\<close>)
qed

lemma perform_safe:
  assumes site: "contracts site" and inv: "harness_inv (site_env site) (site_ops site) (site_cfg site) h"
    and ok: "proper site op" "\<not> breaks_out h op"
  shows "safe (harness_inv (site_env site) (site_ops site) (site_cfg site)) (perform site op h)"
proof -
  let ?inv = "harness_inv (site_env site) (site_ops site) (site_cfg site)"
  have same: "same_codec h h' \<Longrightarrow> ?inv h'" for h' by (rule harness_inv_same_codec [OF _ inv])
  show ?thesis
  proof (cases op)
    case (Set_verbosity v)
    have "same_codec h (h\<lparr>verbosity := v\<rparr>)" by (simp add: same_codec_def)
    from same [OF this] show ?thesis by (simp add: Set_verbosity setVerbosity_def)
  next
    case Flush_console
    have "safe ?inv (flush_loop h)" by (rule safe_mono [OF safe_flush_loop]) (rule same)
    with inv show ?thesis by (simp add: Flush_console flushConsole_def)
  next
    case (Read_until limit)
    show ?thesis unfolding Read_until perform.simps
      by (rule safe_bind [OF safe_ReadUntil]) (auto intro: same)
  next
    case Reboot_nugget
    with ok obtain c where c: "hclient h = Some c" by auto
    have full: "stats_replies_full (site_env site)" using site by (simp add: contracts_def)
    have "returns (RebootNugget (site_env site) c (world h))"
      by (rule returning_procedures(1) [OF full])
    then obtain b w where run: "RebootNugget (site_env site) c (world h) = Inr (b, w)" by (auto simp: returns_def)
    have "same_codec h (h\<lparr>world := w\<rparr>)" by (simp add: same_codec_def)
    from same [OF this] run c show ?thesis by (simp add: Reboot_nugget TestHarness_RebootNugget_def)
  next
    case (Send_data m)
    show ?thesis unfolding Send_data perform.simps
      by (rule safe_bind [OF safe_send [OF inv]]) (use ok Send_data in auto)
  next
    case (Send_proto m t bs)
    show ?thesis unfolding Send_proto perform.simps
      by (rule safe_bind [OF safe_protos(1) [OF inv]]) (use ok Send_proto in auto)
  next
    case (Send_oneof_proto m t sub bs)
    show ?thesis unfolding Send_oneof_proto perform.simps
      by (rule safe_bind [OF safe_protos(2) [OF inv]]) (use ok Send_oneof_proto in auto)
  next
    case (Get_data m timeout)
    show ?thesis unfolding Get_data perform.simps
      by (rule safe_bind [OF harness.get_safe [OF inv]]) (use ok Get_data in auto)
  next
    case Console_to_proto_api
    show ?thesis unfolding Console_to_proto_api perform.simps
      by (rule safe_bind [OF safe_To_proto_api]) (auto intro: same)
  next
    case (Proto_api_to_console m out)
    show ?thesis unfolding Proto_api_to_console perform.simps
      by (rule safe_bind [OF safe_To_console [OF inv]]) (use ok site Proto_api_to_console in \<open>auto simp: contracts_def\<close>)
  qed
qed

lemma perform_breaks_out:
  "proper site op \<Longrightarrow> breaks_out h op \<Longrightarrow> perform site op h = Inl Out_of_bounds"
  by (cases op)
    (auto simp: TestHarness_RebootNugget_def SendOneofProto_def Let_def pb_of_def PROTO_BUFFER_MAX_LEN_def
      message_wf_def write_at_def)

lemma reachable_inv:
  assumes "reachable site h0 h" "contracts site" "harness_inv (site_env site) (site_ops site) (site_cfg site) h0"
  shows "harness_inv (site_env site) (site_ops site) (site_cfg site) h"
  using assms(1)
proof induction
  case built
  with assms(3) show ?case by simp
next
  case (moved h op h')
  then have "\<not> breaks_out h op" using perform_breaks_out by fastforce
  with moved safe_Inr [OF perform_safe [OF assms(2)]] show ?case by blast
qed

text \<open>What has been written to the line and to the output is still there in front of what came
  later, and what has been read is a prefix of what was to come.\<close>

lemma reachable_evolves: "reachable site h0 h \<Longrightarrow> evolves h0 h"
  by (induction rule: reachable.induct) (auto intro: evolves_trans dest: perform_evolves)

text \<open>C1: the invariant of the harness, and exactly which calls break out of it. After any sequence of
  public operations on a constructed harness, called with whole messages and with the way back to
  the console taken only over aHDLC, and as long as the libraries and the device keep their
  contracts, the buffers and the frame codec are within their bounds; and of all the calls that can
  come next, the only ones that leave an array or follow a null pointer are \<open>SendOneofProto\<close> with a
  message of 509 or 510 bytes and \<open>RebootNugget\<close> before the SPI transport has made a client.\<close>

theorem session_invariant:
  assumes "contracts site" "TestHarness sys (site_ops site) (site_cfg site) dir start = Inr h0"
    and "reachable site h0 h" "proper site op"
  shows "harness_inv (site_env site) (site_ops site) (site_cfg site) h \<and>
    (perform site op h = Inl Out_of_bounds \<longleftrightarrow>
       (\<exists>m t sub bs. op = Send_oneof_proto m t sub bs \<and> length bs \<in> {509, 510}) \<or>
       op = Reboot_nugget \<and> hclient h = None)"
proof -
  have "harness_inv (site_env site) (site_ops site) (site_cfg site) h0"
    using TestHarness_ready [OF _ assms(2)] assms(1) by (auto simp: contracts_def harness_inv_def)
  from reachable_inv [OF assms(3,1) this] have
    inv: "harness_inv (site_env site) (site_ops site) (site_cfg site) h" .
  have "perform site op h = Inl Out_of_bounds \<longleftrightarrow> breaks_out h op"
    using perform_safe [OF assms(1) inv assms(4)] perform_breaks_out [OF assms(4)] by fastforce
  moreover have "breaks_out h op \<longleftrightarrow> (\<exists>m t sub bs. op = Send_oneof_proto m t sub bs \<and> length bs \<in> {509, 510}) \<or>
      op = Reboot_nugget \<and> hclient h = None"
    by (cases op) auto
  ultimately show ?thesis using inv by simp
qed

definition sample_site :: "(unit, byte list, byte list \<times> bool) site" where
  "sample_site = \<lparr>site_env = echo_device, site_ops = flag_ahdlc, site_cfg = uart_config,
     site_api = \<lparr>CONTROL_REQUEST = 1, NOTICE = 2, revert_request = [8, 1], notice_text = string_of\<rparr>\<rparr>"

lemma sample_contracts: "contracts sample_site"
  using echo_replies_fit flag_ahdlc_contracts
  by (simp add: contracts_def sample_site_def stats_replies_full_def echo_device_def PROTO_BUFFER_MAX_LEN_def)

theorem session_invariant_witness:
  "\<exists>h0 h. TestHarness linux_sample flag_ahdlc uart_config (Some [''ttyUltraTarget_X1'']) (ahdlc_sample [] []) = Inr h0 \<and>
     reachable sample_site h0 h \<and> verbosity h = 40 \<and>
     perform sample_site (Send_data (message_of 7 [1, 2])) h \<noteq> Inl Out_of_bounds \<and>
     perform sample_site (Send_oneof_proto (message_of 0 []) 1 2 (replicate 509 0)) h = Inl Out_of_bounds"
proof -
  have "\<exists>h0. TestHarness linux_sample flag_ahdlc uart_config (Some [''ttyUltraTarget_X1'']) (ahdlc_sample [] []) = Inr h0"
    by (simp add: TestHarness_def find_uart_def Init_def Let_def init_ahdlc_def flag_ahdlc_def print_at_def
        init_uart_def linux_sample_def uart_config_def split: prod.splits)
  then obtain h0 where
    h0: "TestHarness linux_sample flag_ahdlc uart_config (Some [''ttyUltraTarget_X1'']) (ahdlc_sample [] []) = Inr h0"
    by blast
  let ?h = "h0\<lparr>verbosity := 40\<rparr>"
  have step: "reachable sample_site h0 ?h"
    by (rule reachable.moved [OF reachable.built, of _ "Set_verbosity 40"]) (simp_all add: setVerbosity_def)
  have "TestHarness linux_sample (site_ops sample_site) (site_cfg sample_site) (Some [''ttyUltraTarget_X1''])
      (ahdlc_sample [] []) = Inr h0" using h0 by (simp add: sample_site_def)
  note inv = session_invariant [OF sample_contracts this step]
  have "proper sample_site (Send_data (message_of 7 [1, 2]))"
    using message_of_simps(1) [of "[1, 2]" 7] by (simp add: PROTO_BUFFER_MAX_LEN_def)
  from inv [OF this] have "perform sample_site (Send_data (message_of 7 [1, 2])) ?h \<noteq> Inl Out_of_bounds" by simp
  moreover have "proper sample_site (Send_oneof_proto (message_of 0 []) 1 2 (replicate 509 0))"
    using sendable_wf [OF message_of_simps(1) [of "[]" 0]] by (simp add: PROTO_BUFFER_MAX_LEN_def)
  from inv [OF this] have "perform sample_site (Send_oneof_proto (message_of 0 []) 1 2 (replicate 509 0)) ?h = Inl Out_of_bounds"
    by (simp del: perform.simps)
  ultimately show ?thesis using h0 step by (intro exI [of _ h0] exI [of _ ?h]) (simp del: perform.simps)
qed

end
