(* ===== verification/Worker.thy ===== *)
theory Worker
  imports Tty
begin

text \<open>
  The thread that prints the UART (\<open>Init\<close> and \<open>PrintUntilClosed\<close> of \<open>src/util.cc\<close>) beside the
  thread that uses the harness and in the end destroys it. Both read the same line, a byte at a time,
  and the destructor closes it at any moment and then waits for the worker.

  \<open>Tty\<close> has the worker as a function of two scripts, the successive values of \<open>ttyState()\<close> and the
  successive reads. Here it is a machine that takes one step per access to what is shared, in any
  interleaving with the other thread; the machine implements the function.
\<close>

subsection \<open>The machine\<close>

text \<open>Where the worker is: before its message, before the test of its loop, before that of
  \<open>PrintUntilClosed\<close>, before that of the loop in it, before a read, after the loop, at its end.\<close>

datatype point =
    Start
  | Outer
  | Enter
  | Inner bool sstream
  | Draining bool sstream
  | Leave bool sstream
  | Ended

text \<open>\<open>checks\<close> and \<open>worker_reads\<close> record what the worker has seen, \<open>worker_took\<close> and
  \<open>main_took\<close> what each thread has taken from the open line.\<close>

record uart_threads =
  line_open :: bool
  pending :: "tty_read list"
  point :: point
  printed :: string
  checks :: "bool list"
  worker_reads :: "tty_read list"
  worker_took :: "tty_read list"
  main_took :: "tty_read list"

definition enabled_text :: "int \<Rightarrow> string" where
  "enabled_text v = (if INFO \<le> v then ''Citadel UART printing enabled!'' @ [NL] else [])"

definition disabled_text :: "int \<Rightarrow> string" where
  "disabled_text v = (if INFO \<le> v then ''Citadel UART printing disabled!'' @ [NL] else [])"

definition last_line :: "bool \<Rightarrow> sstream \<Rightarrow> string" where
  "last_line first ss = (if first then [] else ss_str (ss_write [NL] ss))"

text \<open>What a read gives, and the rest of the line; a read of a closed line fails with
  \<open>EBADF\<close>, one of an open line waits for what \<open>pending\<close> tells.\<close>

definition next_read :: "uart_threads \<Rightarrow> (tty_read \<times> uart_threads) option" where
  "next_read s =
     (if \<not> line_open s then Some (Nothing EBADF, s)
      else (case pending s of
          [] \<Rightarrow> None
        | r # rs \<Rightarrow> Some (r, s\<lparr>pending := rs, worker_took := worker_took s @ [r]\<rparr>)))"

definition check_line :: "point \<Rightarrow> point \<Rightarrow> uart_threads \<Rightarrow> uart_threads" where
  "check_line if_open if_closed s =
     s\<lparr>checks := checks s @ [line_open s], point := (if line_open s then if_open else if_closed)\<rparr>"

definition worker_step :: "int \<Rightarrow> uart_threads \<Rightarrow> uart_threads option" where
  "worker_step v s =
     (case point s of
        Start \<Rightarrow> Some (s\<lparr>point := Outer, printed := printed s @ enabled_text v\<rparr>)
      | Outer \<Rightarrow>
          (let s' = check_line Enter Ended s in
           Some (if line_open s then s' else s'\<lparr>printed := printed s @ disabled_text v\<rparr>))
      | Enter \<Rightarrow> Some (check_line (Inner True (ss_new ''UART: '')) Outer s)
      | Inner first ss \<Rightarrow> Some (check_line (Draining first ss) (Leave first ss) s)
      | Draining first ss \<Rightarrow>
          (case next_read s of
             None \<Rightarrow> None
           | Some (r, s) \<Rightarrow>
               (let s = s\<lparr>worker_reads := worker_reads s @ [r]\<rparr> in
                case r of
                  Got b \<Rightarrow>
                    (let (ss, out) = uart_byte b (ss, printed s)
                     in Some (s\<lparr>point := Draining False ss, printed := out\<rparr>))
                | Nothing e \<Rightarrow>
                    Some (s\<lparr>point := (if CRITICAL \<le> v \<and> e \<noteq> 0 \<and> e \<noteq> EAGAIN then Leave first ss
                                     else Inner first ss)\<rparr>)))
      | Leave first ss \<Rightarrow> Some (s\<lparr>point := Outer, printed := printed s @ last_line first ss\<rparr>)
      | Ended \<Rightarrow> None)"

text \<open>The other thread, as far as it shares the line: it reads from it, and it closes it.\<close>

inductive thread_step :: "int \<Rightarrow> uart_threads \<Rightarrow> uart_threads \<Rightarrow> bool" for v where
  worker: "worker_step v s = Some s' \<Longrightarrow> thread_step v s s'"
| main_reads: "line_open s \<Longrightarrow> pending s = r # rs \<Longrightarrow>
    thread_step v s (s\<lparr>pending := rs, main_took := main_took s @ [r]\<rparr>)"
| main_closes: "thread_step v s (s\<lparr>line_open := False\<rparr>)"

inductive_cases thread_stepE: "thread_step v s s'"

definition threads_start :: "tty_read list \<Rightarrow> uart_threads" where
  "threads_start rs = \<lparr>line_open = True, pending = rs, point = Start, printed = [], checks = [],
     worker_reads = [], worker_took = [], main_took = []\<rparr>"

inductive threads :: "int \<Rightarrow> tty_read list \<Rightarrow> uart_threads \<Rightarrow> bool" for v rs where
  start: "threads v rs (threads_start rs)"
| step: "threads v rs s \<Longrightarrow> thread_step v s s' \<Longrightarrow> threads v rs s'"

fun run_worker :: "int \<Rightarrow> nat \<Rightarrow> uart_threads \<Rightarrow> uart_threads" where
  "run_worker v 0 s = s"
| "run_worker v (Suc n) s = (case worker_step v s of None \<Rightarrow> s | Some s' \<Rightarrow> run_worker v n s')"

subsection \<open>Who reads what\<close>

text \<open>A step of the worker takes one read from the line at most.\<close>

lemma worker_step_line:
  assumes "worker_step v s = Some s'"
  shows "line_open s' = line_open s \<and> main_took s' = main_took s \<and>
    (pending s' = pending s \<and> worker_took s' = worker_took s \<or>
     (\<exists>r. pending s = r # pending s' \<and> worker_took s' = worker_took s @ [r]))"
  using assms
  by (auto simp: worker_step_def check_line_def next_read_def Let_def
      split: point.splits option.splits tty_read.splits prod.splits if_splits list.splits)

lemma snoc_in_shuffles:
  "zs \<in> shuffles xs ys \<Longrightarrow> zs @ [r] \<in> shuffles (xs @ [r]) ys \<and> zs @ [r] \<in> shuffles xs (ys @ [r])"
proof (induction zs arbitrary: xs ys)
  case Nil
  then show ?case by simp
next
  case (Cons z zs)
  from Cons.prems consider
      xs' where "xs = z # xs'" "zs \<in> shuffles xs' ys"
    | ys' where "ys = z # ys'" "zs \<in> shuffles xs ys'"
    by (cases xs; cases ys) auto
  then show ?case
    by cases (auto dest!: Cons.IH intro: Cons_in_shuffles_leftI Cons_in_shuffles_rightI)
qed

text \<open>An ended worker stays as it is, whatever the other thread does, and a closed line stays closed.\<close>

lemma thread_step_final:
  assumes "thread_step v s s'"
  shows "point s = Ended \<Longrightarrow> point s' = Ended \<and> printed s' = printed s \<and> worker_took s' = worker_took s"
    and "\<not> line_open s \<Longrightarrow> \<not> line_open s' \<and> pending s' = pending s"
  using assms
  by (auto elim!: thread_stepE dest: worker_step_line simp: worker_step_def next_read_def check_line_def Let_def
      split: point.splits tty_read.splits prod.splits if_splits)

text \<open>What has been taken from the line is what the two threads took, each in the order of the
  line.\<close>

lemma threads_split:
  "threads v rs s \<Longrightarrow> \<exists>used. rs = used @ pending s \<and> used \<in> shuffles (worker_took s) (main_took s)"
proof (induction rule: threads.induct)
  case start
  then show ?case by (simp add: threads_start_def)
next
  case (step s s')
  then obtain used where u: "rs = used @ pending s" "used \<in> shuffles (worker_took s) (main_took s)"
    by blast
  from step.hyps(2) show ?case
  proof cases
    case worker
    from worker_step_line [OF this] show ?thesis
    proof (elim conjE disjE exE)
      fix r
      assume "pending s = r # pending s'" "worker_took s' = worker_took s @ [r]" "main_took s' = main_took s"
      with u snoc_in_shuffles [OF u(2), of r] show ?thesis by (intro exI [of _ "used @ [r]"]) auto
    qed (use u in auto)
  next
    case (main_reads r rs')
    with u snoc_in_shuffles [OF u(2), of r] show ?thesis by (intro exI [of _ "used @ [r]"]) auto
  next
    case main_closes
    with u show ?thesis by auto
  qed
qed

subsection \<open>The machine implements the function\<close>

text \<open>What the thread still does from a program point on, as a function of what it will see.\<close>

definition finish_line ::
  "int \<Rightarrow> fault + (bool \<times> (sstream \<times> string) \<times> bool list \<times> tty_read list) \<Rightarrow>
   fault + (string \<times> bool list \<times> tty_read list)" where
  "finish_line v res =
     bind_res res (\<lambda>(first, (ss, out), alive, rs). uart_worker v alive rs (out @ last_line first ss))"

definition remaining ::
  "int \<Rightarrow> point \<Rightarrow> string \<Rightarrow> bool list \<Rightarrow> tty_read list \<Rightarrow>
   fault + (string \<times> bool list \<times> tty_read list)" where
  "remaining v pc out alive rs =
     (case pc of
        Start \<Rightarrow> uart_worker v alive rs (out @ enabled_text v)
      | Outer \<Rightarrow> uart_worker v alive rs out
      | Enter \<Rightarrow> bind_res (PrintUntilClosed v alive rs) (\<lambda>(s, alive, rs). uart_worker v alive rs (out @ s))
      | Inner first ss \<Rightarrow> finish_line v (uart_loop v alive rs first (ss, out))
      | Draining first ss \<Rightarrow> finish_line v (uart_loop v (True # alive) rs first (ss, out))
      | Leave first ss \<Rightarrow> uart_worker v alive rs (out @ last_line first ss)
      | Ended \<Rightarrow> Inr (out, alive, rs))"

lemma remaining_simps [simp]:
  "remaining v Start out a r = uart_worker v a r (out @ enabled_text v)"
  "remaining v Outer out a r = uart_worker v a r out"
  "remaining v (Inner f ss) out a r = finish_line v (uart_loop v a r f (ss, out))"
  "remaining v (Draining f ss) out a r = finish_line v (uart_loop v (True # a) r f (ss, out))"
  "remaining v (Leave f ss) out a r = uart_worker v a r (out @ last_line f ss)"
  "remaining v Ended out a r = Inr (out, a, r)"
  by (simp_all add: remaining_def)

lemma remaining_Outer:
  "remaining v Outer out (True # a) r = remaining v Enter out a r"
  "remaining v Outer out (False # a) r = Inr (out @ disabled_text v, a, r)"
  by (simp_all add: uart_worker.simps [of v "_ # _"] remaining_def bind_res_def disabled_text_def
      split: sum.splits)

text \<open>What was printed before does not change what the loop prints.\<close>

lemma uart_byte_after: "uart_byte b (apsnd ((@) p) s) = apsnd ((@) p) (uart_byte b s)"
  by (cases s) (simp add: uart_byte_def Let_def)

lemma uart_bytes_after: "fold uart_byte bs (apsnd ((@) p) s) = apsnd ((@) p) (fold uart_byte bs s)"
  by (induction bs arbitrary: s) (simp_all add: uart_byte_after)

lemma uart_loop_after:
  "uart_loop v a rs first (apsnd ((@) p) s) =
   map_sum id (\<lambda>(first, s, a, rs). (first, apsnd ((@) p) s, a, rs)) (uart_loop v a rs first s)"
proof (induction v a rs first s rule: uart_loop.induct)
  case (3 v a rs first s)
  show ?case
  proof (cases "drain rs")
    case (Some d)
    obtain bs e rs' where d: "d = (bs, e, rs')" by (cases d)
    from Some d "3.IH" [OF Some d [symmetric] refl refl refl] show ?thesis
      by (simp add: uart_bytes_after Let_def)
  qed simp
qed simp_all

lemma remaining_Enter:
  "remaining v Enter out (True # a) r = remaining v (Inner True (ss_new ''UART: '')) out a r"
  "remaining v Enter out (False # a) r = remaining v Outer out a r"
proof -
  have "uart_loop v a r True (ss_new ''UART: '', out) = 
      uart_loop v a r True (apsnd ((@) out) (ss_new ''UART: '', []))" by simp
  also note uart_loop_after
  finally show "remaining v Enter out (True # a) r = remaining v (Inner True (ss_new ''UART: '')) out a r"
    by (auto simp: remaining_def PrintUntilClosed_def finish_line_def last_line_def bind_res_def
        split: sum.splits prod.splits)
  show "remaining v Enter out (False # a) r = remaining v Outer out a r"
    by (simp add: remaining_def PrintUntilClosed_def bind_res_def)
qed

lemma remaining_Inner:
  "remaining v (Inner f ss) out (True # a) r = remaining v (Draining f ss) out a r"
  "remaining v (Inner f ss) out (False # a) r = remaining v (Leave f ss) out a r"
  by (simp_all add: finish_line_def bind_res_def)

lemma remaining_Draining_Got:
  "remaining v (Draining f ss) out a (Got b # r) =
   (case uart_byte b (ss, out) of (ss, out) \<Rightarrow> remaining v (Draining False ss) out a r)"
  by (cases "drain r") (auto simp: Let_def finish_line_def bind_res_def split: prod.splits)

lemma remaining_Draining_Nothing:
  "remaining v (Draining f ss) out a (Nothing e # r) =
   remaining v (if CRITICAL \<le> v \<and> e \<noteq> 0 \<and> e \<noteq> EAGAIN then Leave f ss else Inner f ss) out a r"
  by (auto simp: finish_line_def bind_res_def)

text \<open>A step sees some values of \<open>ttyState()\<close> and some reads, and what remains before it
  on these and later ones is what remains after it on the later ones.\<close>

lemma worker_step_remaining:
  assumes "worker_step v s = Some s'"
  shows "\<exists>a r. checks s' = checks s @ a \<and> worker_reads s' = worker_reads s @ r \<and>
    (\<forall>a' r'. remaining v (point s) (printed s) (a @ a') (r @ r') = remaining v (point s') (printed s') a' r')"
proof (cases "point s")
  case (Draining f ss)
  with assms obtain r s1 where r: "next_read s = Some (r, s1)"
    and s1: "checks s1 = checks s" "worker_reads s1 = worker_reads s" "printed s1 = printed s"
    by (auto simp: worker_step_def next_read_def split: option.splits if_splits list.splits)
  with assms Draining s1 remaining_Draining_Got remaining_Draining_Nothing show ?thesis
    by (intro exI [of _ "[]"] exI [of _ "[r]"])
      (auto simp: worker_step_def Let_def simp del: remaining_simps split: tty_read.splits prod.splits)
next
  case Outer
  with assms show ?thesis
    by (intro exI [of _ "[line_open s]"] exI [of _ "[]"])
      (auto simp: worker_step_def check_line_def Let_def remaining_Outer simp del: remaining_simps(2))
next
  case Enter
  with assms show ?thesis
    by (intro exI [of _ "[line_open s]"] exI [of _ "[]"])
      (auto simp: worker_step_def check_line_def remaining_Enter simp del: remaining_simps)
next
  case (Inner f ss)
  with assms show ?thesis
    by (intro exI [of _ "[line_open s]"] exI [of _ "[]"])
      (auto simp: worker_step_def check_line_def remaining_Inner simp del: remaining_simps)
qed (use assms in \<open>auto simp: worker_step_def intro!: exI [of _ "[]"]\<close>)

lemma threads_remaining:
  "threads v rs s \<Longrightarrow>
   uart_worker v (checks s @ a) (worker_reads s @ r) (enabled_text v) =
   remaining v (point s) (printed s) a r"
proof (induction arbitrary: a r rule: threads.induct)
  case start
  then show ?case by (simp add: threads_start_def)
next
  case (step s s')
  from step.hyps(2) show ?case
  proof cases
    case worker
    from worker_step_remaining [OF this] step.IH show ?thesis by fastforce
  qed (use step.IH in simp_all)
qed

text \<open>C16: however the worker and the other thread interleave, a worker that has ended has printed what
  its function computes from the values of \<open>ttyState()\<close> and the reads that it saw, all of them; and
  the two threads have split the line, each taking its share in the order of the line, nothing twice
  and nothing lost.\<close>

theorem worker_refines:
  assumes "threads v rs s" "point s = Ended"
  shows "uart_worker v (checks s) (worker_reads s) (enabled_text v) = Inr (printed s, [], []) \<and>
    (\<exists>used. rs = used @ pending s \<and> used \<in> shuffles (worker_took s) (main_took s))"
  using threads_remaining [OF assms(1), of "[]" "[]"] threads_split [OF assms(1)] assms(2) by simp

text \<open>C17: the destructor's \<open>join\<close> returns: once the line is closed, the worker ends within four of its
  own steps wherever it was, and takes nothing more from the line. (The other thread is in \<open>join\<close> by
  then and takes no steps.)\<close>

theorem join_returns:
  assumes "\<not> line_open s"
  shows "point (run_worker v 4 s) = Ended \<and> pending (run_worker v 4 s) = pending s"
  using assms
  by (cases "point s") (simp_all add: numeral_eq_Suc worker_step_def check_line_def next_read_def Let_def)

text \<open>A run: the worker prints a byte and starts over, the other thread takes the next byte and
  closes the line, the worker finishes its line with a failing read.\<close>

definition sample_run :: uart_threads where
  "sample_run =
     (let s = run_worker INFO 6 (threads_start [Got 72, Nothing EAGAIN, Got 73, Got 74]);
          s = s\<lparr>pending := tl (pending s), main_took := main_took s @ [hd (pending s)]\<rparr>
      in run_worker INFO 4 (s\<lparr>line_open := False\<rparr>))"

lemma threads_worker: "threads v rs s \<Longrightarrow> threads v rs (run_worker v n s)"
  by (induction v n s rule: run_worker.induct)
    (auto split: option.splits intro: threads.step thread_step.worker)

lemma sample_run_threads:
  "threads INFO [Got 72, Nothing EAGAIN, Got 73, Got 74] sample_run"
proof -
  let ?rs = "[Got 72, Nothing EAGAIN, Got 73, Got 74]"
  let ?s = "run_worker INFO 6 (threads_start ?rs)"
  have s: "threads INFO ?rs ?s" by (intro threads_worker threads.start)
  have "line_open ?s \<and> pending ?s = Got 73 # [Got 74]" by code_simp
  then have "thread_step INFO ?s (?s\<lparr>pending := [Got 74], main_took := main_took ?s @ [Got 73]\<rparr>)"
    by (intro thread_step.main_reads) auto
  from threads.step [OF s this] \<open>_ \<and> pending ?s = _\<close> show ?thesis
    unfolding sample_run_def Let_def
    by (auto intro!: threads_worker threads.step [OF _ thread_step.main_closes])
qed

theorem worker_refines_witness:
  "point sample_run = Ended \<and>
   uart_worker INFO (checks sample_run) (worker_reads sample_run) (enabled_text INFO) =
     Inr (printed sample_run, [], []) \<and>
   printed sample_run = enabled_text INFO @ ''H'' @ [NL] @ ''RT: '' @ disabled_text INFO"
proof -
  have "point sample_run = Ended" by code_simp
  moreover have "printed sample_run = enabled_text INFO @ ''H'' @ [NL] @ ''RT: '' @ disabled_text INFO"
    by code_simp
  ultimately show ?thesis using worker_refines [OF sample_run_threads] by simp
qed

theorem join_returns_witness:
  "point (run_worker INFO 4 ((run_worker INFO 6 (threads_start [Got 72, Nothing EAGAIN]))\<lparr>line_open := False\<rparr>)) = Ended"
  using join_returns [of "(run_worker INFO 6 (threads_start [Got 72, Nothing EAGAIN]))\<lparr>line_open := False\<rparr>" INFO]
  by simp

end
