(* ===== verification/Spec2Isabelle.thy ===== *)
theory Spec2Isabelle
  imports AhdlcReturns OsLink Runner Provision WrappedKey OsCrypto Trng Cmac Cavp Weaver NuggetCore StressTest AvbReset Session Worker
begin

text \<open>
  A model of the system test harness for the Citadel chip.

  \<^bold>\<open>The program.\<close> A library talks to the chip: \<open>src/util.cc\<close> and \<open>src/util.h\<close> hold the class
  \<open>TestHarness\<close>, which exchanges messages with the chip over SPI (through a client library) or in
  aHDLC frames over a serial line, and \<open>tools/*.cc\<close> hold procedures that the tests share. Test
  programs are written against it (the other files of \<open>src/\<close>): tests of the chip's operating system
  and of its applications, a stress test, and \<open>gtest_with_gflags_main.cc\<close>, which decides which tests
  run. A test talks to the chip either in messages through the harness, or to an application through
  the client; then the harness only prints what comes over the serial line, in a thread of its own.

  \<^bold>\<open>The library.\<close>
    \<^item> \<open>Prelude\<close>: widths of integers, the ways a run ends without a value (\<open>fault\<close>), sequencing
      (\<open>bind_res\<close>), byte orders, bounded reads and writes, the locales \<open>stream_codec\<close> and \<open>text_codec\<close>.
    \<^item> \<open>Console\<close>: \<open>print_bin\<close>, the logs of transmissions, string streams, error code names and
      verbosity levels of \<open>util.cc\<close> and \<open>util.h\<close>.
    \<^item> \<open>NuggetTools\<close>: \<open>tools/nugget_tools.cc\<close> over a record \<open>nos\<close> of what the client library,
      the clock and the firmware's headers provide. \<open>RebootNugget\<close>, \<open>WaitForSleep\<close> and
      \<open>WipeUserData\<close> report success on exactly stated evidence from two statistics requests, and
      tell of a failure which step it was, with one exception: the traces of failing runs are given in full. Their output goes to the world, as
      does all that the client does.
    \<^item> \<open>Tty\<close>: the record \<open>harness\<close> has the members of \<open>TestHarness\<close>; \<open>BlockingWrite\<close>,
      \<open>ReadLineUntilBlock\<close>, \<open>flushConsole\<close>, \<open>ReadUntil\<close>, \<open>PrintUntilClosed\<close> act on it.
    \<^item> \<open>Worker\<close>: the printing thread that \<open>Init\<close> starts as a machine whose steps interleave with the
      thread that uses the line and closes it. It implements the function of \<open>Tty\<close>, and the
      destructor's \<open>join\<close> returns.
    \<^item> \<open>Transport\<close>: what a client of a transport relies on, the locale \<open>transport\<close>; interpreted by
      \<open>Spi\<close> (\<open>SendSpi\<close>, \<open>GetSpi\<close>), by \<open>Ahdlc\<close> (\<open>SendAhdlc\<close>, \<open>GetAhdlc\<close>) and by \<open>Harness\<close>
      (\<open>SendData\<close>, \<open>GetData\<close>, which choose one of the two).
    \<^item> \<open>AhdlcReturns\<close>: when \<open>GetAhdlc\<close> returns and what holds it for ever. \<open>AhdlcLink\<close>: what one
      end of a line sends the other receives, in order; frames of less than eight bytes are lost.
    \<^item> \<open>Switch\<close>: \<open>SwitchFromConsoleToProtoApi\<close> and \<open>SwitchFromProtoApiToConsole\<close>.
    \<^item> \<open>Harness\<close>: \<open>SendProto\<close> and \<open>SendOneofProto\<close> with their limits, \<open>find_uart\<close>, \<open>Init\<close>, the
      constructors and the destructor.
    \<^item> \<open>Session\<close>: the public operations of \<open>util.h\<close> in any order, as a transition system with its
      invariant, and exactly which calls break out of it.

  \<^bold>\<open>The tests.\<close>
    \<^item> \<open>GTest\<close>: what the tests use of the test framework, with the difference between \<open>EXPECT\<close> and
      \<open>ASSERT\<close>. \<open>Scripts\<close>: what a test asks of the chip, as a list of steps. \<open>Fixture\<close>: the
      set-up and tear-down of the tests of applications. \<open>DeviceTest\<close>: the helpers and macros of the
      tests that talk through the harness (in the three files that repeat the macros).
    \<^item> \<open>AvbTools\<close>: \<open>tools/avb_tools.cc\<close> and \<open>tools/keymaster_tools.cc\<close>.
    \<^item> \<open>AvbTests\<close>, \<open>AvbReset\<close>: \<open>avb_tests.cc\<close>. \<open>Weaver\<close>: \<open>weaver_tests.cc\<close>.
      \<open>NuggetCore\<close>: \<open>nugget_core_tests.cc\<close>. \<open>Provision\<close>: \<open>keymaster-provision-tests.cc\<close>.
    \<^item> \<open>Blob\<close>: \<open>blob.h\<close>, the layout of key blobs. \<open>TestKeys\<close>: \<open>test-data/test-keys/rsa.cc\<close>.
      \<open>ImportKey\<close> and \<open>WrappedKey\<close>: \<open>keymaster-import-key-tests.cc\<close> and
      \<open>keymaster-import-wrapped-key-tests.cc\<close>.
    \<^item> \<open>OsTests\<close>, \<open>OsCrypto\<close>, \<open>Trng\<close>: \<open>runtests.cc\<close>; \<open>OsLink\<close> takes two of its tests down to
      the bytes of an aHDLC frame. \<open>Cmac\<close>: \<open>aes-cmac-tests.cc\<close> and its
      data. \<open>Cavp\<close>: \<open>cavptests.cc\<close>. \<open>StressTest\<close>: \<open>stress_test.cc\<close>.
    \<^item> \<open>Runner\<close>: \<open>gtest_with_gflags_main.cc\<close>.

  \<^bold>\<open>How the code is rendered.\<close> A function keeps its name (a suffix where the name is taken). Integers
  have the width of the code as words; \<open>int\<close> stands for enumeration values, times and \<open>errno\<close>. A
  function that can fail to return yields \<open>fault + 'a\<close>: \<open>Out_of_bounds\<close> and \<open>Int_overflow\<close> are
  undefined behaviour, \<open>Exit_failure\<close> is \<open>FatalError\<close>. An array is a list together with the
  check that the code leaves out, so that each write and read past an end shows.

  What the environment does is either a parameter or a script. Parameters: the client library and the
  firmware's constants (\<open>nos\<close>), the frame library (\<open>ahdlc\<close>), the system calls of \<open>Init\<close>, the
  serialized protobuf messages and their parsers, the generated services, OpenSSL, the random device.
  Scripts are the finite lists of the outcomes of \<open>read\<close> and \<open>write\<close>, of the clock's readings and
  of the values of \<open>ttyState()\<close> that the thread sees. A loop that waits consumes its script, and when
  the script ends first the outcome is \<open>Waiting\<close>. So every definition is total and there is no fuel:
  the recursion of each loop goes down with its script, and that a call returns means that some script
  brings it to a value, which the theorems about returning show from conditions on the script alone.

  \<^bold>\<open>What the lemmas show.\<close>
    \<^item> Safety: the interpretations of \<open>transport\<close> and the invariant of \<open>Session\<close> keep every buffer and
      the codec within bounds under the contracts of the libraries; the limits of \<open>SendOneofProto\<close>,
      \<open>short_stats_reply_overreads\<close>, \<open>GetState_trusts_response\<close>, \<open>short_blob_overread\<close> and
      \<open>long_challenge_overflows\<close> show where the code relies on what nobody checks.
    \<^item> Function: what is written to the line, what is read and in which order, what each return code
      means, on every branch.
    \<^item> Verdicts: each test passes, after its fixture where that asks something of the chip, exactly
      when the chip plays the test's script (\<open>plays\<close>), or exactly when the answers satisfy the stated
      condition. Requests are spelled out as data, apart from the code that builds them. The condition
      is often weaker than the test's name suggests.
    \<^item> Layout: packed structures, byte orders and printed bytes are codecs, from which round trips
      follow by interpretation.

  \<^bold>\<open>Not modelled.\<close> The table of \<open>test-data/NIST-CAVP/aes-gcm-cavp.h\<close> and the script that makes it (the
  test takes any table); build files, \<open>scripts/\<close> and the macro for array sizes; the flag that dumps requests to files; the printing
  of floating point numbers, and the rounding of their arithmetic in the random number test, which
  is taken over the reals; the texts of failed assertions; signals that come before the
  stress test waits. The printing thread sees one value of the verbosity, and its output is kept apart from
  that of the other thread. What is then left of the sources are includes, declarations of what is
  defined elsewhere, and the copies of the two assertion macros in \<open>aes-cmac-tests.cc\<close> and
  \<open>cavptests.cc\<close>, which do what those of \<open>runtests.cc\<close> do.
\<close>

end
